theory Spec2Isabelle
  imports Complex_Main "HOL-Library.AList"
begin

section \<open>The entity-indexed data table of OpenFisca (datatables.py)\<close>

text \<open>
  A shallow embedding of class \<open>DataTable\<close> of \<open>openfisca_core/datatables.py\<close>.

  Conventions of the embedding.
  \<^item> The tables are polymorphic in the type of their cells. The methods that cast, compare
    or add cells are modelled on columns of Python/numpy integers, modelled as \<open>int\<close>; a
    boolean column holds \<open>0\<close> and \<open>1\<close> and \<open>astype\<close> is the cast numpy applies. \<open>inflate\<close>,
    which only multiplies, is modelled for every type of cells that has a product; a
    floating-point number is a \<open>real\<close> there (the rounding of the product is not modelled).
  \<^item> A pandas \<open>DataFrame\<close> is its row count and its columns; row labels are the row
    positions (the table is built with \<open>subset = None\<close>, so no row is filtered out).
  \<^item> A numpy index array is a list of row numbers. \<open>var[idx]\<close> is \<open>take_idx\<close> and
    \<open>temp[idx] = vals\<close> is \<open>put_idx\<close>; both raise \<open>IndexError\<close> out of range, as numpy does.
  \<^item> Every \<open>raise\<close> of the source and every exception of a dictionary, attribute or
    array access is a value \<open>Inl e\<close>. A method that mutates the object returns the new
    object; \<open>gen_index\<close> and \<open>populate_from_survey_data\<close>, which can raise after they have
    mutated the object, return the error together with the object as the raise leaves it.
  \<^item> Private methods \<open>_get_value1\<close> and \<open>_get_value3\<close> are \<open>get_value1\<close> and \<open>get_value3\<close>
    (an Isabelle name cannot start with an underscore).
  \<^item> \<open>model.ENTITIES_INDEX\<close>, a constant of a module that is not part of these sources, is a
    parameter; the class \<open>Column\<close> is the record of the attributes the table reads.
  \<^item> Logging and printing change nothing that the table reads later and are left out, as are
    the attributes the methods below never read (\<open>test_case\<close>, \<open>datesim\<close>, \<open>survey_year\<close> ...).
\<close>

subsection \<open>Errors\<close>

datatype error =
    AttributeError string
  | KeyError string
  | RoleKeyError int
  | NbKeyError
  | IndexError
  | ValueError
  | TypeError
  | AssertionError
  | UnboundLocalError string
  | RuntimeError
  | NotADataFrame
  | SurveyDataNeedsVariable string
  | ProblemGettingVariable string error
  | OptMeaningless string
  | OptInconsistent string
  | CannotSum
  | ErrorGettingColumn string

text \<open>
  \<open>AttributeError a\<close>: attribute \<open>a\<close> is missing (of \<open>None\<close>, of the table or of a DataFrame);
  \<open>KeyError k\<close>: string key \<open>k\<close> is missing from a dictionary or a DataFrame;
  \<open>RoleKeyError p\<close>: \<open>self.index[entity][p]\<close> for a role \<open>p\<close> that has no entry;
  \<open>NbKeyError\<close>: \<open>self.index[entity]['nb']\<close> with no \<open>'nb'\<close>;
  \<open>RuntimeError\<close>: the recursion limit of Python. The other constructors are the
  \<open>Exception\<close>s the source raises itself, one constructor for each message.
\<close>

subsection \<open>Columns, tables, index\<close>

datatype dtype = BoolT | IntT

fun astype :: "dtype \<Rightarrow> int \<Rightarrow> int" where
  "astype BoolT v = (if v = 0 then 0 else 1)"
| "astype IntT v = v"

record column =
  col_name :: string
  col_default :: int
  col_dtype :: dtype
  col_entity :: string
  col_enum :: "(string \<times> int) list option"

record 'v dataframe =
  df_len :: nat
  df_cols :: "string \<rightharpoonup> 'v list"

record role_index =
  idxIndi :: "nat list"
  idxUnit :: "nat list"

text \<open>
  \<open>self.index[entity]\<close> is a dictionary with three kinds of keys: \<open>'nb'\<close>, the roles
  (integers) and, in the split layout, the names of other entities.
\<close>

record entity_index =
  nb :: "nat option"
  roles :: "int \<rightharpoonup> role_index"
  cross :: "string \<rightharpoonup> nat list"

record 'v datatable =
  column_by_name :: "(string \<times> column) list"
  num_table :: nat
  table :: "'v dataframe"
  table3 :: "string \<rightharpoonup> 'v dataframe"
  index :: "string \<rightharpoonup> entity_index"
  nrows :: nat

datatype result =
    Arr "int list"
  | Dict "(int \<times> int list) list"
  | Scalar int
  | NoneResult

subsection \<open>numpy\<close>

definition take_idx :: "'a list \<Rightarrow> nat list \<Rightarrow> error + 'a list" where
  "take_idx xs ix =
     (if list_all (\<lambda>i. i < length xs) ix then Inr (map (\<lambda>i. xs ! i) ix) else Inl IndexError)"

fun put_seq :: "'a list \<Rightarrow> (nat \<times> 'a) list \<Rightarrow> 'a list" where
  "put_seq xs [] = xs"
| "put_seq xs (p # ps) = put_seq (xs[fst p := snd p]) ps"

text \<open>
  \<open>xs[ix] = vs\<close>: the values are stored one after the other, so the last one stays where an
  index repeats; a single value is broadcast; any other length mismatch is a \<open>ValueError\<close>.
\<close>

definition put_idx :: "'a list \<Rightarrow> nat list \<Rightarrow> 'a list \<Rightarrow> error + 'a list" where
  "put_idx xs ix vs =
     (if \<not> list_all (\<lambda>i. i < length xs) ix then Inl IndexError
      else if length vs = length ix then Inr (put_seq xs (zip ix vs))
      else if length vs = 1 then Inr (put_seq xs (map (\<lambda>i. (i, hd vs)) ix))
      else Inl ValueError)"

text \<open>\<open>np.unique\<close>: the distinct values in ascending order.\<close>

definition np_unique :: "'a::linorder list \<Rightarrow> 'a list" where
  "np_unique xs = sort (remdups xs)"

text \<open>
  \<open>np.searchsorted(a, v)\<close> (left side) for one key: numpy bisects \<open>a\<close> between \<open>imin = 0\<close>
  and \<open>imax = len(a)\<close>, with \<open>imid = imin + ((imax - imin) >> 1)\<close>, going right when
  \<open>a[imid] < key\<close> and left otherwise, and returns \<open>imin\<close>. On an ascending \<open>a\<close> this is the
  number of elements below the key (lemma \<open>searchsorted1_sorted\<close>); on any other \<open>a\<close> it is
  whatever the bisection reaches. \<open>imid\<close> stays below \<open>imax\<close>, so no access is out of range.
\<close>

function bisect_left :: "int list \<Rightarrow> int \<Rightarrow> nat \<Rightarrow> nat \<Rightarrow> nat" where
  "bisect_left a v imin imax =
     (if imin < imax then
        (let imid = imin + (imax - imin) div 2 in
         if a ! imid < v then bisect_left a v (imid + 1) imax
         else bisect_left a v imin imid)
      else imin)"
  by pat_completeness auto
termination
  by (relation "measure (\<lambda>(a, v, imin, imax). imax - imin)") auto

declare bisect_left.simps [simp del]

definition searchsorted1 :: "int list \<Rightarrow> int \<Rightarrow> nat" where
  "searchsorted1 a v = bisect_left a v 0 (length a)"

definition searchsorted :: "int list \<Rightarrow> int list \<Rightarrow> nat list" where
  "searchsorted a vs = map (searchsorted1 a) vs"

text \<open>
  \<open>np.sort(np.squeeze(np.argwhere(qui == person)))\<close>: the rows whose role is \<open>person\<close>, in
  ascending order (a single row, which squeeze turns into a 0-dimensional array, indexes
  like a list of one row).
\<close>

fun argwhere_from :: "nat \<Rightarrow> int list \<Rightarrow> int \<Rightarrow> nat list" where
  "argwhere_from k [] person = []"
| "argwhere_from k (q # qui) person =
     (if q = person then k # argwhere_from (Suc k) qui person
      else argwhere_from (Suc k) qui person)"

definition argwhere :: "int list \<Rightarrow> int \<Rightarrow> nat list" where
  "argwhere qui person = argwhere_from 0 qui person"

subsection \<open>Reading: \<open>_get_value1\<close> (flat layout)\<close>

text \<open>\<open>temp = np.ones(nb, dtype = dtyp) * dflt; idx = self.index[entity][person];
  temp[idx['idxUnit']] = var[idx['idxIndi']]\<close>, with the fill value as a parameter.\<close>

definition role_array :: "entity_index \<Rightarrow> nat \<Rightarrow> int \<Rightarrow> int list \<Rightarrow> int \<Rightarrow> error + int list" where
  "role_array ei n fill var person =
     (case roles ei person of
        None \<Rightarrow> Inl (RoleKeyError person)
      | Some idx \<Rightarrow>
          (case take_idx var (idxIndi idx) of
             Inl e \<Rightarrow> Inl e
           | Inr vals \<Rightarrow> put_idx (replicate n fill) (idxUnit idx) vals))"

text \<open>The loop \<open>for person in opt: ...; out[person] = temp\<close> over the dictionary \<open>out\<close>.\<close>

fun out_loop :: "entity_index \<Rightarrow> nat \<Rightarrow> int \<Rightarrow> int list \<Rightarrow> int list
    \<Rightarrow> (int \<times> int list) list \<Rightarrow> error + (int \<times> int list) list" where
  "out_loop ei n fill var [] out = Inr out"
| "out_loop ei n fill var (person # opt) out =
     (case role_array ei n fill var person of
        Inl e \<Rightarrow> Inl e
      | Inr temp \<Rightarrow> out_loop ei n fill var opt (AList.update person temp out))"

text \<open>\<open>sumout += val\<close>: \<open>0 + array\<close> the first time, then the elementwise sum.\<close>

fun add_val :: "int list \<Rightarrow> result \<Rightarrow> result" where
  "add_val val (Scalar c) = Arr (map (\<lambda>x. c + x) val)"
| "add_val val (Arr s) = Arr (map2 (+) s val)"
| "add_val val r = r"

definition sum_out :: "(int \<times> int list) list \<Rightarrow> result" where
  "sum_out out = fold add_val (map snd out) (Scalar 0)"

text \<open>The end of \<open>_get_value1\<close> and of case 3 of \<open>_get_value3\<close>: what is returned from \<open>out\<close>.\<close>

definition return_out :: "int list \<Rightarrow> bool \<Rightarrow> (int \<times> int list) list \<Rightarrow> error + result" where
  "return_out opt sum_flag out =
     (if \<not> sum_flag then
        (if length opt = 1 then
           (case map_of out (hd opt) of None \<Rightarrow> Inl (RoleKeyError (hd opt)) | Some a \<Rightarrow> Inr (Arr a))
         else Inr (Dict out))
      else Inr (sum_out out))"

text \<open>\<open>self.index[entity]['nb']\<close>.\<close>

definition index_nb :: "int datatable \<Rightarrow> string \<Rightarrow> error + (entity_index \<times> nat)" where
  "index_nb dt entity =
     (case index dt entity of
        None \<Rightarrow> Inl (KeyError entity)
      | Some ei \<Rightarrow> (case nb ei of None \<Rightarrow> Inl NbKeyError | Some n \<Rightarrow> Inr (ei, n)))"

text \<open>
  The enumeration of the roles of an entity, as \<open>_get_value1\<close> and \<open>propagate_to_members\<close>
  read it: when the column \<open>qui<ent>\<close> is not registered, the fallback reads \<open>self._inputs\<close>,
  an attribute a \<open>DataTable\<close> does not have; iterating over an enumeration that is \<open>None\<close> is
  a \<open>TypeError\<close>.
\<close>

definition role_enum :: "int datatable \<Rightarrow> string \<Rightarrow> error + (string \<times> int) list" where
  "role_enum dt ent =
     (case map_of (column_by_name dt) (''qui'' @ ent) of
        None \<Rightarrow> Inl (AttributeError ''_inputs'')
      | Some c \<Rightarrow> (case col_enum c of None \<Rightarrow> Inl TypeError | Some en \<Rightarrow> Inr en))"

text \<open>The loop \<open>for member in enum: ...; var[idx['idxIndi']] = value[idx['idxUnit']]\<close>.\<close>

fun member_loop :: "int datatable \<Rightarrow> string \<Rightarrow> result \<Rightarrow> int list \<Rightarrow> (string \<times> int) list
    \<Rightarrow> error + int list" where
  "member_loop dt ent v var [] = Inr var"
| "member_loop dt ent v var (member # enum) =
     (case index dt ent of
        None \<Rightarrow> Inl (KeyError ent)
      | Some ei \<Rightarrow>
          (case roles ei (snd member) of
             None \<Rightarrow> Inl (RoleKeyError (snd member))
           | Some idx \<Rightarrow>
               (case v of
                  Arr val \<Rightarrow>
                    (case take_idx val (idxUnit idx) of
                       Inl e \<Rightarrow> Inl e
                     | Inr vals \<Rightarrow>
                         (case put_idx var (idxIndi idx) vals of
                            Inl e \<Rightarrow> Inl e
                          | Inr var' \<Rightarrow> member_loop dt ent v var' enum))
                | Dict d \<Rightarrow> Inl TypeError
                | Scalar c \<Rightarrow> Inl TypeError
                | NoneResult \<Rightarrow> Inl TypeError)))"

subsection \<open>Reading: \<open>_get_value3\<close> (split layout)\<close>

text \<open>Case 1 of \<open>_get_value3\<close>: the variable is read at its own level.\<close>

definition get_value3_case1 :: "int datatable \<Rightarrow> string \<Rightarrow> int list \<Rightarrow> error + result" where
  "get_value3_case1 dt dent var =
     (case index dt dent of
        None \<Rightarrow> Inl (KeyError dent)
      | Some di \<Rightarrow>
          (case roles di 0 of
             None \<Rightarrow> Inl (RoleKeyError 0)
           | Some idx \<Rightarrow>
               (case take_idx var (idxUnit idx) of Inl e \<Rightarrow> Inl e | Inr r \<Rightarrow> Inr (Arr r))))"

text \<open>The loop of case 2: \<open>for person in opt: idx_person = self.index[dent][person];
  temp[idx_person['idxIndi']] = var[idx_person['idxUnit']]\<close>.\<close>

fun person_loop :: "int datatable \<Rightarrow> string \<Rightarrow> int list \<Rightarrow> int list \<Rightarrow> int list \<Rightarrow> error + int list" where
  "person_loop dt dent var temp [] = Inr temp"
| "person_loop dt dent var temp (person # opt) =
     (case index dt dent of
        None \<Rightarrow> Inl (KeyError dent)
      | Some di \<Rightarrow>
          (case roles di person of
             None \<Rightarrow> Inl (RoleKeyError person)
           | Some idx_person \<Rightarrow>
               (case take_idx var (idxUnit idx_person) of
                  Inl e \<Rightarrow> Inl e
                | Inr vals \<Rightarrow>
                    (case put_idx temp (idxIndi idx_person) vals of
                       Inl e \<Rightarrow> Inl e
                     | Inr temp' \<Rightarrow> person_loop dt dent var temp' opt))))"

text \<open>Case 2 of \<open>_get_value3\<close>: a variable of a bigger entity is propagated to \<open>entity\<close>.\<close>

definition get_value3_case2 :: "int datatable \<Rightarrow> string \<Rightarrow> string \<Rightarrow> string \<Rightarrow> int list option
    \<Rightarrow> int \<Rightarrow> int list \<Rightarrow> error + result" where
  "get_value3_case2 dt varname dent entity opt dflt var =
     (case index_nb dt entity of
        Inl e \<Rightarrow> Inl e
      | Inr (ei, n) \<Rightarrow>
          (let temp = replicate n dflt in
           case opt of
             None \<Rightarrow>
               (if entity \<noteq> ''ind'' then
                  (case index dt dent of
                     None \<Rightarrow> Inl (KeyError dent)
                   | Some di \<Rightarrow>
                       (case cross di entity of
                          None \<Rightarrow> Inl (KeyError entity)
                        | Some idx \<Rightarrow>
                            (case put_idx temp idx var of
                               Inl e \<Rightarrow> Inl e
                             | Inr temp' \<Rightarrow>
                                 (if varname \<in> set [''so'', ''zone_apl'', ''loyer'', ''wprm''] then
                                    (case cross ei dent of
                                       None \<Rightarrow> Inl (KeyError dent)
                                     | Some idx_from \<Rightarrow>
                                         (case take_idx var idx_from of
                                            Inl e \<Rightarrow> Inl e
                                          | Inr r \<Rightarrow> Inr (Arr r)))
                                  else Inr (Arr temp')))))
                else
                  (case index dt dent of
                     None \<Rightarrow> Inl (KeyError dent)
                   | Some di \<Rightarrow>
                       (case roles di 0 of
                          None \<Rightarrow> Inl (RoleKeyError 0)
                        | Some head \<Rightarrow>
                            (case put_idx temp (idxIndi head) var of
                               Inl e \<Rightarrow> Inl e
                             | Inr temp' \<Rightarrow> Inr (Arr temp')))))
           | Some persons \<Rightarrow>
               (case person_loop dt dent var temp persons of
                  Inl e \<Rightarrow> Inl e
                | Inr temp' \<Rightarrow> Inr (Arr temp'))))"

text \<open>
  \<open>tab.groupby(idx_to).aggregate(np.sum)\<close>: one sum for each distinct key, in ascending order
  of the keys.
\<close>

definition group_sums :: "nat list \<Rightarrow> int list \<Rightarrow> int list" where
  "group_sums idx_to tab =
     map (\<lambda>g. sum_list (map snd (filter (\<lambda>p. fst p = g) (zip idx_to tab)))) (np_unique idx_to)"

text \<open>
  Case 3 of \<open>_get_value3\<close>: a variable of a smaller entity is read in a bigger one. The
  array \<open>temp\<close> has the scalar type of the column, so the sums stored in it are cast;
  \<open>tab[0]\<close> fails on an empty column and \<open>groupby\<close> on a key of another length.
\<close>

definition get_value3_case3 :: "int datatable \<Rightarrow> string \<Rightarrow> string \<Rightarrow> string \<Rightarrow> int list
    \<Rightarrow> bool \<Rightarrow> int \<Rightarrow> dtype \<Rightarrow> int list \<Rightarrow> int list \<Rightarrow> error + result" where
  "get_value3_case3 dt varname dent entity opt sum_flag dflt dtyp tab var =
     (case index_nb dt entity of
        Inl e \<Rightarrow> Inl e
      | Inr (ei, n) \<Rightarrow>
          (if dent = ''ind'' then
             (case out_loop ei n (if \<not> sum_flag then dflt else 0) var opt [] of
                Inl e \<Rightarrow> Inl e
              | Inr out \<Rightarrow> return_out opt sum_flag out)
           else if \<not> sum_flag then Inl CannotSum
           else
             (let temp = replicate n dflt in
              case index dt dent of
                None \<Rightarrow> Inl (KeyError dent)
              | Some di \<Rightarrow>
                  (case cross di entity of
                     None \<Rightarrow> Inl (KeyError entity)
                   | Some idx_to \<Rightarrow>
                       (if tab = [] then Inl IndexError
                        else if length idx_to \<noteq> length tab then Inl ValueError
                        else
                          (let idx_to_unique = np_unique idx_to;
                               by_idx_sum = group_sums idx_to tab
                           in case put_idx temp idx_to_unique (map (astype dtyp) by_idx_sum) of
                                Inr temp' \<Rightarrow> Inr (Arr temp')
                              | Inl e \<Rightarrow>
                                  (case put_idx temp idx_to_unique
                                          (map (astype dtyp) (map (astype BoolT) by_idx_sum)) of
                                     Inl e' \<Rightarrow> Inl e'
                                   | Inr temp' \<Rightarrow> Inr (Arr temp'))))))))"

definition get_value3 :: "int datatable \<Rightarrow> string \<Rightarrow> string option \<Rightarrow> int list option \<Rightarrow> bool
    \<Rightarrow> error + result" where
  "get_value3 dt varname entity opt sum_flag =
     (case map_of (column_by_name dt) varname of
        None \<Rightarrow> Inl (AttributeError ''_default'')
      | Some col \<Rightarrow>
          (let dflt = col_default col; dtyp = col_dtype col; dent = col_entity col in
           case table3 dt dent of
             None \<Rightarrow> Inl (KeyError dent)
           | Some df \<Rightarrow>
               (case df_cols df varname of
                  None \<Rightarrow> Inl (KeyError varname)
                | Some tab \<Rightarrow>
                    (let var = map (astype dtyp) tab;
                         case0 = (if entity = None \<or> entity = Some dent then 1
                                  else if entity = Some ''ind'' \<or> dent = ''men'' then 2
                                  else if entity = Some ''men'' \<or> dent = ''ind'' then 3
                                  else (0::nat));
                         case1 = (if case0 = 0 \<and> opt = None then 2 else case0)
                     in if opt \<noteq> None \<and> case1 = 1 \<and> take 2 varname \<noteq> ''id''
                        then Inl (OptMeaningless varname)
                        else
                          (let opt1 = (if opt \<noteq> None \<and> case1 = 1 then None else opt)
                           in if opt1 \<noteq> None \<and> case1 = 2 \<and> entity \<noteq> Some ''ind''
                              then Inl (OptInconsistent varname)
                              else
                                (let sum1 = (if sum_flag \<and> case1 \<noteq> 3 then False else sum_flag);
                                     sum2 = (if case1 = 3 \<and> dent \<noteq> ''ind'' \<and> opt1 = None
                                             then True else sum1);
                                     opt2 = (if case1 = 3 \<and> opt1 = None then Some [0] else opt1);
                                     opt3 = (if varname = ''wprm'' \<and> entity = Some ''ind''
                                             then Some [0..9] else opt2)
                                 in if case1 = 1 then get_value3_case1 dt dent var
                                    else
                                      (case entity of
                                         None \<Rightarrow> Inl (KeyError ''None'')
                                       | Some ent \<Rightarrow>
                                           (if case1 = 2
                                            then get_value3_case2 dt varname dent ent opt3 dflt var
                                            else if case1 = 3
                                            then (case opt3 of
                                                    None \<Rightarrow> Inl TypeError
                                                  | Some persons \<Rightarrow>
                                                      get_value3_case3 dt varname dent ent persons
                                                        sum2 dflt dtyp tab var)
                                            else Inr NoneResult))))))))"

subsection \<open>Reading: \<open>get_value\<close> and \<open>_get_value1\<close>\<close>

text \<open>
  \<open>_get_value1\<close> calls \<open>self.get_value(varname, ent)\<close> for the variable named \<open>ppe_coef\<close>. When
  the owner \<open>ent\<close> of that variable is the leaf entity, the inner call is the same call again:
  Python stops at its recursion limit with a \<open>RuntimeError\<close>, which the handler of
  \<open>get_value\<close> wraps. The model returns that error at once.
\<close>

function get_value :: "int datatable \<Rightarrow> string \<Rightarrow> string option \<Rightarrow> int list option \<Rightarrow> bool
      \<Rightarrow> error + result"
  and get_value1 :: "int datatable \<Rightarrow> string \<Rightarrow> string option \<Rightarrow> int list option \<Rightarrow> bool
      \<Rightarrow> error + result"
where
  "get_value dt varname entity opt sum_flag =
     (if num_table dt = 1 then
        (case get_value1 dt varname entity opt sum_flag of
           Inl e \<Rightarrow> Inl (ProblemGettingVariable varname e)
         | Inr v \<Rightarrow> Inr v)
      else if num_table dt = 3 then get_value3 dt varname entity opt sum_flag
      else Inr NoneResult)"
| "get_value1 dt varname entity opt sum_flag =
     (case map_of (column_by_name dt) varname of
        None \<Rightarrow> Inl (AttributeError ''_default'')
      | Some col \<Rightarrow>
          (let dflt = col_default col; dtyp = col_dtype col; ent = col_entity col in
           case df_cols (table dt) varname of
             None \<Rightarrow> Inl (KeyError varname)
           | Some tab \<Rightarrow>
               (let var = map (astype dtyp) tab;
                    entity' = (case entity of None \<Rightarrow> ''ind'' | Some en \<Rightarrow> en)
                in
                if entity' = ''ind'' then
                  (if varname \<noteq> ''ppe_coef'' then Inr (Arr var)
                   else
                     (case (if ent = ''ind'' then Inl (ProblemGettingVariable varname RuntimeError)
                            else get_value dt varname (Some ent) None False) of
                        Inl e \<Rightarrow> Inl e
                      | Inr v \<Rightarrow>
                          (case role_enum dt ent of
                             Inl e \<Rightarrow> Inl e
                           | Inr enum \<Rightarrow>
                               (case member_loop dt ent v var enum of
                                  Inl e \<Rightarrow> Inl e
                                | Inr var' \<Rightarrow> Inr (Arr var')))))
                else
                  (case index_nb dt entity' of
                     Inl e \<Rightarrow> Inl e
                   | Inr (ei, n) \<Rightarrow>
                       (case opt of
                          None \<Rightarrow>
                            (case role_array ei n dflt var 0 of
                               Inl e \<Rightarrow> Inl e
                             | Inr temp \<Rightarrow> Inr (Arr temp))
                        | Some persons \<Rightarrow>
                            (case out_loop ei n dflt var persons [] of
                               Inl e \<Rightarrow> Inl e
                             | Inr out \<Rightarrow> return_out persons sum_flag out))))))"
  by pat_completeness auto
termination
  by (relation "measure (\<lambda>c. case c of
          Inl (dt, varname, entity, opt, s) \<Rightarrow>
            (if (case entity of None \<Rightarrow> ''ind'' | Some en \<Rightarrow> en) = ''ind'' then 3 else 1)
        | Inr (dt, varname, entity, opt, s) \<Rightarrow>
            (if (case entity of None \<Rightarrow> ''ind'' | Some en \<Rightarrow> en) = ''ind'' then 2 else 0))") auto

declare get_value.simps [simp del] get_value1.simps [simp del]

subsection \<open>Writing: \<open>set_value\<close> and \<open>inflate\<close>\<close>

text \<open>
  \<open>set_value\<close> raises before it writes, so an error leaves the table as it was. In the
  flat layout the values are cast (\<open>Series(..., dtype = dtyp)\<close>) and stored at the rows
  \<open>idxIndi\<close>; in the split layout they are stored uncast at the rows \<open>idxIndi\<close> of the
  individual table or \<open>idxUnit\<close> of the table of the entity.
\<close>

definition set_value :: "string \<Rightarrow> int list \<Rightarrow> string option \<Rightarrow> int option \<Rightarrow> int datatable
    \<Rightarrow> error + int datatable" where
  "set_value varname val entity opt dt =
     (let entity' = (case entity of None \<Rightarrow> ''ind'' | Some en \<Rightarrow> en);
          person = (case opt of None \<Rightarrow> 0 | Some p \<Rightarrow> p)
      in case index dt entity' of
           None \<Rightarrow> Inl (KeyError entity')
         | Some ei \<Rightarrow>
             (case roles ei person of
                None \<Rightarrow> Inl (RoleKeyError person)
              | Some idx \<Rightarrow>
                  (case map_of (column_by_name dt) varname of
                     None \<Rightarrow> Inl (ErrorGettingColumn varname)
                   | Some col \<Rightarrow>
                       (if num_table dt = 1 then
                          (case take_idx val (idxUnit idx) of
                             Inl e \<Rightarrow> Inl e
                           | Inr vals \<Rightarrow>
                               (case df_cols (table dt) varname of
                                  None \<Rightarrow> Inl (KeyError varname)
                                | Some c \<Rightarrow>
                                    (case put_idx c (idxIndi idx) (map (astype (col_dtype col)) vals) of
                                       Inl e \<Rightarrow> Inl e
                                     | Inr c' \<Rightarrow>
                                         Inr (dt\<lparr>table := (table dt)
                                                \<lparr>df_cols := (df_cols (table dt))(varname \<mapsto> c')\<rparr>\<rparr>))))
                        else if num_table dt = 3 then
                          (case table3 dt entity' of
                             None \<Rightarrow> Inl (KeyError entity')
                           | Some df \<Rightarrow>
                               (case df_cols df varname of
                                  None \<Rightarrow> Inl (KeyError varname)
                                | Some c \<Rightarrow>
                                    (case put_idx c (if entity' = ''ind'' then idxIndi idx
                                                     else idxUnit idx) val of
                                       Inl e \<Rightarrow> Inl e
                                     | Inr c' \<Rightarrow>
                                         Inr (dt\<lparr>table3 := (table3 dt)
                                                (entity' \<mapsto> df\<lparr>df_cols := (df_cols df)(varname \<mapsto> c')\<rparr>)\<rparr>))))
                        else Inr dt))))"

text \<open>
  \<open>self.table[varname] = inflator * self.table[varname]\<close>: the inflator is any scalar and
  the product is the one of the type of the cells. (Multiplying a column of integers by a
  float, numpy first reads the column as floats: \<open>cells_as\<close> below.)
\<close>

definition inflate :: "string \<Rightarrow> 'v::times \<Rightarrow> 'v datatable \<Rightarrow> error + 'v datatable" where
  "inflate varname inflator dt =
     (case df_cols (table dt) varname of
        None \<Rightarrow> Inl (KeyError varname)
      | Some c \<Rightarrow>
          Inr (dt\<lparr>table := (table dt)
                 \<lparr>df_cols := (df_cols (table dt))(varname \<mapsto> map (\<lambda>x. inflator * x) c)\<rparr>\<rparr>))"

subsection \<open>Building the index: \<open>gen_index\<close>\<close>

type_synonym index_map = "string \<rightharpoonup> entity_index"

definition leaf_index :: "nat \<Rightarrow> entity_index" where
  "leaf_index n =
     \<lparr>nb = Some n,
      roles = [0 \<mapsto> \<lparr>idxIndi = [0..<n], idxUnit = [0..<n]\<rparr>],
      cross = Map.empty\<rparr>"

definition empty_index :: entity_index where
  "empty_index = \<lparr>nb = None, roles = Map.empty, cross = Map.empty\<rparr>"

text \<open>An assignment \<open>dct[key] = ...\<close> through the dictionary \<open>dct = self.index[k]\<close>.\<close>

definition upd_index :: "index_map \<Rightarrow> string \<Rightarrow> (entity_index \<Rightarrow> entity_index) \<Rightarrow> index_map" where
  "upd_index ix k f = (case ix k of None \<Rightarrow> ix | Some ei \<Rightarrow> ix(k \<mapsto> f ei))"

text \<open>
  The \<open>try\<close> block of \<open>gen_index\<close>: the columns \<open>id<entity>\<close> and \<open>qui<entity>\<close> of the
  individual rows. For a \<open>num_table\<close> other than 1 and 3 nothing is read (\<open>None\<close>).
\<close>

definition frame_attr :: "int dataframe \<Rightarrow> string \<Rightarrow> error + int list" where
  "frame_attr df a = (case df_cols df a of None \<Rightarrow> Inl (AttributeError a) | Some c \<Rightarrow> Inr c)"

definition link_columns :: "int datatable \<Rightarrow> string \<Rightarrow> error + (int list \<times> int list) option" where
  "link_columns dt entity =
     (if num_table dt = 1 then
        (case frame_attr (table dt) (''id'' @ entity) of
           Inl e \<Rightarrow> Inl e
         | Inr idx \<Rightarrow>
             (case frame_attr (table dt) (''qui'' @ entity) of
                Inl e \<Rightarrow> Inl e
              | Inr qui \<Rightarrow> Inr (Some (idx, qui))))
      else if num_table dt = 3 then
        (case table3 dt ''ind'' of
           None \<Rightarrow> Inl (KeyError ''ind'')
         | Some df \<Rightarrow>
             (case frame_attr df (''id'' @ entity) of
                Inl e \<Rightarrow> Inl e
              | Inr idx \<Rightarrow>
                  (case frame_attr df (''qui'' @ entity) of
                     Inl e \<Rightarrow> Inl e
                   | Inr qui \<Rightarrow> Inr (Some (idx, qui)))))
      else Inr None)"

text \<open>
  The split layout compares the identifiers of the individual rows with the table of the
  entity: \<open>idxlist\<close> is replaced by the column \<open>id<entity>\<close> of that table when it has fewer
  rows than there are identifiers.
\<close>

definition reconcile :: "int datatable \<Rightarrow> string \<Rightarrow> int list \<Rightarrow> error + int list" where
  "reconcile dt entity idxlist =
     (case table3 dt entity of
        None \<Rightarrow> Inl (KeyError entity)
      | Some edf \<Rightarrow>
          (if length idxlist \<noteq> df_len edf then
             (case df_cols edf (''id'' @ entity) of
                None \<Rightarrow> Inl (KeyError (''id'' @ entity))
              | Some idxent \<Rightarrow> Inr (if length idxlist > df_len edf then idxent else idxlist))
           else Inr idxlist))"

text \<open>The loop \<open>for full, person in enum\<close>.\<close>

fun enum_loop :: "int list \<Rightarrow> int list \<Rightarrow> int list \<Rightarrow> string \<Rightarrow> (string \<times> int) list \<Rightarrow> index_map
    \<Rightarrow> (error \<times> index_map) + index_map" where
  "enum_loop idxlist idx qui entity [] ix = Inr ix"
| "enum_loop idxlist idx qui entity (member # enum) ix =
     (let person = snd member; idxI = argwhere qui person in
      case take_idx idx idxI of
        Inl e \<Rightarrow> Inl (e, ix)
      | Inr ids \<Rightarrow>
          enum_loop idxlist idx qui entity enum
            (upd_index ix entity (\<lambda>dct. dct\<lparr>roles := (roles dct)
               (person \<mapsto> \<lparr>idxIndi = idxI, idxUnit = searchsorted idxlist ids\<rparr>)\<rparr>)))"

text \<open>The body of the loop \<open>for entity in entities\<close>.\<close>

definition gen_index_entity :: "int datatable \<Rightarrow> string \<Rightarrow> index_map \<Rightarrow> (error \<times> index_map) + index_map" where
  "gen_index_entity dt entity ix =
     (case map_of (column_by_name dt) (''qui'' @ entity) of
        None \<Rightarrow> Inl (AttributeError ''enum'', ix)
      | Some qcol \<Rightarrow>
          (case link_columns dt entity of
             Inl e \<Rightarrow> Inl (e, ix)
           | Inr cols \<Rightarrow>
               (let ix1 = ix(entity \<mapsto> empty_index) in
                case cols of
                  None \<Rightarrow> Inl (UnboundLocalError ''idx'', ix1)
                | Some (idx, qui) \<Rightarrow>
                    (case (if num_table dt = 3 then
                             (case reconcile dt entity (np_unique idx) of
                                Inl e \<Rightarrow> Inl (e, ix1)
                              | Inr idxlist \<Rightarrow>
                                  (case ix1 ''ind'' of
                                     None \<Rightarrow> Inl (KeyError ''ind'', ix1)
                                   | Some li \<Rightarrow>
                                       Inr (idxlist, ix1(''ind'' \<mapsto> li\<lparr>cross := (cross li)
                                              (entity \<mapsto> searchsorted idxlist idx)\<rparr>))))
                           else Inr (np_unique idx, ix1)) of
                       Inl p \<Rightarrow> Inl p
                     | Inr (idxlist, ix2) \<Rightarrow>
                         (let ix3 = upd_index ix2 entity (\<lambda>dct. dct\<lparr>nb := Some (length idxlist)\<rparr>) in
                          case col_enum qcol of
                            None \<Rightarrow> Inl (TypeError, ix3)
                          | Some enum \<Rightarrow> enum_loop idxlist idx qui entity enum ix3)))))"

fun entity_loop :: "int datatable \<Rightarrow> string list \<Rightarrow> index_map \<Rightarrow> (error \<times> index_map) + index_map" where
  "entity_loop dt [] ix = Inr ix"
| "entity_loop dt (entity # entities) ix =
     (case gen_index_entity dt entity ix of
        Inl p \<Rightarrow> Inl p
      | Inr ix' \<Rightarrow> entity_loop dt entities ix')"

text \<open>The last loops of \<open>gen_index\<close> (split layout): the rows of the other entities.\<close>

fun super_loop :: "string \<Rightarrow> string list \<Rightarrow> index_map \<Rightarrow> (error \<times> index_map) + index_map" where
  "super_loop entity [] ix = Inr ix"
| "super_loop entity (super_entity # rest) ix =
     (if super_entity \<noteq> entity then
        (case ix entity of
           None \<Rightarrow> Inl (KeyError entity, ix)
         | Some ei \<Rightarrow>
             (case roles ei 0 of
                None \<Rightarrow> Inl (RoleKeyError 0, ix)
              | Some head \<Rightarrow>
                  (case ix ''ind'' of
                     None \<Rightarrow> Inl (KeyError ''ind'', ix)
                   | Some li \<Rightarrow>
                       (case cross li super_entity of
                          None \<Rightarrow> Inl (KeyError super_entity, ix)
                        | Some a \<Rightarrow>
                            (case take_idx a (idxIndi head) of
                               Inl e \<Rightarrow> Inl (e, ix)
                             | Inr v \<Rightarrow>
                                 super_loop entity rest
                                   (upd_index ix entity
                                      (\<lambda>dct. dct\<lparr>cross := (cross dct)(super_entity \<mapsto> v)\<rparr>)))))))
      else super_loop entity rest ix)"

fun cross_loop :: "string list \<Rightarrow> string list \<Rightarrow> index_map \<Rightarrow> (error \<times> index_map) + index_map" where
  "cross_loop entities [] ix = Inr ix"
| "cross_loop entities (entity # rest) ix =
     (case super_loop entity entities ix of
        Inl p \<Rightarrow> Inl p
      | Inr ix' \<Rightarrow> cross_loop entities rest ix')"

definition gen_index_map :: "int datatable \<Rightarrow> string list \<Rightarrow> (error \<times> index_map) + index_map" where
  "gen_index_map dt entities =
     (case entity_loop dt entities [''ind'' \<mapsto> leaf_index (nrows dt)] of
        Inl p \<Rightarrow> Inl p
      | Inr ix \<Rightarrow> (if num_table dt = 3 then cross_loop entities entities ix else Inr ix))"

definition gen_index :: "string list \<Rightarrow> int datatable \<Rightarrow> (error \<times> int datatable) + int datatable" where
  "gen_index entities dt =
     (case gen_index_map dt entities of
        Inl (e, ix) \<Rightarrow> Inl (e, dt\<lparr>index := ix\<rparr>)
      | Inr ix \<Rightarrow> Inr (dt\<lparr>index := ix\<rparr>))"

subsection \<open>Construction: \<open>__init__\<close> and \<open>populate_from_survey_data\<close>\<close>

definition empty_frame :: "int dataframe" where
  "empty_frame = \<lparr>df_len = 0, df_cols = Map.empty\<rparr>"

definition DataTable :: "(string \<times> column) list \<Rightarrow> nat \<Rightarrow> int datatable" where
  "DataTable cbn nt =
     \<lparr>column_by_name = cbn,
      num_table = nt,
      table = empty_frame,
      table3 = [''ind'' \<mapsto> empty_frame, ''foy'' \<mapsto> empty_frame, ''men'' \<mapsto> empty_frame],
      index = Map.empty,
      nrows = 0\<rparr>"

text \<open>\<open>self.list_entities = ['ind'] + model.ENTITIES_INDEX\<close>.\<close>

definition list_entities :: "string list \<Rightarrow> string list" where
  "list_entities ENTITIES_INDEX = ''ind'' # ENTITIES_INDEX"

text \<open>
  The survey data given in memory: a DataFrame, or a dictionary of DataFrames. (A file
  name is read from disk and is outside the model.)
\<close>

datatype survey_data = Frame "int dataframe" | Frames "string \<rightharpoonup> int dataframe"

text \<open>\<open>assert isinstance(fname[entity], DataFrame); self.table3[entity] = fname[entity]\<close> for
  every entity; on a DataFrame \<open>fname[entity]\<close> is a column, not a DataFrame, or a \<open>KeyError\<close>.\<close>

fun load_tables :: "survey_data \<Rightarrow> string list \<Rightarrow> (string \<rightharpoonup> int dataframe)
    \<Rightarrow> (error \<times> (string \<rightharpoonup> int dataframe)) + (string \<rightharpoonup> int dataframe)" where
  "load_tables fname [] t3 = Inr t3"
| "load_tables fname (entity # rest) t3 =
     (case fname of
        Frame df \<Rightarrow>
          (case df_cols df entity of
             None \<Rightarrow> Inl (KeyError entity, t3)
           | Some c \<Rightarrow> Inl (AssertionError, t3))
      | Frames d \<Rightarrow>
          (case d entity of
             None \<Rightarrow> Inl (KeyError entity, t3)
           | Some edf \<Rightarrow> load_tables fname rest (t3(entity \<mapsto> edf))))"

definition load_survey :: "string list \<Rightarrow> survey_data \<Rightarrow> int datatable \<Rightarrow> (error \<times> int datatable) + int datatable" where
  "load_survey ENTITIES_INDEX fname dt =
     (if num_table dt = 1 then
        (case fname of
           Frame df \<Rightarrow> Inr (dt\<lparr>table := df\<rparr>)
         | Frames d \<Rightarrow> Inl (NotADataFrame, dt))
      else if num_table dt = 3 then
        (case load_tables fname (list_entities ENTITIES_INDEX) (table3 dt) of
           Inl (e, t3) \<Rightarrow> Inl (e, dt\<lparr>table3 := t3\<rparr>)
         | Inr t3 \<Rightarrow> Inr (dt\<lparr>table3 := t3\<rparr>))
      else Inr dt)"

text \<open>
  One registered column: when the table does not have it, it is recorded as missing and
  filled with the default; then the column is cast to its scalar type.
\<close>

definition fill_column :: "column \<Rightarrow> string list \<times> int dataframe \<Rightarrow> string list \<times> int dataframe" where
  "fill_column col s =
     (case s of (missing_col, df) \<Rightarrow>
        (case df_cols df (col_name col) of
           None \<Rightarrow>
             (missing_col @ [col_name col],
              df\<lparr>df_cols := (df_cols df)(col_name col \<mapsto>
                    map (astype (col_dtype col)) (replicate (df_len df) (col_default col)))\<rparr>)
         | Some c \<Rightarrow>
             (missing_col,
              df\<lparr>df_cols := (df_cols df)(col_name col \<mapsto> map (astype (col_dtype col)) c)\<rparr>)))"

fun fill_tables :: "(string \<times> column) list \<Rightarrow> string list \<Rightarrow> string list \<times> (string \<rightharpoonup> int dataframe)
    \<Rightarrow> (error \<times> (string \<rightharpoonup> int dataframe)) + (string list \<times> (string \<rightharpoonup> int dataframe))" where
  "fill_tables cbn [] s = Inr s"
| "fill_tables cbn (ent # ents) s =
     (case s of (missing_col, t3) \<Rightarrow>
        (case t3 ent of
           None \<Rightarrow> Inl (KeyError ent, t3)
         | Some df \<Rightarrow>
             (case fold fill_column (filter (\<lambda>c. col_entity c = ent) (map snd cbn)) (missing_col, df) of
                (missing_col', df') \<Rightarrow> fill_tables cbn ents (missing_col', t3(ent \<mapsto> df')))))"

text \<open>
  The part of \<open>populate_from_survey_data\<close> between loading and checking. The flat table
  keeps only the registered columns. (\<open>missing_col.sort()\<close> changes no membership.)
\<close>

definition fill_missing :: "string list \<Rightarrow> int datatable \<Rightarrow> (error \<times> int datatable) + (string list \<times> int datatable)" where
  "fill_missing ENTITIES_INDEX dt =
     (if num_table dt = 1 then
        (case fold fill_column (map snd (column_by_name dt)) ([], table dt) of
           (missing_col, df) \<Rightarrow>
             Inr (missing_col,
                  dt\<lparr>nrows := df_len (table dt),
                     table := df\<lparr>df_cols := df_cols df |` set (map fst (column_by_name dt))\<rparr>\<rparr>))
      else if num_table dt = 3 then
        (case table3 dt ''ind'' of
           None \<Rightarrow> Inl (KeyError ''ind'', dt)
         | Some idf \<Rightarrow>
             (case fill_tables (column_by_name dt) (list_entities ENTITIES_INDEX) ([], table3 dt) of
                Inl (e, t3) \<Rightarrow> Inl (e, dt\<lparr>nrows := df_len idf, table3 := t3\<rparr>)
              | Inr (missing_col, t3) \<Rightarrow> Inr (missing_col, dt\<lparr>nrows := df_len idf, table3 := t3\<rparr>)))
      else Inr ([], dt))"

text \<open>The loop \<open>for var in INDEX\<close> that raises \<open>Exception('Survey data needs variable ...')\<close>.\<close>

fun check_linking :: "string list \<Rightarrow> string list \<Rightarrow> error option" where
  "check_linking [] missing_col = None"
| "check_linking (var # INDEX) missing_col =
     (if ''id'' @ var \<in> set missing_col then Some (SurveyDataNeedsVariable (''id'' @ var))
      else if ''qui'' @ var \<in> set missing_col then Some (SurveyDataNeedsVariable (''qui'' @ var))
      else check_linking INDEX missing_col)"

definition populate_from_survey_data :: "string list \<Rightarrow> survey_data \<Rightarrow> int datatable
    \<Rightarrow> (error \<times> int datatable) + int datatable" where
  "populate_from_survey_data ENTITIES_INDEX fname dt =
     (case load_survey ENTITIES_INDEX fname dt of
        Inl p \<Rightarrow> Inl p
      | Inr dt1 \<Rightarrow>
          (case fill_missing ENTITIES_INDEX dt1 of
             Inl p \<Rightarrow> Inl p
           | Inr (missing_col, dt2) \<Rightarrow>
               (case check_linking ENTITIES_INDEX missing_col of
                  Some e \<Rightarrow> Inl (e, dt2)
                | None \<Rightarrow> gen_index ENTITIES_INDEX dt2)))"

subsection \<open>\<open>propagate_to_members\<close>\<close>

fun propagate_loop :: "string \<Rightarrow> string \<Rightarrow> result \<Rightarrow> nat list \<Rightarrow> (string \<times> int) list \<Rightarrow> int datatable
    \<Rightarrow> (error \<times> int datatable) + int datatable" where
  "propagate_loop varname from_ent v head [] dt = Inr dt"
| "propagate_loop varname from_ent v head (member # enum) dt =
     (case v of
        Arr val \<Rightarrow>
          (case take_idx val head of
             Inl e \<Rightarrow> Inl (e, dt)
           | Inr value_member \<Rightarrow>
               (case index dt from_ent of
                  None \<Rightarrow> Inl (KeyError from_ent, dt)
                | Some ei \<Rightarrow>
                    (case roles ei (snd member) of
                       None \<Rightarrow> Inl (RoleKeyError (snd member), dt)
                     | Some idx \<Rightarrow>
                         (case take_idx value_member (idxUnit idx) of
                            Inl e \<Rightarrow> Inl (e, dt)
                          | Inr value_member' \<Rightarrow>
                              (if varname \<noteq> ''wprm'' then
                                 (case set_value varname value_member' (Some from_ent)
                                         (Some (snd member)) dt of
                                    Inl e \<Rightarrow> Inl (e, dt)
                                  | Inr dt' \<Rightarrow> propagate_loop varname from_ent v head enum dt')
                               else propagate_loop varname from_ent v head enum dt)))))
      | Dict d \<Rightarrow> Inl (TypeError, dt)
      | Scalar c \<Rightarrow> Inl (TypeError, dt)
      | NoneResult \<Rightarrow> Inl (TypeError, dt))"

definition propagate_to_members :: "string \<Rightarrow> string \<Rightarrow> int datatable
    \<Rightarrow> (error \<times> int datatable) + (result \<times> int datatable)" where
  "propagate_to_members varname entity dt =
     (case map_of (column_by_name dt) varname of
        None \<Rightarrow> Inl (AttributeError ''entity'', dt)
      | Some col \<Rightarrow>
          (let from_ent = col_entity col in
           case get_value dt varname None None False of
             Inl e \<Rightarrow> Inl (e, dt)
           | Inr v \<Rightarrow>
               (if num_table dt = 1 then
                  (case role_enum dt from_ent of
                     Inl e \<Rightarrow> Inl (e, dt)
                   | Inr enum \<Rightarrow>
                       (case index dt from_ent of
                          None \<Rightarrow> Inl (KeyError from_ent, dt)
                        | Some ei \<Rightarrow>
                            (case roles ei 0 of
                               None \<Rightarrow> Inl (RoleKeyError 0, dt)
                             | Some idx \<Rightarrow>
                                 (case propagate_loop varname from_ent v (idxIndi idx) enum dt of
                                    Inl p \<Rightarrow> Inl p
                                  | Inr dt' \<Rightarrow> Inr (NoneResult, dt')))))
                else if num_table dt = 3 then
                  (case get_value3 dt varname (Some entity) (Some [0..9]) False of
                     Inl e \<Rightarrow> Inl (e, dt)
                   | Inr r \<Rightarrow> Inr (r, dt))
                else Inr (NoneResult, dt))))"

subsection \<open>Notions used in the statements\<close>

text \<open>The object after a call that may have raised.\<close>

definition outcome_state :: "(error \<times> 's) + 's \<Rightarrow> 's" where
  "outcome_state r = (case r of Inl p \<Rightarrow> snd p | Inr s \<Rightarrow> s)"

text \<open>
  The entry of the leaf entity is the identity join on \<open>n\<close> rows: \<open>index['ind']['nb'] = n\<close>
  and \<open>index['ind'][0]\<close> pairs the individual rows \<open>0 .. n-1\<close> with the unit rows \<open>0 .. n-1\<close>.
\<close>

definition leaf_entry :: "nat \<Rightarrow> index_map \<Rightarrow> bool" where
  "leaf_entry n ix =
     (case ix ''ind'' of
        None \<Rightarrow> False
      | Some li \<Rightarrow> nb li = Some n \<and> roles li 0 = Some \<lparr>idxIndi = [0..<n], idxUnit = [0..<n]\<rparr>)"

text \<open>
  A join pair is well formed for \<open>m\<close> individual rows and \<open>n\<close> rows of the entity: both
  arrays have one length and stay in range.
\<close>

definition wf_role :: "nat \<Rightarrow> nat \<Rightarrow> role_index \<Rightarrow> bool" where
  "wf_role m n idx =
     (length (idxIndi idx) = length (idxUnit idx)
      \<and> list_all (\<lambda>i. i < m) (idxIndi idx)
      \<and> list_all (\<lambda>j. j < n) (idxUnit idx))"

text \<open>
  The join pair of a role, as step 5 of the index builder describes it: the individual rows
  that play the role, and for each of them the position of its identifier in the list of
  identifiers.
\<close>

definition join_pair :: "int list \<Rightarrow> int list \<Rightarrow> int list \<Rightarrow> int \<Rightarrow> role_index" where
  "join_pair idxlist idx qui person =
     \<lparr>idxIndi = argwhere qui person,
      idxUnit = searchsorted idxlist (map (\<lambda>i. idx ! i) (argwhere qui person))\<rparr>"

text \<open>
  What the split layout holds for an entity: the linking columns of the individual rows
  (empty when absent), the enumeration of the roles, and the list of identifiers that
  \<open>gen_index\<close> is said to use: the identifiers derived from the individual rows, or the
  column \<open>id<entity>\<close> of the table of the entity when that table has fewer rows.
\<close>

definition link_idx :: "int datatable \<Rightarrow> string \<Rightarrow> int list" where
  "link_idx dt entity =
     (case table3 dt ''ind'' of
        None \<Rightarrow> []
      | Some idf \<Rightarrow> (case df_cols idf (''id'' @ entity) of None \<Rightarrow> [] | Some idx \<Rightarrow> idx))"

definition link_qui :: "int datatable \<Rightarrow> string \<Rightarrow> int list" where
  "link_qui dt entity =
     (case table3 dt ''ind'' of
        None \<Rightarrow> []
      | Some idf \<Rightarrow> (case df_cols idf (''qui'' @ entity) of None \<Rightarrow> [] | Some qui \<Rightarrow> qui))"

definition enum_of :: "int datatable \<Rightarrow> string \<Rightarrow> (string \<times> int) list" where
  "enum_of dt entity =
     (case map_of (column_by_name dt) (''qui'' @ entity) of
        None \<Rightarrow> []
      | Some qcol \<Rightarrow> (case col_enum qcol of None \<Rightarrow> [] | Some enum \<Rightarrow> enum))"

definition smaller_ids :: "int datatable \<Rightarrow> string \<Rightarrow> int list" where
  "smaller_ids dt entity =
     (case table3 dt entity of
        None \<Rightarrow> np_unique (link_idx dt entity)
      | Some edf \<Rightarrow>
          (case df_cols edf (''id'' @ entity) of
             None \<Rightarrow> np_unique (link_idx dt entity)
           | Some idxent \<Rightarrow>
               (if df_len edf < length (np_unique (link_idx dt entity)) then idxent
                else np_unique (link_idx dt entity))))"

text \<open>The entry of an entity before the rows of the other entities are added to it.\<close>

definition built_entry :: "int datatable \<Rightarrow> string \<Rightarrow> entity_index" where
  "built_entry dt entity =
     \<lparr>nb = Some (length (smaller_ids dt entity)),
      roles = (\<lambda>person. if person \<in> snd ` set (enum_of dt entity)
                 then Some (join_pair (smaller_ids dt entity) (link_idx dt entity)
                              (link_qui dt entity) person)
                 else None),
      cross = Map.empty\<rparr>"

text \<open>
  The split layout is ready for an entity: its role column is registered with an
  enumeration, the table of individuals has its two linking columns with one value for
  each row, and its own table is there; when the row count of that table is not the number
  of distinct identifiers, the table has the column \<open>id<entity>\<close> that the mismatch branch
  reads.
\<close>

definition split_entity_ok :: "int datatable \<Rightarrow> string \<Rightarrow> bool" where
  "split_entity_ok dt entity =
     (case map_of (column_by_name dt) (''qui'' @ entity) of
        None \<Rightarrow> False
      | Some qcol \<Rightarrow>
          (case col_enum qcol of
             None \<Rightarrow> False
           | Some enum \<Rightarrow>
               (case table3 dt ''ind'' of
                  None \<Rightarrow> False
                | Some idf \<Rightarrow>
                       (case df_cols idf (''id'' @ entity) of
                          None \<Rightarrow> False
                        | Some idx \<Rightarrow> length idx = df_len idf)
                       \<and> (case df_cols idf (''qui'' @ entity) of
                             None \<Rightarrow> False
                           | Some qui \<Rightarrow> length qui = df_len idf))
               \<and> (case table3 dt entity of
                     None \<Rightarrow> False
                   | Some edf \<Rightarrow>
                       length (np_unique (link_idx dt entity)) = df_len edf
                       \<or> df_cols edf (''id'' @ entity) \<noteq> None)))"

text \<open>
  A table of integers read in another type of numbers, cell by cell (numpy's promotion of
  an integer column that meets a float).
\<close>

definition frame_as :: "(int \<Rightarrow> 'v) \<Rightarrow> int dataframe \<Rightarrow> 'v dataframe" where
  "frame_as f df = \<lparr>df_len = df_len df, df_cols = map_option (map f) \<circ> df_cols df\<rparr>"

definition cells_as :: "(int \<Rightarrow> 'v) \<Rightarrow> int datatable \<Rightarrow> 'v datatable" where
  "cells_as f dt =
     \<lparr>column_by_name = column_by_name dt,
      num_table = num_table dt,
      table = frame_as f (table dt),
      table3 = map_option (frame_as f) \<circ> table3 dt,
      index = index dt,
      nrows = nrows dt\<rparr>"

text \<open>
  The survey data given to a table of layout \<open>nt\<close> have the shape the layout asks for, and
  their table of individuals lacks the column \<open>c\<close>.
\<close>

definition input_lacks :: "nat \<Rightarrow> string list \<Rightarrow> survey_data \<Rightarrow> string \<Rightarrow> bool" where
  "input_lacks nt ENTITIES_INDEX fname c =
     (case fname of
        Frame df \<Rightarrow> nt = 1 \<and> df_cols df c = None
      | Frames d \<Rightarrow>
          nt = 3 \<and> list_all (\<lambda>k. d k \<noteq> None) (list_entities ENTITIES_INDEX)
          \<and> (case d ''ind'' of None \<Rightarrow> False | Some idf \<Rightarrow> df_cols idf c = None))"

text \<open>
  The column \<open>c\<close> is registered and the survey data do not have it where the registry puts
  it: in the flat table, or in the table of the entity of a column registered under that
  name. These are the columns that \<open>populate_from_survey_data\<close> records in \<open>missing_col\<close>.
\<close>

definition registered_missing :: "(string \<times> column) list \<Rightarrow> nat \<Rightarrow> string list \<Rightarrow> survey_data
    \<Rightarrow> string \<Rightarrow> bool" where
  "registered_missing cbn nt ENTITIES_INDEX fname c =
     (case fname of
        Frame df \<Rightarrow>
          nt = 1 \<and> list_ex (\<lambda>col. col_name col = c) (map snd cbn) \<and> df_cols df c = None
      | Frames d \<Rightarrow>
          nt = 3
          \<and> list_ex (\<lambda>col. col_name col = c
                         \<and> col_entity col \<in> set (list_entities ENTITIES_INDEX)
                         \<and> (case d (col_entity col) of
                               None \<Rightarrow> False
                             | Some t \<Rightarrow> df_cols t c = None))
                (map snd cbn))"

text \<open>The linking columns of the entities of \<open>ENTITIES_INDEX\<close>.\<close>

definition linking_columns :: "string list \<Rightarrow> string list" where
  "linking_columns ENTITIES_INDEX =
     concat (map (\<lambda>var. [''id'' @ var, ''qui'' @ var]) ENTITIES_INDEX)"

section \<open>Example tables\<close>

text \<open>
  Three individuals in two households: households \<open>[1, 1, 2]\<close>, roles \<open>[0, 1, 0]\<close> (head,
  spouse, head) and an individual variable \<open>X = [10, 20, 30]\<close> with default \<open>d\<close>. Household 2
  has no spouse.
\<close>

definition ex_registry :: "int \<Rightarrow> (string \<times> column) list" where
  "ex_registry d =
     [(''idmen'', \<lparr>col_name = ''idmen'', col_default = 0, col_dtype = IntT, col_entity = ''ind'',
                  col_enum = None\<rparr>),
      (''quimen'', \<lparr>col_name = ''quimen'', col_default = 0, col_dtype = IntT, col_entity = ''ind'',
                   col_enum = Some [(''pref'', 0), (''cref'', 1)]\<rparr>),
      (''X'', \<lparr>col_name = ''X'', col_default = d, col_dtype = IntT, col_entity = ''ind'',
              col_enum = None\<rparr>)]"

definition ex_frame :: "int dataframe" where
  "ex_frame = \<lparr>df_len = 3,
     df_cols = [''idmen'' \<mapsto> [1, 1, 2], ''quimen'' \<mapsto> [0, 1, 0], ''X'' \<mapsto> [10, 20, 30]]\<rparr>"

definition ex_men_index :: entity_index where
  "ex_men_index = \<lparr>nb = Some 2,
      roles = [0 \<mapsto> \<lparr>idxIndi = [0, 2], idxUnit = [0, 1]\<rparr>, 1 \<mapsto> \<lparr>idxIndi = [1], idxUnit = [0]\<rparr>],
      cross = Map.empty\<rparr>"

text \<open>The flat table that \<open>populate_from_survey_data\<close> builds from \<open>ex_frame\<close>.\<close>

definition ex_flat :: "int \<Rightarrow> int datatable" where
  "ex_flat d = \<lparr>column_by_name = ex_registry d, num_table = 1, table = ex_frame,
      table3 = [''ind'' \<mapsto> empty_frame, ''foy'' \<mapsto> empty_frame, ''men'' \<mapsto> empty_frame],
      index = [''ind'' \<mapsto> leaf_index 3, ''men'' \<mapsto> ex_men_index], nrows = 3\<rparr>"

text \<open>
  The same individuals in the split layout, each one a tax unit (\<open>foy\<close>) of their own, and
  a variable \<open>R = [5, 7, 9]\<close> owned by the tax units.
\<close>

definition ex_registry3 :: "int \<Rightarrow> (string \<times> column) list" where
  "ex_registry3 d =
     [(''idmen'', \<lparr>col_name = ''idmen'', col_default = 0, col_dtype = IntT, col_entity = ''ind'',
                  col_enum = None\<rparr>),
      (''quimen'', \<lparr>col_name = ''quimen'', col_default = 0, col_dtype = IntT, col_entity = ''ind'',
                   col_enum = Some [(''pref'', 0), (''cref'', 1)]\<rparr>),
      (''idfoy'', \<lparr>col_name = ''idfoy'', col_default = 0, col_dtype = IntT, col_entity = ''ind'',
                  col_enum = None\<rparr>),
      (''quifoy'', \<lparr>col_name = ''quifoy'', col_default = 0, col_dtype = IntT, col_entity = ''ind'',
                   col_enum = Some [(''vous'', 0)]\<rparr>),
      (''X'', \<lparr>col_name = ''X'', col_default = d, col_dtype = IntT, col_entity = ''ind'',
              col_enum = None\<rparr>),
      (''R'', \<lparr>col_name = ''R'', col_default = 0, col_dtype = IntT, col_entity = ''foy'',
              col_enum = None\<rparr>)]"

definition ex_ind_frame :: "int dataframe" where
  "ex_ind_frame = \<lparr>df_len = 3,
     df_cols = [''idmen'' \<mapsto> [1, 1, 2], ''quimen'' \<mapsto> [0, 1, 0],
                ''idfoy'' \<mapsto> [1, 2, 3], ''quifoy'' \<mapsto> [0, 0, 0], ''X'' \<mapsto> [10, 20, 30]]\<rparr>"

definition ex_men_frame :: "int dataframe" where
  "ex_men_frame = \<lparr>df_len = 2, df_cols = [''idmen'' \<mapsto> [1, 2]]\<rparr>"

definition ex_foy_frame :: "int dataframe" where
  "ex_foy_frame = \<lparr>df_len = 3, df_cols = [''idfoy'' \<mapsto> [1, 2, 3], ''R'' \<mapsto> [5, 7, 9]]\<rparr>"

definition ex_frames :: "string \<rightharpoonup> int dataframe" where
  "ex_frames = [''ind'' \<mapsto> ex_ind_frame, ''men'' \<mapsto> ex_men_frame, ''foy'' \<mapsto> ex_foy_frame]"

definition ex_index3 :: index_map where
  "ex_index3 =
     [''ind'' \<mapsto> \<lparr>nb = Some 3,
                  roles = [0 \<mapsto> \<lparr>idxIndi = [0, 1, 2], idxUnit = [0, 1, 2]\<rparr>],
                  cross = [''men'' \<mapsto> [0, 0, 1], ''foy'' \<mapsto> [0, 1, 2]]\<rparr>,
      ''men'' \<mapsto> \<lparr>nb = Some 2,
                  roles = [0 \<mapsto> \<lparr>idxIndi = [0, 2], idxUnit = [0, 1]\<rparr>,
                           1 \<mapsto> \<lparr>idxIndi = [1], idxUnit = [0]\<rparr>],
                  cross = [''foy'' \<mapsto> [0, 2]]\<rparr>,
      ''foy'' \<mapsto> \<lparr>nb = Some 3,
                  roles = [0 \<mapsto> \<lparr>idxIndi = [0, 1, 2], idxUnit = [0, 1, 2]\<rparr>],
                  cross = [''men'' \<mapsto> [0, 0, 1]]\<rparr>]"

text \<open>The split table that \<open>populate_from_survey_data\<close> builds from \<open>ex_frames\<close>.\<close>

definition ex_split :: "int \<Rightarrow> int datatable" where
  "ex_split d = \<lparr>column_by_name = ex_registry3 d, num_table = 3, table = empty_frame,
      table3 = ex_frames, index = ex_index3, nrows = 3\<rparr>"

text \<open>
  A flat table with a variable named \<open>ppe_coef\<close>, owned by the entity \<open>owner\<close>; the heads
  of the two households carry the values \<open>4\<close> and \<open>6\<close>.
\<close>

definition ex_ppe_registry :: "string \<Rightarrow> (string \<times> column) list" where
  "ex_ppe_registry owner =
     [(''idmen'', \<lparr>col_name = ''idmen'', col_default = 0, col_dtype = IntT, col_entity = ''ind'',
                  col_enum = None\<rparr>),
      (''quimen'', \<lparr>col_name = ''quimen'', col_default = 0, col_dtype = IntT, col_entity = ''ind'',
                   col_enum = Some [(''pref'', 0), (''cref'', 1)]\<rparr>),
      (''ppe_coef'', \<lparr>col_name = ''ppe_coef'', col_default = 0, col_dtype = IntT,
                     col_entity = owner, col_enum = None\<rparr>)]"

definition ex_ppe_frame :: "int dataframe" where
  "ex_ppe_frame = \<lparr>df_len = 3,
     df_cols = [''idmen'' \<mapsto> [1, 1, 2], ''quimen'' \<mapsto> [0, 1, 0], ''ppe_coef'' \<mapsto> [4, 0, 6]]\<rparr>"

definition ex_ppe_flat :: "string \<Rightarrow> int datatable" where
  "ex_ppe_flat owner = \<lparr>column_by_name = ex_ppe_registry owner, num_table = 1, table = ex_ppe_frame,
      table3 = [''ind'' \<mapsto> empty_frame, ''foy'' \<mapsto> empty_frame, ''men'' \<mapsto> empty_frame],
      index = [''ind'' \<mapsto> leaf_index 3, ''men'' \<mapsto> ex_men_index], nrows = 3\<rparr>"

text \<open>
  The split example with another table for the households, before \<open>gen_index\<close> has run.
\<close>

definition ex_frames_men :: "int dataframe \<Rightarrow> (string \<rightharpoonup> int dataframe)" where
  "ex_frames_men mf = [''ind'' \<mapsto> ex_ind_frame, ''men'' \<mapsto> mf, ''foy'' \<mapsto> ex_foy_frame]"

definition ex_loaded :: "int dataframe \<Rightarrow> int datatable" where
  "ex_loaded mf = \<lparr>column_by_name = ex_registry3 0, num_table = 3, table = empty_frame,
      table3 = ex_frames_men mf, index = Map.empty, nrows = 3\<rparr>"

text \<open>The same with another table for the tax units too.\<close>

definition ex_loaded_foy :: "int dataframe \<Rightarrow> int dataframe \<Rightarrow> int datatable" where
  "ex_loaded_foy mf ff = (ex_loaded mf)\<lparr>table3 := (ex_frames_men mf)(''foy'' \<mapsto> ff)\<rparr>"

text \<open>
  A registry without the declaration of the column \<open>c\<close>, and the tables of the split
  example with the column \<open>c\<close> taken out of the table of individuals.
\<close>

definition registry_without :: "string \<Rightarrow> (string \<times> column) list \<Rightarrow> (string \<times> column) list" where
  "registry_without c cbn = filter (\<lambda>p. fst p \<noteq> c) cbn"

definition ex_frames_lacking :: "string \<Rightarrow> string \<rightharpoonup> int dataframe" where
  "ex_frames_lacking c =
     ex_frames(''ind'' \<mapsto> ex_ind_frame\<lparr>df_cols := (df_cols ex_ind_frame)(c := None)\<rparr>)"

section \<open>Properties\<close>

text \<open>The two cases of the bisection, for evaluation.\<close>

lemma bisect_left_step:
  "imin < imax \<Longrightarrow> bisect_left a v imin imax =
     (if a ! (imin + (imax - imin) div 2) < v
      then bisect_left a v (Suc (imin + (imax - imin) div 2)) imax
      else bisect_left a v imin (imin + (imax - imin) div 2))"
  by (subst bisect_left.simps) (simp add: Let_def)

lemma bisect_left_stop: "\<not> imin < imax \<Longrightarrow> bisect_left a v imin imax = imin"
  by (subst bisect_left.simps) simp

lemma div_two_eval:
  "0 div Suc (Suc 0) = 0" "Suc 0 div Suc (Suc 0) = 0"
  "Suc (Suc n) div Suc (Suc 0) = Suc (n div Suc (Suc 0))"
  by (simp_all add: numeral_2_eq_2 [symmetric])

lemmas eval_defs =
  gen_index_def gen_index_map_def gen_index_entity_def link_columns_def frame_attr_def
  np_unique_def argwhere_def take_idx_def searchsorted_def searchsorted1_def bisect_left_step bisect_left_stop
  div_two_eval
  upd_index_def empty_index_def leaf_index_def index_nb_def role_array_def put_idx_def
  return_out_def sum_out_def populate_from_survey_data_def load_survey_def fill_missing_def
  fill_column_def DataTable_def list_entities_def reconcile_def empty_frame_def
  get_value3_def get_value3_case1_def get_value3_case2_def get_value3_case3_def
  group_sums_def role_enum_def set_value_def inflate_def get_value.simps get_value1.simps

lemmas ex_defs =
  ex_registry_def ex_frame_def ex_men_index_def ex_flat_def ex_registry3_def ex_ind_frame_def
  ex_men_frame_def ex_foy_frame_def ex_frames_def ex_index3_def ex_split_def
  ex_ppe_registry_def ex_ppe_frame_def ex_ppe_flat_def ex_frames_men_def ex_loaded_def

subsection \<open>Array lemmas\<close>

text \<open>
  On an ascending list the bisection returns the number of elements below the key, which
  is the position numpy documents; \<open>np.unique\<close> gives such a list.
\<close>

lemma sorted_below_iff:
  assumes "sorted a" and "i < length a"
  shows "(a ! i < v) = (i < length (takeWhile (\<lambda>x. x < v) a))"
proof
  assume lt: "a ! i < v"
  show "i < length (takeWhile (\<lambda>x. x < v) a)"
  proof (rule ccontr)
    assume "\<not> i < length (takeWhile (\<lambda>x. x < v) a)"
    then have k: "length (takeWhile (\<lambda>x. x < v) a) \<le> i"
      by simp
    with assms(2) have "length (takeWhile (\<lambda>x. x < v) a) < length a"
      by simp
    then have "\<not> a ! length (takeWhile (\<lambda>x. x < v) a) < v"
      by (rule nth_length_takeWhile)
    moreover from assms k have "a ! length (takeWhile (\<lambda>x. x < v) a) \<le> a ! i"
      by (simp add: sorted_iff_nth_mono)
    ultimately show False
      using lt by simp
  qed
next
  assume i: "i < length (takeWhile (\<lambda>x. x < v) a)"
  then have "takeWhile (\<lambda>x. x < v) a ! i \<in> set (takeWhile (\<lambda>x. x < v) a)"
    by (rule nth_mem)
  then have "takeWhile (\<lambda>x. x < v) a ! i < v"
    by (rule set_takeWhileD [THEN conjunct2])
  with i show "a ! i < v"
    by (simp add: takeWhile_nth)
qed

lemma bisect_left_sorted:
  "sorted a \<Longrightarrow> imin \<le> length (takeWhile (\<lambda>x. x < v) a)
     \<Longrightarrow> length (takeWhile (\<lambda>x. x < v) a) \<le> imax \<Longrightarrow> imax \<le> length a
     \<Longrightarrow> bisect_left a v imin imax = length (takeWhile (\<lambda>x. x < v) a)"
proof (induction a v imin imax rule: bisect_left.induct)
  case (1 a v imin imax)
  let ?k = "length (takeWhile (\<lambda>x. x < v) a)"
  let ?mid = "imin + (imax - imin) div 2"
  show ?case
  proof (cases "imin < imax")
    case False
    with "1.prems" show ?thesis
      by (simp add: bisect_left_stop)
  next
    case True
    then have mid: "imin \<le> ?mid" "?mid < imax"
      by simp_all
    with "1.prems"(4) have len: "?mid < length a"
      by simp
    show ?thesis
    proof (cases "a ! ?mid < v")
      case lt: True
      with sorted_below_iff [OF "1.prems"(1) len, of v] have "?mid + 1 \<le> ?k"
        by simp
      with "1.IH"(1) [OF True refl lt "1.prems"(1) _ "1.prems"(3,4)] True lt show ?thesis
        by (simp add: bisect_left_step)
    next
      case ge: False
      with sorted_below_iff [OF "1.prems"(1) len, of v] have "?k \<le> ?mid"
        by simp
      moreover from mid "1.prems"(4) have "?mid \<le> length a"
        by simp
      ultimately show ?thesis
        using "1.IH"(2) [OF True refl ge "1.prems"(1,2)] True ge
        by (simp add: bisect_left_step)
    qed
  qed
qed

lemma searchsorted1_sorted:
  "sorted a \<Longrightarrow> searchsorted1 a v = length (takeWhile (\<lambda>x. x < v) a)"
  by (simp add: searchsorted1_def bisect_left_sorted length_takeWhile_le)

lemma searchsorted1_np_unique:
  "searchsorted1 (np_unique xs) v = length (takeWhile (\<lambda>x. x < v) (np_unique xs))"
  by (rule searchsorted1_sorted) (simp add: np_unique_def)

lemma length_put_seq [simp]: "length (put_seq xs ps) = length xs"
  by (induction ps arbitrary: xs) auto

lemma put_seq_notin: "i \<notin> fst ` set ps \<Longrightarrow> put_seq xs ps ! i = xs ! i"
  by (induction ps arbitrary: xs) auto


lemma set_np_unique [simp]: "set (np_unique xs) = set xs"
  by (simp add: np_unique_def)


lemma put_idx_absent_row:
  assumes "put_idx xs ix vs = Inr a" and "u \<notin> set ix"
  shows "length a = length xs \<and> a ! u = xs ! u"
proof -
  have "a = put_seq xs (zip ix vs) \<or> a = put_seq xs (map (\<lambda>i. (i, hd vs)) ix)"
    using assms(1) by (simp add: put_idx_def split: if_splits)
  then show ?thesis
  proof
    assume a: "a = put_seq xs (zip ix vs)"
    have "u \<notin> fst ` set (zip ix vs)"
      using assms(2) by (auto dest: set_zip_leftD)
    with a show ?thesis
      by (simp add: put_seq_notin)
  next
    assume a: "a = put_seq xs (map (\<lambda>i. (i, hd vs)) ix)"
    have "fst ` set (map (\<lambda>i. (i, hd vs)) ix) = set ix"
      by (simp add: image_image)
    with assms(2) have "u \<notin> fst ` set (map (\<lambda>i. (i, hd vs)) ix)"
      by simp
    with a show ?thesis
      by (simp only: put_seq_notin length_put_seq simp_thms)
  qed
qed

lemma map_add_zero [simp]: "map ((+) (0::int)) xs = xs"
  by (induction xs) auto

subsection \<open>Equations for \<open>get_value\<close>\<close>

lemma get_value_split:
  "num_table dt = 3 \<Longrightarrow> get_value dt varname entity opt s = get_value3 dt varname entity opt s"
  by (simp add: get_value.simps)

lemma get_value_flat:
  "num_table dt = 1 \<Longrightarrow> get_value dt varname entity opt s =
     (case get_value1 dt varname entity opt s of
        Inl e \<Rightarrow> Inl (ProblemGettingVariable varname e) | Inr v \<Rightarrow> Inr v)"
  by (simp add: get_value.simps)

lemma get_value1_no_column:
  assumes "map_of (column_by_name dt) varname = Some col" and "df_cols (table dt) varname = None"
  shows "get_value1 dt varname entity opt s = Inl (KeyError varname)"
  using assms by (simp add: get_value1.simps Let_def)

lemma get_value1_composite:
  assumes "map_of (column_by_name dt) varname = Some col"
      and "df_cols (table dt) varname = Some tab" and "entity \<noteq> ''ind''"
  shows "get_value1 dt varname (Some entity) opt s =
     (case index_nb dt entity of
        Inl e \<Rightarrow> Inl e
      | Inr (ei, n) \<Rightarrow>
          (case opt of
             None \<Rightarrow>
               (case role_array ei n (col_default col) (map (astype (col_dtype col)) tab) 0 of
                  Inl e \<Rightarrow> Inl e
                | Inr temp \<Rightarrow> Inr (Arr temp))
           | Some persons \<Rightarrow>
               (case out_loop ei n (col_default col) (map (astype (col_dtype col)) tab) persons [] of
                  Inl e \<Rightarrow> Inl e
                | Inr out \<Rightarrow> return_out persons s out)))"
  using assms by (simp add: get_value1.simps Let_def)

lemma get_value1_leaf:
  assumes "map_of (column_by_name dt) varname = Some col"
      and "df_cols (table dt) varname = Some tab" and "entity = None \<or> entity = Some ''ind''"
      and "varname \<noteq> ''ppe_coef''"
  shows "get_value1 dt varname entity opt s = Inr (Arr (map (astype (col_dtype col)) tab))"
  using assms by (auto simp add: get_value1.simps Let_def)

subsection \<open>The example tables are the ones the constructor builds\<close>

lemma populate_ex_flat:
  "populate_from_survey_data [''men''] (Frame ex_frame) (DataTable (ex_registry d) 1)
     = Inr (ex_flat d)"
  by (simp add: eval_defs ex_defs Let_def eval_nat_numeral)

lemma populate_ex_ppe:
  "populate_from_survey_data [''men''] (Frame ex_ppe_frame) (DataTable (ex_ppe_registry owner) 1)
     = Inr (ex_ppe_flat owner)"
  by (simp add: eval_defs ex_defs Let_def eval_nat_numeral)

lemma populate_ex_split:
  "populate_from_survey_data [''men'', ''foy''] (Frames ex_frames) (DataTable (ex_registry3 d) 3)
     = Inr (ex_split d)"
  by (simp add: eval_defs ex_defs Let_def eval_nat_numeral)

subsection \<open>The concrete scenario\<close>

text \<open>
  Claim C7. In the flat layout, three individuals with household identifiers \<open>[1, 1, 2]\<close>,
  roles \<open>[0, 1, 0]\<close> and an individual variable \<open>X = [10, 20, 30]\<close> of default \<open>0\<close>: the table
  built from these data returns \<open>[10, 30]\<close> for \<open>get_value(X, entity = men, opt = [0])\<close> and
  \<open>[30, 30]\<close> for \<open>get_value(X, entity = men, opt = [0, 1], sum_ = True)\<close>.
\<close>

theorem concrete_scenario:
  "(case populate_from_survey_data [''men''] (Frame ex_frame) (DataTable (ex_registry 0) 1) of
      Inl p \<Rightarrow> Inl (fst p)
    | Inr dt \<Rightarrow> get_value dt ''X'' (Some ''men'') (Some [0]) False) = Inr (Arr [10, 30])
   \<and>
   (case populate_from_survey_data [''men''] (Frame ex_frame) (DataTable (ex_registry 0) 1) of
      Inl p \<Rightarrow> Inl (fst p)
    | Inr dt \<Rightarrow> get_value dt ''X'' (Some ''men'') (Some [0, 1]) True) = Inr (Arr [30, 30])"
  by (simp add: populate_ex_flat) (simp add: eval_defs ex_defs Let_def eval_nat_numeral)

subsection \<open>\<open>inflate\<close>\<close>

text \<open>
  Claim C10. For every variable name and every scalar inflator, of any type of numbers
  (integers, floats read as reals, or any other type with a product), \<open>inflate(varname,
  inflator)\<close> on a column of the flat table replaces that column by its elementwise product
  with the inflator; every other column, the row count, the index, the tables of the split
  layout and the registry are unchanged.
\<close>

theorem inflate_frame:
  fixes inflator :: "'v::times" and dt :: "'v datatable"
  assumes "df_cols (table dt) varname = Some c"
  shows "\<exists>dt'. inflate varname inflator dt = Inr dt'
           \<and> df_cols (table dt') varname = Some (map (\<lambda>x. inflator * x) c)
           \<and> (\<forall>w. w \<noteq> varname \<longrightarrow> df_cols (table dt') w = df_cols (table dt) w)
           \<and> df_len (table dt') = df_len (table dt)
           \<and> index dt' = index dt
           \<and> nrows dt' = nrows dt
           \<and> table3 dt' = table3 dt
           \<and> column_by_name dt' = column_by_name dt
           \<and> num_table dt' = num_table dt"
  using assms by (simp add: inflate_def)

theorem inflate_frame_witness:
  "df_cols (table (ex_flat 0)) ''X'' = Some [10, 20, 30]
   \<and> (\<exists>dt'. inflate ''X'' 2 (ex_flat 0) = Inr dt'
          \<and> df_cols (table dt') ''X'' = Some [20, 40, 60]
          \<and> df_cols (table dt') ''idmen'' = Some [1, 1, 2]
          \<and> index dt' = index (ex_flat 0))
   \<and> df_cols (table (cells_as real_of_int (ex_flat 0))) ''X'' = Some [10, 20, 30]
   \<and> (\<exists>dt'. inflate ''X'' (3 / 2 :: real) (cells_as real_of_int (ex_flat 0)) = Inr dt'
          \<and> df_cols (table dt') ''X'' = Some [15, 30, 45]
          \<and> df_cols (table dt') ''idmen'' = Some [1, 1, 2]
          \<and> index dt' = index (ex_flat 0))"
proof -
  have h: "df_cols (table (ex_flat 0)) ''X'' = Some [10, 20, 30]"
    by (simp add: ex_defs)
  have i: "df_cols (table (ex_flat 0)) ''idmen'' = Some [1, 1, 2]"
    by (simp add: ex_defs)
  from inflate_frame [OF h, of 2] h i
  have a: "\<exists>dt'. inflate ''X'' 2 (ex_flat 0) = Inr dt'
          \<and> df_cols (table dt') ''X'' = Some [20, 40, 60]
          \<and> df_cols (table dt') ''idmen'' = Some [1, 1, 2]
          \<and> index dt' = index (ex_flat 0)"
    by auto
  let ?r = "cells_as real_of_int (ex_flat 0)"
  have hr: "df_cols (table ?r) ''X'' = Some [10, 20, 30]"
    by (simp add: cells_as_def frame_as_def ex_defs)
  have ir: "df_cols (table ?r) ''idmen'' = Some [1, 1, 2]"
    by (simp add: cells_as_def frame_as_def ex_defs)
  have xr: "index ?r = index (ex_flat 0)"
    by (simp add: cells_as_def)
  from inflate_frame [OF hr, of "3 / 2"] ir xr
  have b: "\<exists>dt'. inflate ''X'' (3 / 2 :: real) ?r = Inr dt'
          \<and> df_cols (table dt') ''X'' = Some [15, 30, 45]
          \<and> df_cols (table dt') ''idmen'' = Some [1, 1, 2]
          \<and> index dt' = index (ex_flat 0)"
    by auto
  from h a hr b show ?thesis
    by (intro conjI)
qed

subsection \<open>From an intermediate entity to the biggest one\<close>







subsection \<open>A requested role that a group does not have\<close>

lemma role_array_absent_row:
  assumes "role_array ei n fill var p = Inr a" and "roles ei p = Some idx"
      and "u < n" and "u \<notin> set (idxUnit idx)"
  shows "length a = n \<and> a ! u = fill"
proof -
  from assms(1,2) obtain vals where v: "put_idx (replicate n fill) (idxUnit idx) vals = Inr a"
    by (simp add: role_array_def split: sum.splits)
  from put_idx_absent_row [OF v assms(4)] assms(3) show ?thesis
    by simp
qed

lemma absent_role_flat:
  assumes "num_table dt = 1" and "map_of (column_by_name dt) varname = Some col"
      and "entity \<noteq> ''ind''"
      and "get_value dt varname (Some entity) (Some [p]) True = Inr res"
      and "index dt entity = Some ei" and "nb ei = Some n" and "roles ei p = Some idx"
      and "u < n" and "u \<notin> set (idxUnit idx)"
  shows "\<exists>a. res = Arr a \<and> length a = n \<and> a ! u = col_default col"
proof -
  from assms(1,4) obtain r1 where r1: "get_value1 dt varname (Some entity) (Some [p]) True = Inr r1"
      and "res = r1"
    by (auto simp add: get_value_flat split: sum.splits)
  from r1 get_value1_no_column [OF assms(2)] obtain tab where tab: "df_cols (table dt) varname = Some tab"
    by (cases "df_cols (table dt) varname") auto
  let ?var = "map (astype (col_dtype col)) tab"
  from r1 assms(5,6) have
    "(case role_array ei n (col_default col) ?var p of Inl e \<Rightarrow> Inl e | Inr a \<Rightarrow> Inr (Arr a)) = Inr r1"
    unfolding get_value1_composite [OF assms(2) tab assms(3)]
    by (auto simp add: index_nb_def return_out_def sum_out_def split: sum.splits)
  then obtain a where "role_array ei n (col_default col) ?var p = Inr a" "r1 = Arr a"
    by (auto split: sum.splits)
  with role_array_absent_row [OF this(1) assms(7,8,9)] \<open>res = r1\<close> show ?thesis
    by simp
qed

lemma absent_role_split:
  assumes "num_table dt = 3" and "map_of (column_by_name dt) varname = Some col"
      and "col_entity col = ''ind''" and "entity \<noteq> ''ind''"
      and "get_value dt varname (Some entity) (Some [p]) True = Inr res"
      and "index dt entity = Some ei" and "nb ei = Some n" and "roles ei p = Some idx"
      and "u < n" and "u \<notin> set (idxUnit idx)"
  shows "\<exists>a. res = Arr a \<and> length a = n \<and> a ! u = 0"
proof -
  from assms(1,5) have r: "get_value3 dt varname (Some entity) (Some [p]) True = Inr res"
    by (simp add: get_value_split)
  from r assms(2,3) obtain df tab where tab: "table3 dt ''ind'' = Some df" "df_cols df varname = Some tab"
    by (auto simp add: get_value3_def Let_def split: option.splits)
  let ?var = "map (astype (col_dtype col)) tab"
  from r assms(2,3,4,6,7) tab have
    "(case role_array ei n 0 ?var p of Inl e \<Rightarrow> Inl e | Inr a \<Rightarrow> Inr (Arr a)) = Inr res"
    by (auto simp add: get_value3_def get_value3_case3_def Let_def index_nb_def return_out_def
          sum_out_def split: sum.splits if_splits)
  then obtain a where "role_array ei n 0 ?var p = Inr a" "res = Arr a"
    by (auto split: sum.splits)
  with role_array_absent_row [OF this(1) assms(8,9,10)] show ?thesis
    by simp
qed

text \<open>
  Claim C1. Under aggregation a row of the target entity that has no member in a requested
  role should contribute zero for that role. The split layout does so (\<open>absent_role_split\<close>:
  the array of each role starts from \<open>np.zeros\<close> when \<open>sum_\<close> is set), the flat layout does
  not (\<open>absent_role_flat\<close>: the array of each role starts from the default of the column).
  On the example table with default \<open>5\<close>, household 2, which has no spouse, gets \<open>30 + 5\<close>
  in the flat layout and \<open>30 + 0\<close> in the split layout.
\<close>

theorem absent_role_under_aggregation:
  "(case populate_from_survey_data [''men''] (Frame ex_frame) (DataTable (ex_registry 5) 1) of
      Inl p \<Rightarrow> Inl (fst p)
    | Inr dt \<Rightarrow> get_value dt ''X'' (Some ''men'') (Some [0, 1]) True) = Inr (Arr [30, 35])
   \<and>
   (case populate_from_survey_data [''men'', ''foy''] (Frames ex_frames)
           (DataTable (ex_registry3 5) 3) of
      Inl p \<Rightarrow> Inl (fst p)
    | Inr dt \<Rightarrow> get_value dt ''X'' (Some ''men'') (Some [0, 1]) True) = Inr (Arr [30, 30])"
  by (simp add: populate_ex_flat populate_ex_split)
     (simp add: eval_defs ex_defs Let_def eval_nat_numeral)

subsection \<open>The index entry of the leaf entity\<close>

lemma outcome_state_simps [simp]:
  "outcome_state (Inl p) = snd p" "outcome_state (Inr s) = s"
  by (simp_all add: outcome_state_def)

lemma leaf_entry_upd_other: "k \<noteq> ''ind'' \<Longrightarrow> leaf_entry n (ix(k \<mapsto> e)) = leaf_entry n ix"
  by (simp add: leaf_entry_def)

lemma leaf_entry_upd_index: "k \<noteq> ''ind'' \<Longrightarrow> leaf_entry n (upd_index ix k f) = leaf_entry n ix"
  by (simp add: leaf_entry_def upd_index_def split: option.splits)

lemma leaf_entry_cross:
  "ix ''ind'' = Some li \<Longrightarrow> leaf_entry n (ix(''ind'' \<mapsto> li\<lparr>cross := c\<rparr>)) = leaf_entry n ix"
  by (simp add: leaf_entry_def)

lemma leaf_entry_enum_loop:
  "entity \<noteq> ''ind'' \<Longrightarrow> leaf_entry n ix
     \<Longrightarrow> leaf_entry n (outcome_state (enum_loop idxlist idx qui entity enum ix))"
proof (induction enum arbitrary: ix)
  case Nil
  then show ?case by (simp add: outcome_state_def)
next
  case (Cons member enum)
  show ?case
  proof (cases "take_idx idx (argwhere qui (snd member))")
    case (Inl e)
    with Cons.prems show ?thesis
      by (simp add: outcome_state_def Let_def)
  next
    case (Inr ids)
    with Cons.prems Cons.IH show ?thesis
      by (simp add: Let_def leaf_entry_upd_index)
  qed
qed

lemma leaf_entry_gen_index_entity:
  assumes "entity \<noteq> ''ind''" and "leaf_entry n ix"
  shows "leaf_entry n (outcome_state (gen_index_entity dt entity ix))"
proof (cases "map_of (column_by_name dt) (''qui'' @ entity)")
  case None
  with assms(2) show ?thesis
    by (simp add: gen_index_entity_def outcome_state_def)
next
  case (Some qcol)
  note qcol = this
  show ?thesis
  proof (cases "link_columns dt entity")
    case (Inl e)
    with qcol assms(2) show ?thesis
      by (simp add: gen_index_entity_def outcome_state_def)
  next
    case (Inr cols)
    note cols = this
    let ?ix1 = "ix(entity \<mapsto> empty_index)"
    have e1: "leaf_entry n ?ix1"
      using assms by (simp add: leaf_entry_upd_other)
    show ?thesis
    proof (cases cols)
      case None
      with qcol cols e1 show ?thesis
        by (simp add: gen_index_entity_def outcome_state_def Let_def)
    next
      case (Some c)
      then obtain idx qui where c: "cols = Some (idx, qui)"
        by (cases c) auto
      let ?step = "(if num_table dt = 3 then
                      (case reconcile dt entity (np_unique idx) of
                         Inl e \<Rightarrow> Inl (e, ?ix1)
                       | Inr idxlist \<Rightarrow>
                           (case ?ix1 ''ind'' of
                              None \<Rightarrow> Inl (KeyError ''ind'', ?ix1)
                            | Some li \<Rightarrow>
                                Inr (idxlist, ?ix1(''ind'' \<mapsto> li\<lparr>cross := (cross li)
                                       (entity \<mapsto> searchsorted idxlist idx)\<rparr>))))
                    else Inr (np_unique idx, ?ix1))"
      have unfold: "gen_index_entity dt entity ix =
          (case ?step of
             Inl p \<Rightarrow> Inl p
           | Inr (idxlist, ix2) \<Rightarrow>
               (let ix3 = upd_index ix2 entity (\<lambda>dct. dct\<lparr>nb := Some (length idxlist)\<rparr>) in
                case col_enum qcol of
                  None \<Rightarrow> Inl (TypeError, ix3)
                | Some enum \<Rightarrow> enum_loop idxlist idx qui entity enum ix3))"
        using qcol cols c by (simp add: gen_index_entity_def Let_def)
      show ?thesis
      proof (cases ?step)
        case (Inl p)
        then have "snd p = ?ix1"
          by (auto split: if_splits sum.splits option.splits)
        with Inl e1 show ?thesis
          unfolding unfold by (simp add: outcome_state_def)
      next
        case (Inr r)
        then obtain idxlist ix2 where r: "r = (idxlist, ix2)"
          by (cases r) auto
        have "leaf_entry n ix2"
          using Inr r e1 leaf_entry_cross [of ?ix1 _ n]
          by (auto split: if_splits sum.splits option.splits)
        then have e3: "leaf_entry n (upd_index ix2 entity (\<lambda>dct. dct\<lparr>nb := Some (length idxlist)\<rparr>))"
          using assms(1) by (simp add: leaf_entry_upd_index)
        show ?thesis
        proof (cases "col_enum qcol")
          case None
          with Inr r e3 show ?thesis
            unfolding unfold by (simp add: outcome_state_def Let_def)
        next
          case (Some enum)
          with Inr r leaf_entry_enum_loop [OF assms(1) e3] show ?thesis
            unfolding unfold by (simp add: Let_def)
        qed
      qed
    qed
  qed
qed

lemma leaf_entry_entity_loop:
  "''ind'' \<notin> set entities \<Longrightarrow> leaf_entry n ix
     \<Longrightarrow> leaf_entry n (outcome_state (entity_loop dt entities ix))"
proof (induction entities arbitrary: ix)
  case Nil
  then show ?case by (simp add: outcome_state_def)
next
  case (Cons entity entities)
  from Cons.prems have ne: "entity \<noteq> ''ind''" by auto
  show ?case
  proof (cases "gen_index_entity dt entity ix")
    case (Inl p)
    with leaf_entry_gen_index_entity [OF ne Cons.prems(2), of dt] show ?thesis
      by (simp add: outcome_state_def)
  next
    case (Inr ix')
    with leaf_entry_gen_index_entity [OF ne Cons.prems(2), of dt] have "leaf_entry n ix'"
      by (simp add: outcome_state_def)
    with Cons.IH [of ix'] Cons.prems(1) Inr show ?thesis
      by simp
  qed
qed

lemma leaf_entry_super_loop:
  "entity \<noteq> ''ind'' \<Longrightarrow> leaf_entry n ix
     \<Longrightarrow> leaf_entry n (outcome_state (super_loop entity supers ix))"
proof (induction supers arbitrary: ix)
  case Nil
  then show ?case by (simp add: outcome_state_def)
next
  case (Cons super_entity rest)
  have step: "\<And>f. leaf_entry n (outcome_state (super_loop entity rest (upd_index ix entity f)))"
    using Cons.IH Cons.prems by (simp add: leaf_entry_upd_index)
  from Cons.prems Cons.IH [OF Cons.prems] step show ?case
    by (auto split: option.splits sum.splits)
qed

lemma leaf_entry_cross_loop:
  "''ind'' \<notin> set rest \<Longrightarrow> leaf_entry n ix
     \<Longrightarrow> leaf_entry n (outcome_state (cross_loop entities rest ix))"
proof (induction rest arbitrary: ix)
  case Nil
  then show ?case by (simp add: outcome_state_def)
next
  case (Cons entity rest)
  from Cons.prems have ne: "entity \<noteq> ''ind''" by auto
  show ?case
  proof (cases "super_loop entity entities ix")
    case (Inl p)
    with leaf_entry_super_loop [OF ne Cons.prems(2), of entities] show ?thesis
      by (simp add: outcome_state_def)
  next
    case (Inr ix')
    with leaf_entry_super_loop [OF ne Cons.prems(2), of entities] have "leaf_entry n ix'"
      by (simp add: outcome_state_def)
    with Cons.IH [of ix'] Cons.prems(1) Inr show ?thesis
      by simp
  qed
qed

lemma leaf_entry_leaf_index: "leaf_entry n [''ind'' \<mapsto> leaf_index n]"
  by (simp add: leaf_entry_def leaf_index_def)

lemma leaf_entry_gen_index_map:
  assumes "''ind'' \<notin> set entities"
  shows "leaf_entry (nrows dt) (outcome_state (gen_index_map dt entities))"
proof (cases "entity_loop dt entities [''ind'' \<mapsto> leaf_index (nrows dt)]")
  case (Inl p)
  with leaf_entry_entity_loop [OF assms leaf_entry_leaf_index, of "nrows dt" dt] show ?thesis
    by (simp add: gen_index_map_def outcome_state_def)
next
  case (Inr ix)
  with leaf_entry_entity_loop [OF assms leaf_entry_leaf_index, of "nrows dt" dt]
  have "leaf_entry (nrows dt) ix"
    by (simp add: outcome_state_def)
  with Inr leaf_entry_cross_loop [OF assms this, of entities] show ?thesis
    by (simp add: gen_index_map_def)
qed

lemma index_gen_index:
  "index (outcome_state (gen_index entities dt)) = outcome_state (gen_index_map dt entities)"
  by (simp add: gen_index_def outcome_state_def split: sum.splits prod.splits)

lemma gen_index_frame:
  "table (outcome_state (gen_index entities dt)) = table dt
   \<and> table3 (outcome_state (gen_index entities dt)) = table3 dt
   \<and> nrows (outcome_state (gen_index entities dt)) = nrows dt
   \<and> num_table (outcome_state (gen_index entities dt)) = num_table dt
   \<and> column_by_name (outcome_state (gen_index entities dt)) = column_by_name dt"
  by (simp add: gen_index_def outcome_state_def split: sum.splits prod.splits)

lemma set_value_frame:
  assumes "set_value varname val entity opt dt = Inr dt'"
  shows "index dt' = index dt \<and> nrows dt' = nrows dt \<and> column_by_name dt' = column_by_name dt
         \<and> num_table dt' = num_table dt"
  using assms
  by (auto simp add: set_value_def Let_def split: option.splits sum.splits if_splits)

lemma inflate_frame_index:
  assumes "inflate varname inflator dt = Inr dt'"
  shows "index dt' = index dt \<and> nrows dt' = nrows dt"
  using assms by (auto simp add: inflate_def split: option.splits)

lemma propagate_loop_frame:
  "index (outcome_state (propagate_loop varname from_ent v head enum dt)) = index dt
   \<and> nrows (outcome_state (propagate_loop varname from_ent v head enum dt)) = nrows dt"
proof (induction enum arbitrary: dt)
  case Nil
  then show ?case by simp
next
  case (Cons member enum)
  have step: "\<And>vm dt'. set_value varname vm (Some from_ent) (Some (snd member)) dt = Inr dt' \<Longrightarrow>
      index (outcome_state (propagate_loop varname from_ent v head enum dt')) = index dt
      \<and> nrows (outcome_state (propagate_loop varname from_ent v head enum dt')) = nrows dt"
    using Cons.IH set_value_frame by metis
  from Cons.IH [of dt] step show ?case
    by (auto split: result.splits option.splits sum.splits)
qed

lemma propagate_loop_Inl:
  "propagate_loop varname from_ent v head enum dt = Inl (e, d)
     \<Longrightarrow> index d = index dt \<and> nrows d = nrows dt"
  using propagate_loop_frame [of varname from_ent v head enum dt] by simp

lemma propagate_loop_Inr:
  "propagate_loop varname from_ent v head enum dt = Inr d
     \<Longrightarrow> index d = index dt \<and> nrows d = nrows dt"
  using propagate_loop_frame [of varname from_ent v head enum dt] by simp

lemma propagate_to_members_frame:
  "index (outcome_state (map_sum id snd (propagate_to_members varname entity dt))) = index dt
   \<and> nrows (outcome_state (map_sum id snd (propagate_to_members varname entity dt))) = nrows dt"
  by (auto simp add: propagate_to_members_def Let_def split: option.splits sum.splits
        dest: propagate_loop_Inl propagate_loop_Inr)

lemma load_tables_Frames:
  "load_tables (Frames d) es t3 = Inr t3' \<Longrightarrow> e \<in> set es \<Longrightarrow> t3' e = d e"
proof (induction es arbitrary: t3)
  case Nil
  then show ?case by simp
next
  case (Cons a es)
  then obtain edf where edf: "d a = Some edf"
    by (auto split: option.splits)
  with Cons.prems have rest: "load_tables (Frames d) es (t3(a \<mapsto> edf)) = Inr t3'"
    by simp
  have keep: "\<And>t. load_tables (Frames d) es t = Inr t3' \<Longrightarrow> a \<notin> set es \<Longrightarrow> t3' a = t a"
  proof -
    fix t
    show "load_tables (Frames d) es t = Inr t3' \<Longrightarrow> a \<notin> set es \<Longrightarrow> t3' a = t a"
    proof (induction es arbitrary: t)
      case Nil
      then show ?case by simp
    next
      case (Cons b es)
      then show ?case
        by (auto split: option.splits)
    qed
  qed
  show ?case
  proof (cases "e \<in> set es")
    case True
    with Cons.IH rest show ?thesis by blast
  next
    case False
    with Cons.prems(2) have "e = a" by simp
    with False keep [OF rest] edf show ?thesis by simp
  qed
qed

lemma fill_column_len: "df_len (snd (fill_column c s)) = df_len (snd s)"
  by (cases s) (simp add: fill_column_def split: option.splits)

lemma fold_fill_column_len: "df_len (snd (fold fill_column cs s)) = df_len (snd s)"
  by (induction cs arbitrary: s) (simp_all add: fill_column_len)

lemma populate_steps:
  assumes "populate_from_survey_data ents fname dt = Inr dt'"
  obtains dt1 missing_col dt2 where "load_survey ents fname dt = Inr dt1"
    and "fill_missing ents dt1 = Inr (missing_col, dt2)"
    and "check_linking ents missing_col = None"
    and "gen_index ents dt2 = Inr dt'"
  using assms
  by (auto simp add: populate_from_survey_data_def split: sum.splits prod.splits option.splits)

lemma load_survey_frame:
  assumes "load_survey ents fname dt = Inr dt1"
  shows "num_table dt1 = num_table dt \<and> column_by_name dt1 = column_by_name dt
       \<and> (num_table dt = 1 \<longrightarrow> (\<exists>df. fname = Frame df \<and> table dt1 = df))
       \<and> (num_table dt = 3 \<longrightarrow> (\<exists>d idf. fname = Frames d \<and> d ''ind'' = Some idf
                                  \<and> table3 dt1 ''ind'' = Some idf))"
proof -
  have split3: "num_table dt = 3 \<Longrightarrow> \<exists>d idf. fname = Frames d \<and> d ''ind'' = Some idf
                                  \<and> table3 dt1 ''ind'' = Some idf"
  proof -
    assume n3: "num_table dt = 3"
    with assms obtain t3 where t3: "load_tables fname (list_entities ents) (table3 dt) = Inr t3"
        and dt1: "dt1 = dt\<lparr>table3 := t3\<rparr>"
      by (auto simp add: load_survey_def split: sum.splits prod.splits)
    from t3 obtain d where d: "fname = Frames d"
      by (cases fname) (auto simp add: list_entities_def split: option.splits)
    from t3 d have "t3 ''ind'' = d ''ind''"
      using load_tables_Frames [of d "list_entities ents" "table3 dt" t3 "''ind''"]
      by (simp add: list_entities_def)
    moreover from t3 d obtain idf where "d ''ind'' = Some idf"
      by (auto simp add: list_entities_def split: option.splits)
    ultimately show ?thesis
      using d dt1 by simp
  qed
  from assms split3 show ?thesis
    by (auto simp add: load_survey_def split: if_splits survey_data.splits sum.splits prod.splits)
qed

lemma fill_missing_nrows:
  assumes "fill_missing ents dt1 = Inr (missing_col, dt2)"
  shows "(num_table dt1 = 1 \<longrightarrow> nrows dt2 = df_len (table dt1) \<and> df_len (table dt2) = df_len (table dt1))
       \<and> (num_table dt1 = 3 \<longrightarrow> (\<forall>idf. table3 dt1 ''ind'' = Some idf \<longrightarrow> nrows dt2 = df_len idf))"
proof -
  have "df_len (snd (fold fill_column (map snd (column_by_name dt1)) ([], table dt1)))
          = df_len (table dt1)"
    by (simp add: fold_fill_column_len)
  with assms show ?thesis
    by (auto simp add: fill_missing_def split: if_splits prod.splits option.splits sum.splits)
qed

lemma gen_index_Inr_leaf:
  assumes "gen_index ents dt2 = Inr dt'" and "''ind'' \<notin> set ents"
  shows "leaf_entry (nrows dt') (index dt') \<and> nrows dt' = nrows dt2 \<and> table dt' = table dt2
         \<and> table3 dt' = table3 dt2 \<and> num_table dt' = num_table dt2
         \<and> column_by_name dt' = column_by_name dt2"
  using assms leaf_entry_gen_index_map [OF assms(2), of dt2] index_gen_index [of ents dt2]
    gen_index_frame [of ents dt2]
  by simp

lemma populate_leaf:
  assumes "populate_from_survey_data ents fname dt = Inr dt'" and "''ind'' \<notin> set ents"
  shows "leaf_entry (nrows dt') (index dt')
       \<and> (num_table dt = 1 \<longrightarrow> (\<exists>df. fname = Frame df \<and> nrows dt' = df_len df
                                     \<and> df_len (table dt') = df_len df))
       \<and> (num_table dt = 3 \<longrightarrow> (\<exists>d idf. fname = Frames d \<and> d ''ind'' = Some idf
                                     \<and> nrows dt' = df_len idf))"
proof -
  from assms(1) obtain dt1 missing_col dt2 where l: "load_survey ents fname dt = Inr dt1"
    and f: "fill_missing ents dt1 = Inr (missing_col, dt2)"
    and g: "gen_index ents dt2 = Inr dt'"
    by (rule populate_steps)
  from gen_index_Inr_leaf [OF g assms(2)] load_survey_frame [OF l] fill_missing_nrows [OF f]
  show ?thesis
    by auto
qed

text \<open>
  Claim C8. After \<open>gen_index\<close> (whether it returns or raises, for entities other than
  \<open>ind\<close>) the entry of the leaf entity is the identity join on \<open>self._nrows\<close> rows; after
  \<open>populate_from_survey_data\<close> that number is the row count of the table of individuals.
  \<open>set_value\<close>, \<open>inflate\<close> and \<open>propagate_to_members\<close> leave the whole index as it is (the
  reading methods return a value and no table).
\<close>

theorem leaf_entry_identity:
  "(''ind'' \<notin> set entities \<longrightarrow>
      leaf_entry (nrows dt) (index (outcome_state (gen_index entities dt))))
   \<and> (''ind'' \<notin> set entities \<and> populate_from_survey_data entities fname dt0 = Inr dt \<longrightarrow>
        leaf_entry (nrows dt) (index dt)
        \<and> (num_table dt0 = 1 \<longrightarrow> (\<exists>df. fname = Frame df \<and> nrows dt = df_len df))
        \<and> (num_table dt0 = 3 \<longrightarrow>
             (\<exists>d idf. fname = Frames d \<and> d ''ind'' = Some idf \<and> nrows dt = df_len idf)))
   \<and> (\<forall>dt'. set_value varname val entity opt dt = Inr dt' \<longrightarrow> index dt' = index dt)
   \<and> (\<forall>dt'. inflate varname inflator dt = Inr dt' \<longrightarrow> index dt' = index dt)
   \<and> index (outcome_state (map_sum id snd (propagate_to_members varname entity' dt))) = index dt"
proof -
  have a: "''ind'' \<notin> set entities \<Longrightarrow>
      leaf_entry (nrows dt) (index (outcome_state (gen_index entities dt)))"
    using leaf_entry_gen_index_map [of entities dt] by (simp add: index_gen_index)
  have b: "''ind'' \<notin> set entities \<Longrightarrow> populate_from_survey_data entities fname dt0 = Inr dt \<Longrightarrow>
        leaf_entry (nrows dt) (index dt)
        \<and> (num_table dt0 = 1 \<longrightarrow> (\<exists>df. fname = Frame df \<and> nrows dt = df_len df))
        \<and> (num_table dt0 = 3 \<longrightarrow>
             (\<exists>d idf. fname = Frames d \<and> d ''ind'' = Some idf \<and> nrows dt = df_len idf))"
    using populate_leaf [of entities fname dt0 dt] by blast
  from a b set_value_frame [of varname val entity opt dt] inflate_frame_index [of varname inflator dt]
    propagate_to_members_frame [of varname entity' dt]
  show ?thesis
    by blast
qed

theorem leaf_entry_identity_witness:
  "''ind'' \<notin> set [''men'']
   \<and> populate_from_survey_data [''men''] (Frame ex_frame) (DataTable (ex_registry 0) 1) = Inr (ex_flat 0)
   \<and> leaf_entry 3 (index (ex_flat 0))
   \<and> leaf_entry 3 (index (outcome_state (gen_index [''men''] (ex_flat 0))))
   \<and> (\<exists>dt'. set_value ''X'' [1, 2, 3] None None (ex_flat 0) = Inr dt' \<and> index dt' = index (ex_flat 0))
   \<and> (\<exists>dt'. inflate ''X'' 2 (ex_flat 0) = Inr dt' \<and> index dt' = index (ex_flat 0))"
proof -
  have h1: "''ind'' \<notin> set [''men'']"
    by simp
  have n: "nrows (ex_flat 0) = 3"
    by (simp add: ex_defs)
  obtain d1 where d1: "set_value ''X'' [1, 2, 3] None None (ex_flat 0) = Inr d1"
    by (simp add: eval_defs ex_defs Let_def eval_nat_numeral)
  obtain d2 where d2: "inflate ''X'' 2 (ex_flat 0) = Inr d2"
    by (simp add: eval_defs ex_defs)
  from leaf_entry_identity [of "[''men'']" "ex_flat 0" "Frame ex_frame" "DataTable (ex_registry 0) 1"
      "''X''" "[1, 2, 3]" None None 2 "''men''"]
    h1 n populate_ex_flat [of 0] d1 d2
  show ?thesis
    by auto
qed

subsection \<open>Writing, then reading\<close>

lemma astype_idem [simp]: "astype d (astype d v) = astype d v"
  by (cases d) auto

lemma take_idx_upt: "length xs = n \<Longrightarrow> take_idx xs [0..<n] = Inr xs"
  by (auto simp add: take_idx_def list_all_iff map_nth)

lemma put_seq_zip_nth:
  "distinct ix \<Longrightarrow> length vs = length ix \<Longrightarrow> k < length ix \<Longrightarrow> ix ! k < length xs
     \<Longrightarrow> put_seq xs (zip ix vs) ! (ix ! k) = vs ! k"
proof (induction ix arbitrary: xs vs k)
  case Nil
  then show ?case by simp
next
  case (Cons i ix)
  then obtain v vs' where vs: "vs = v # vs'"
    by (cases vs) auto
  show ?case
  proof (cases k)
    case 0
    from Cons.prems(1) have "i \<notin> fst ` set (zip ix vs')"
      by (auto dest: set_zip_leftD)
    with 0 vs Cons.prems(4) show ?thesis
      by (simp add: put_seq_notin)
  next
    case (Suc k')
    with Cons.prems vs Cons.IH [of vs' k' "xs[i := v]"] show ?thesis
      by simp
  qed
qed

lemma put_seq_upt:
  assumes "length xs = length vs"
  shows "put_seq xs (zip [0..<length vs] vs) = vs"
proof (rule nth_equalityI)
  show "length (put_seq xs (zip [0..<length vs] vs)) = length vs"
    using assms by simp
next
  fix i
  assume "i < length (put_seq xs (zip [0..<length vs] vs))"
  then have i: "i < length vs"
    using assms by simp
  with put_seq_zip_nth [of "[0..<length vs]" vs i xs] assms
  show "put_seq xs (zip [0..<length vs] vs) ! i = vs ! i"
    by simp
qed

lemma put_idx_upt:
  assumes "length xs = n" and "length vs = n"
  shows "put_idx xs [0..<n] vs = Inr vs"
  using assms put_seq_upt [of xs vs] by (simp add: put_idx_def list_all_iff)

lemma leaf_entryD:
  assumes "leaf_entry n ix"
  obtains li where "ix ''ind'' = Some li" and "nb li = Some n"
    and "roles li 0 = Some \<lparr>idxIndi = [0..<n], idxUnit = [0..<n]\<rparr>"
  using assms by (auto simp add: leaf_entry_def split: option.splits)

lemma write_then_read_flat:
  assumes "leaf_entry (nrows dt) (index dt)" and "map_of (column_by_name dt) varname = Some col"
      and "length val = nrows dt" and "num_table dt = 1" and "varname \<noteq> ''ppe_coef''"
      and "df_cols (table dt) varname = Some c" and "length c = nrows dt"
  shows "\<exists>dt'. set_value varname val None None dt = Inr dt'
           \<and> get_value dt' varname None None False = Inr (Arr (map (astype (col_dtype col)) val))"
proof -
  from assms(1) obtain li where li: "index dt ''ind'' = Some li"
    "roles li 0 = Some \<lparr>idxIndi = [0..<nrows dt], idxUnit = [0..<nrows dt]\<rparr>"
    by (rule leaf_entryD)
  let ?vals = "map (astype (col_dtype col)) val"
  let ?dt' = "dt\<lparr>table := (table dt)\<lparr>df_cols := (df_cols (table dt))(varname \<mapsto> ?vals)\<rparr>\<rparr>"
  have t: "take_idx val [0..<nrows dt] = Inr val"
    using assms(3) by (rule take_idx_upt)
  have p: "put_idx c [0..<nrows dt] ?vals = Inr ?vals"
    using assms(3,7) by (simp add: put_idx_upt)
  have s: "set_value varname val None None dt = Inr ?dt'"
    using li assms(2,4,6) t p by (simp add: set_value_def)
  have g: "get_value1 ?dt' varname None None False = Inr (Arr (map (astype (col_dtype col)) ?vals))"
    by (rule get_value1_leaf) (use assms(2,5) in simp_all)
  have "get_value ?dt' varname None None False = Inr (Arr ?vals)"
    using assms(4) g by (simp add: get_value_flat)
  with s show ?thesis
    by blast
qed

lemma write_then_read_split:
  assumes "leaf_entry (nrows dt) (index dt)" and "map_of (column_by_name dt) varname = Some col"
      and "length val = nrows dt" and "num_table dt = 3" and "col_entity col = ''ind''"
      and "table3 dt ''ind'' = Some df"
      and "df_cols df varname = Some c" and "length c = nrows dt"
  shows "\<exists>dt'. set_value varname val None None dt = Inr dt'
           \<and> get_value dt' varname None None False = Inr (Arr (map (astype (col_dtype col)) val))"
proof -
  from assms(1) obtain li where li: "index dt ''ind'' = Some li"
    "roles li 0 = Some \<lparr>idxIndi = [0..<nrows dt], idxUnit = [0..<nrows dt]\<rparr>"
    by (rule leaf_entryD)
  let ?vals = "map (astype (col_dtype col)) val"
  let ?dt' = "dt\<lparr>table3 := (table3 dt)(''ind'' \<mapsto> df\<lparr>df_cols := (df_cols df)(varname \<mapsto> val)\<rparr>)\<rparr>"
  have p: "put_idx c [0..<nrows dt] val = Inr val"
    using assms(3,8) by (simp add: put_idx_upt)
  have s: "set_value varname val None None dt = Inr ?dt'"
    using li assms(2,4,6,7) p by (simp add: set_value_def)
  have t: "take_idx ?vals [0..<nrows dt] = Inr ?vals"
    using assms(3) by (simp add: take_idx_upt)
  have "get_value3 ?dt' varname None None False = Inr (Arr ?vals)"
    using assms(2,5) li t by (simp add: get_value3_def get_value3_case1_def Let_def)
  then have "get_value ?dt' varname None None False = Inr (Arr ?vals)"
    using assms(4) by (simp add: get_value_split)
  with s show ?thesis
    by blast
qed

text \<open>
  The round trip in general. On a table whose index has been built (the entry of the leaf
  entity is the identity join on \<open>_nrows\<close> rows, which is what \<open>gen_index\<close> leaves), for a
  registered variable whose column has \<open>_nrows\<close> rows and an array \<open>val\<close> of that length:
  \<open>set_value(varname, val)\<close> followed by \<open>get_value(varname)\<close> returns \<open>val\<close> cast to the
  scalar type of the column, in the flat layout for every variable not named \<open>ppe_coef\<close>
  and in the split layout for every variable owned by the leaf entity.
\<close>

lemma write_then_read:
  assumes "leaf_entry (nrows dt) (index dt)"
      and "map_of (column_by_name dt) varname = Some col"
      and "length val = nrows dt"
      and "(num_table dt = 1 \<and> varname \<noteq> ''ppe_coef''
              \<and> (\<exists>c. df_cols (table dt) varname = Some c \<and> length c = nrows dt))
         \<or> (num_table dt = 3 \<and> col_entity col = ''ind''
              \<and> (\<exists>df c. table3 dt ''ind'' = Some df \<and> df_cols df varname = Some c
                     \<and> length c = nrows dt))"
  shows "\<exists>dt'. set_value varname val None None dt = Inr dt'
           \<and> get_value dt' varname None None False = Inr (Arr (map (astype (col_dtype col)) val))"
  using assms(4)
proof
  assume "num_table dt = 1 \<and> varname \<noteq> ''ppe_coef''
            \<and> (\<exists>c. df_cols (table dt) varname = Some c \<and> length c = nrows dt)"
  with write_then_read_flat [OF assms(1-3)] show ?thesis
    by blast
next
  assume "num_table dt = 3 \<and> col_entity col = ''ind''
            \<and> (\<exists>df c. table3 dt ''ind'' = Some df \<and> df_cols df varname = Some c
                   \<and> length c = nrows dt)"
  with write_then_read_split [OF assms(1-3)] show ?thesis
    by blast
qed

lemma write_then_read_witness:
  "leaf_entry (nrows (ex_flat 0)) (index (ex_flat 0))
   \<and> (\<exists>dt'. set_value ''X'' [7, 8, 9] None None (ex_flat 0) = Inr dt'
          \<and> get_value dt' ''X'' None None False = Inr (Arr [7, 8, 9]))
   \<and> leaf_entry (nrows (ex_split 0)) (index (ex_split 0))
   \<and> (\<exists>dt'. set_value ''X'' [7, 8, 9] None None (ex_split 0) = Inr dt'
          \<and> get_value dt' ''X'' None None False = Inr (Arr [7, 8, 9]))"
proof -
  let ?col = "\<lparr>col_name = ''X'', col_default = 0, col_dtype = IntT, col_entity = ''ind'',
               col_enum = None\<rparr>"
  have l1: "leaf_entry (nrows (ex_flat 0)) (index (ex_flat 0))"
    by (simp add: leaf_entry_def leaf_index_def ex_defs)
  have c1: "map_of (column_by_name (ex_flat 0)) ''X'' = Some ?col"
    by (simp add: ex_defs)
  have n1: "length [7, 8, 9::int] = nrows (ex_flat 0)"
    by (simp add: ex_defs)
  have f1: "(num_table (ex_flat 0) = 1 \<and> ''X'' \<noteq> ''ppe_coef''
              \<and> (\<exists>c. df_cols (table (ex_flat 0)) ''X'' = Some c \<and> length c = nrows (ex_flat 0)))
         \<or> (num_table (ex_flat 0) = 3 \<and> col_entity ?col = ''ind''
              \<and> (\<exists>df c. table3 (ex_flat 0) ''ind'' = Some df \<and> df_cols df ''X'' = Some c
                     \<and> length c = nrows (ex_flat 0)))"
    by (simp add: ex_defs)
  have l3: "leaf_entry (nrows (ex_split 0)) (index (ex_split 0))"
    by (simp add: leaf_entry_def ex_defs eval_nat_numeral)
  have c3: "map_of (column_by_name (ex_split 0)) ''X'' = Some ?col"
    by (simp add: ex_defs)
  have n3: "length [7, 8, 9::int] = nrows (ex_split 0)"
    by (simp add: ex_defs)
  have f3: "(num_table (ex_split 0) = 1 \<and> ''X'' \<noteq> ''ppe_coef''
              \<and> (\<exists>c. df_cols (table (ex_split 0)) ''X'' = Some c \<and> length c = nrows (ex_split 0)))
         \<or> (num_table (ex_split 0) = 3 \<and> col_entity ?col = ''ind''
              \<and> (\<exists>df c. table3 (ex_split 0) ''ind'' = Some df \<and> df_cols df ''X'' = Some c
                     \<and> length c = nrows (ex_split 0)))"
    by (simp add: ex_defs)
  from write_then_read [OF l1 c1 n1 f1] write_then_read [OF l3 c3 n3 f3] l1 l3
  show ?thesis
    by simp
qed

text \<open>
  Claim C2. For every leaf-level variable, \<open>set_value(varname, values)\<close> followed by
  \<open>get_value(varname)\<close> should return the written array. \<open>write_then_read\<close> shows it for
  every variable but one: in the flat layout \<open>_get_value1\<close> returns the column unless the
  variable is named \<open>ppe_coef\<close> (the source notes that the test should be on the owner
  entity: "should be : if ent == 'ind'"). A leaf-level variable of that name takes the
  other branch, which calls \<open>self.get_value(varname, ent)\<close> with \<open>ent = 'ind'\<close>, the same
  call again: the read raises instead of returning the written array.
\<close>

theorem write_then_read_ppe_coef:
  "(case populate_from_survey_data [''men''] (Frame ex_ppe_frame)
          (DataTable (ex_ppe_registry ''ind'') 1) of
      Inl p \<Rightarrow> Inl (fst p)
    | Inr dt \<Rightarrow>
        (case set_value ''ppe_coef'' [1, 2, 3] None None dt of
           Inl e \<Rightarrow> Inl e
         | Inr dt' \<Rightarrow> get_value dt' ''ppe_coef'' None None False))
   = Inl (ProblemGettingVariable ''ppe_coef'' (ProblemGettingVariable ''ppe_coef'' RuntimeError))"
  by (simp add: populate_ex_ppe) (simp add: eval_defs ex_defs Let_def eval_nat_numeral)

subsection \<open>Reading at leaf level in the flat layout\<close>









subsection \<open>An unspecified role\<close>

lemma role_array_spec:
  assumes "roles ei p = Some idx" and "wf_role (length var) n idx"
  shows "\<exists>a. role_array ei n fill var p = Inr a \<and> length a = n
           \<and> (\<forall>j < n. j \<notin> set (idxUnit idx) \<longrightarrow> a ! j = fill)
           \<and> (distinct (idxUnit idx) \<longrightarrow>
                (\<forall>k < length (idxUnit idx). a ! (idxUnit idx ! k) = var ! (idxIndi idx ! k)))"
proof -
  let ?vals = "map (\<lambda>i. var ! i) (idxIndi idx)"
  let ?a = "put_seq (replicate n fill) (zip (idxUnit idx) ?vals)"
  from assms(2) have len: "length (idxIndi idx) = length (idxUnit idx)"
    and ri: "list_all (\<lambda>i. i < length var) (idxIndi idx)"
    and ru: "list_all (\<lambda>j. j < n) (idxUnit idx)"
    by (simp_all add: wf_role_def)
  have ra: "role_array ei n fill var p = Inr ?a"
    using assms(1) len ri ru by (simp add: role_array_def take_idx_def put_idx_def)
  have absent: "\<forall>j < n. j \<notin> set (idxUnit idx) \<longrightarrow> ?a ! j = fill"
  proof (intro allI impI)
    fix j
    assume j: "j < n" "j \<notin> set (idxUnit idx)"
    then have "j \<notin> fst ` set (zip (idxUnit idx) ?vals)"
      by (auto dest: set_zip_leftD)
    with j(1) show "?a ! j = fill"
      by (simp add: put_seq_notin)
  qed
  have present: "distinct (idxUnit idx) \<longrightarrow>
        (\<forall>k < length (idxUnit idx). ?a ! (idxUnit idx ! k) = var ! (idxIndi idx ! k))"
  proof (intro allI impI)
    fix k
    assume d: "distinct (idxUnit idx)" and k: "k < length (idxUnit idx)"
    from ru k have "idxUnit idx ! k < n"
      by (simp add: list_all_length)
    with put_seq_zip_nth [OF d, of ?vals k "replicate n fill"] len k
    show "?a ! (idxUnit idx ! k) = var ! (idxIndi idx ! k)"
      by simp
  qed
  from ra absent present show ?thesis
    by simp
qed

lemma unspecified_role_flat:
  assumes "num_table dt = 1" and "entity \<noteq> ''ind''"
  shows "get_value dt varname (Some entity) None s = get_value dt varname (Some entity) (Some [0]) False"
proof -
  have "get_value1 dt varname (Some entity) None s = get_value1 dt varname (Some entity) (Some [0]) False"
    using assms(2)
    by (auto simp add: get_value1.simps Let_def return_out_def
          split: option.splits sum.splits prod.splits)
  with assms(1) show ?thesis
    by (simp add: get_value_flat)
qed

lemma unspecified_role_split:
  assumes "num_table dt = 3" and "map_of (column_by_name dt) varname = Some col"
      and "col_entity col = ''ind''" and "entity \<noteq> ''ind''"
  shows "get_value dt varname (Some entity) None False
           = get_value dt varname (Some entity) (Some [0]) False"
proof -
  have "get_value3 dt varname (Some entity) None False
           = get_value3 dt varname (Some entity) (Some [0]) False"
    using assms(2,3,4)
    by (simp add: get_value3_def Let_def split: option.splits)
  with assms(1) show ?thesis
    by (simp add: get_value_split)
qed

lemma role_zero_flat:
  assumes "num_table dt = 1" and "map_of (column_by_name dt) varname = Some col"
      and "df_cols (table dt) varname = Some tab" and "entity \<noteq> ''ind''"
      and "index dt entity = Some ei" and "nb ei = Some n"
      and "roles ei 0 = Some idx" and "wf_role (length tab) n idx"
  shows "\<exists>r. get_value dt varname (Some entity) None s = Inr (Arr r) \<and> length r = n
           \<and> (\<forall>j < n. j \<notin> set (idxUnit idx) \<longrightarrow> r ! j = col_default col)
           \<and> (distinct (idxUnit idx) \<longrightarrow>
                (\<forall>k < length (idxUnit idx).
                   r ! (idxUnit idx ! k) = astype (col_dtype col) (tab ! (idxIndi idx ! k))))"
proof -
  let ?var = "map (astype (col_dtype col)) tab"
  from assms(8) have w: "wf_role (length ?var) n idx"
    by simp
  from role_array_spec [OF assms(7) w, of "col_default col"]
  obtain a where a: "role_array ei n (col_default col) ?var 0 = Inr a" "length a = n"
      "\<forall>j < n. j \<notin> set (idxUnit idx) \<longrightarrow> a ! j = col_default col"
      "distinct (idxUnit idx) \<longrightarrow>
         (\<forall>k < length (idxUnit idx). a ! (idxUnit idx ! k) = ?var ! (idxIndi idx ! k))"
    by blast
  have "get_value1 dt varname (Some entity) None s = Inr (Arr a)"
    unfolding get_value1_composite [OF assms(2,3,4)]
    using assms(5,6) a(1) by (simp add: index_nb_def)
  then have g: "get_value dt varname (Some entity) None s = Inr (Arr a)"
    using assms(1) by (simp add: get_value_flat)
  have "\<forall>k < length (idxUnit idx). ?var ! (idxIndi idx ! k) = astype (col_dtype col) (tab ! (idxIndi idx ! k))"
    using assms(8) by (simp add: wf_role_def list_all_length)
  with g a(2,3,4) show ?thesis
    by simp
qed

lemma role_zero_split:
  assumes "num_table dt = 3" and "map_of (column_by_name dt) varname = Some col"
      and "col_entity col = ''ind''" and "table3 dt ''ind'' = Some df"
      and "df_cols df varname = Some tab" and "entity \<noteq> ''ind''"
      and "index dt entity = Some ei" and "nb ei = Some n"
      and "roles ei 0 = Some idx" and "wf_role (length tab) n idx"
  shows "\<exists>r. get_value dt varname (Some entity) None False = Inr (Arr r) \<and> length r = n
           \<and> (\<forall>j < n. j \<notin> set (idxUnit idx) \<longrightarrow> r ! j = col_default col)
           \<and> (distinct (idxUnit idx) \<longrightarrow>
                (\<forall>k < length (idxUnit idx).
                   r ! (idxUnit idx ! k) = astype (col_dtype col) (tab ! (idxIndi idx ! k))))"
proof -
  let ?var = "map (astype (col_dtype col)) tab"
  from assms(10) have w: "wf_role (length ?var) n idx"
    by simp
  from role_array_spec [OF assms(9) w, of "col_default col"]
  obtain a where a: "role_array ei n (col_default col) ?var 0 = Inr a" "length a = n"
      "\<forall>j < n. j \<notin> set (idxUnit idx) \<longrightarrow> a ! j = col_default col"
      "distinct (idxUnit idx) \<longrightarrow>
         (\<forall>k < length (idxUnit idx). a ! (idxUnit idx ! k) = ?var ! (idxIndi idx ! k))"
    by blast
  have "get_value3 dt varname (Some entity) None False = Inr (Arr a)"
    using assms(2-8) a(1)
    by (simp add: get_value3_def get_value3_case3_def Let_def index_nb_def return_out_def)
  then have g: "get_value dt varname (Some entity) None False = Inr (Arr a)"
    using assms(1) by (simp add: get_value_split)
  have "\<forall>k < length (idxUnit idx). ?var ! (idxIndi idx ! k) = astype (col_dtype col) (tab ! (idxIndi idx ! k))"
    using assms(10) by (simp add: wf_role_def list_all_length)
  with g a(2,3,4) show ?thesis
    by simp
qed

lemma set_value_unspecified:
  "set_value varname val entity None dt = set_value varname val entity (Some 0) dt"
  by (simp add: set_value_def)

lemma put_idx_spec:
  assumes "length vs = length ix" and "list_all (\<lambda>i. i < length xs) ix"
  shows "\<exists>a. put_idx xs ix vs = Inr a \<and> length a = length xs
           \<and> (\<forall>j < length xs. j \<notin> set ix \<longrightarrow> a ! j = xs ! j)
           \<and> (distinct ix \<longrightarrow> (\<forall>k < length ix. a ! (ix ! k) = vs ! k))"
proof -
  let ?a = "put_seq xs (zip ix vs)"
  have pa: "put_idx xs ix vs = Inr ?a"
    using assms by (simp add: put_idx_def)
  have absent: "\<forall>j < length xs. j \<notin> set ix \<longrightarrow> ?a ! j = xs ! j"
  proof (intro allI impI)
    fix j
    assume "j < length xs" "j \<notin> set ix"
    then have "j \<notin> fst ` set (zip ix vs)"
      by (auto dest: set_zip_leftD)
    then show "?a ! j = xs ! j"
      by (simp add: put_seq_notin)
  qed
  have present: "distinct ix \<longrightarrow> (\<forall>k < length ix. ?a ! (ix ! k) = vs ! k)"
  proof (intro allI impI)
    fix k
    assume d: "distinct ix" and k: "k < length ix"
    from assms(2) k have "ix ! k < length xs"
      by (simp add: list_all_length)
    with put_seq_zip_nth [OF d assms(1) k] show "?a ! (ix ! k) = vs ! k"
      by simp
  qed
  from pa absent present show ?thesis
    by simp
qed

lemma set_value_flat_spec:
  assumes "num_table dt = 1" and "map_of (column_by_name dt) varname = Some col"
      and "df_cols (table dt) varname = Some c"
      and "index dt entity = Some ei" and "roles ei 0 = Some idx"
      and "wf_role (length c) (length val) idx"
  shows "\<exists>dt' c'. set_value varname val (Some entity) None dt = Inr dt'
           \<and> df_cols (table dt') varname = Some c' \<and> length c' = length c
           \<and> (\<forall>i < length c. i \<notin> set (idxIndi idx) \<longrightarrow> c' ! i = c ! i)
           \<and> (distinct (idxIndi idx) \<longrightarrow>
                (\<forall>k < length (idxIndi idx).
                   c' ! (idxIndi idx ! k) = astype (col_dtype col) (val ! (idxUnit idx ! k))))
           \<and> (\<forall>w. w \<noteq> varname \<longrightarrow> df_cols (table dt') w = df_cols (table dt) w)
           \<and> df_len (table dt') = df_len (table dt) \<and> table3 dt' = table3 dt
           \<and> index dt' = index dt"
proof -
  from assms(6) have len: "length (idxIndi idx) = length (idxUnit idx)"
    and ri: "list_all (\<lambda>i. i < length c) (idxIndi idx)"
    and ru: "list_all (\<lambda>j. j < length val) (idxUnit idx)"
    by (simp_all add: wf_role_def)
  let ?vals = "map (astype (col_dtype col)) (map (\<lambda>i. val ! i) (idxUnit idx))"
  have t: "take_idx val (idxUnit idx) = Inr (map (\<lambda>i. val ! i) (idxUnit idx))"
    using ru by (simp add: take_idx_def)
  have "length ?vals = length (idxIndi idx)"
    using len by simp
  from put_idx_spec [OF this ri] obtain c' where c': "put_idx c (idxIndi idx) ?vals = Inr c'"
      "length c' = length c"
      "\<forall>j < length c. j \<notin> set (idxIndi idx) \<longrightarrow> c' ! j = c ! j"
      "distinct (idxIndi idx) \<longrightarrow> (\<forall>k < length (idxIndi idx). c' ! (idxIndi idx ! k) = ?vals ! k)"
    by blast
  let ?dt' = "dt\<lparr>table := (table dt)\<lparr>df_cols := (df_cols (table dt))(varname \<mapsto> c')\<rparr>\<rparr>"
  have s: "set_value varname val (Some entity) None dt = Inr ?dt'"
    using assms(1-5) t c'(1) by (simp add: set_value_def)
  have "\<forall>k < length (idxIndi idx). ?vals ! k = astype (col_dtype col) (val ! (idxUnit idx ! k))"
    using len by simp
  with s c'(2,3,4) show ?thesis
    by simp
qed

lemma set_value_split_spec:
  assumes "num_table dt = 3" and "map_of (column_by_name dt) varname = Some col"
      and "entity \<noteq> ''ind''" and "table3 dt entity = Some df"
      and "df_cols df varname = Some c"
      and "index dt entity = Some ei" and "roles ei 0 = Some idx"
      and "length val = length (idxUnit idx)" and "list_all (\<lambda>j. j < length c) (idxUnit idx)"
  shows "\<exists>dt' df' c'. set_value varname val (Some entity) None dt = Inr dt'
           \<and> table3 dt' entity = Some df' \<and> df_cols df' varname = Some c'
           \<and> length c' = length c
           \<and> (\<forall>j < length c. j \<notin> set (idxUnit idx) \<longrightarrow> c' ! j = c ! j)
           \<and> (distinct (idxUnit idx) \<longrightarrow>
                (\<forall>k < length (idxUnit idx). c' ! (idxUnit idx ! k) = val ! k))
           \<and> (\<forall>w. w \<noteq> varname \<longrightarrow> df_cols df' w = df_cols df w)
           \<and> (\<forall>e. e \<noteq> entity \<longrightarrow> table3 dt' e = table3 dt e)
           \<and> table dt' = table dt \<and> index dt' = index dt"
proof -
  from put_idx_spec [OF assms(8,9)] obtain c' where c': "put_idx c (idxUnit idx) val = Inr c'"
      "length c' = length c"
      "\<forall>j < length c. j \<notin> set (idxUnit idx) \<longrightarrow> c' ! j = c ! j"
      "distinct (idxUnit idx) \<longrightarrow> (\<forall>k < length (idxUnit idx). c' ! (idxUnit idx ! k) = val ! k)"
    by blast
  let ?df' = "df\<lparr>df_cols := (df_cols df)(varname \<mapsto> c')\<rparr>"
  let ?dt' = "dt\<lparr>table3 := (table3 dt)(entity \<mapsto> ?df')\<rparr>"
  have s: "set_value varname val (Some entity) None dt = Inr ?dt'"
    using assms(1-7) c'(1) by (simp add: set_value_def)
  with c'(2,3,4) show ?thesis
    by simp
qed

text \<open>
  In the split layout a variable owned by a composite entity is not read through role 0
  of the target. On the example table the variable \<open>R\<close> of the tax units, read at \<open>men\<close>
  with no role, is the sum over the tax units of each household, \<open>[12, 9]\<close>; the explicit
  role \<open>[0]\<close> raises; and the array that the role-0 recipe (\<open>temp[idxUnit] = var[idxIndi]\<close>
  on a default-filled array) would give for that column is \<open>[5, 9]\<close>.
\<close>

theorem unspecified_role_split_counterexample:
  "(case populate_from_survey_data [''men'', ''foy''] (Frames ex_frames)
          (DataTable (ex_registry3 0) 3) of
      Inl p \<Rightarrow> Inl (fst p)
    | Inr dt \<Rightarrow> get_value dt ''R'' (Some ''men'') None False) = Inr (Arr [12, 9])
   \<and>
   (case populate_from_survey_data [''men'', ''foy''] (Frames ex_frames)
          (DataTable (ex_registry3 0) 3) of
      Inl p \<Rightarrow> Inl (fst p)
    | Inr dt \<Rightarrow> get_value dt ''R'' (Some ''men'') (Some [0]) False) = Inl CannotSum
   \<and>
   (case populate_from_survey_data [''men'', ''foy''] (Frames ex_frames)
          (DataTable (ex_registry3 0) 3) of
      Inl p \<Rightarrow> Inl (fst p)
    | Inr dt \<Rightarrow>
        (case index_nb dt ''men'' of
           Inl e \<Rightarrow> Inl e
         | Inr (ei, n) \<Rightarrow> role_array ei n 0 [5, 7, 9] 0)) = Inr [5, 9]"
  by (simp add: populate_ex_split) (simp add: eval_defs ex_defs Let_def eval_nat_numeral)

text \<open>
  Claim C6, amended. For a registered variable and a composite entity whose index entry has
  a well-formed role 0: in the flat layout, and in the split layout for a variable owned by
  the leaf entity read without aggregation, \<open>get_value\<close> with no role returns what it returns
  for \<open>opt = [0]\<close>, an array of the size of the entity that holds the default on every row
  without a role-0 member and the value of the role-0 member on the others. In both
  layouts \<open>set_value\<close> with no role is \<open>set_value\<close> with role 0: in the flat layout it writes
  the cast values at the rows \<open>idxIndi\<close> of role 0 of the column, in the split layout the
  values at the rows \<open>idxUnit\<close> of role 0 of the table of the entity, and nothing else.
\<close>

theorem unspecified_role_is_role_zero:
  assumes "map_of (column_by_name dt) varname = Some col" and "entity \<noteq> ''ind''"
      and "index dt entity = Some ei" and "nb ei = Some n" and "roles ei 0 = Some idx"
  shows
    "(num_table dt = 1 \<and> df_cols (table dt) varname = Some tab \<and> wf_role (length tab) n idx \<longrightarrow>
        get_value dt varname (Some entity) None s = get_value dt varname (Some entity) (Some [0]) False
        \<and> (\<exists>r. get_value dt varname (Some entity) None s = Inr (Arr r) \<and> length r = n
              \<and> (\<forall>j < n. j \<notin> set (idxUnit idx) \<longrightarrow> r ! j = col_default col)
              \<and> (distinct (idxUnit idx) \<longrightarrow>
                   (\<forall>k < length (idxUnit idx).
                      r ! (idxUnit idx ! k) = astype (col_dtype col) (tab ! (idxIndi idx ! k))))))
     \<and> (num_table dt = 3 \<and> col_entity col = ''ind'' \<and> table3 dt ''ind'' = Some df
          \<and> df_cols df varname = Some tab \<and> wf_role (length tab) n idx \<longrightarrow>
        get_value dt varname (Some entity) None False
          = get_value dt varname (Some entity) (Some [0]) False
        \<and> (\<exists>r. get_value dt varname (Some entity) None False = Inr (Arr r) \<and> length r = n
              \<and> (\<forall>j < n. j \<notin> set (idxUnit idx) \<longrightarrow> r ! j = col_default col)
              \<and> (distinct (idxUnit idx) \<longrightarrow>
                   (\<forall>k < length (idxUnit idx).
                      r ! (idxUnit idx ! k) = astype (col_dtype col) (tab ! (idxIndi idx ! k))))))
     \<and> set_value varname val (Some entity) None dt = set_value varname val (Some entity) (Some 0) dt
     \<and> (num_table dt = 1 \<and> df_cols (table dt) varname = Some c
          \<and> wf_role (length c) (length val) idx \<longrightarrow>
        (\<exists>dt' c'. set_value varname val (Some entity) None dt = Inr dt'
           \<and> df_cols (table dt') varname = Some c' \<and> length c' = length c
           \<and> (\<forall>i < length c. i \<notin> set (idxIndi idx) \<longrightarrow> c' ! i = c ! i)
           \<and> (distinct (idxIndi idx) \<longrightarrow>
                (\<forall>k < length (idxIndi idx).
                   c' ! (idxIndi idx ! k) = astype (col_dtype col) (val ! (idxUnit idx ! k))))
           \<and> (\<forall>w. w \<noteq> varname \<longrightarrow> df_cols (table dt') w = df_cols (table dt) w)
           \<and> df_len (table dt') = df_len (table dt) \<and> table3 dt' = table3 dt
           \<and> index dt' = index dt))
     \<and> (num_table dt = 3 \<and> table3 dt entity = Some edf \<and> df_cols edf varname = Some c
          \<and> length val = length (idxUnit idx) \<and> list_all (\<lambda>j. j < length c) (idxUnit idx) \<longrightarrow>
        (\<exists>dt' df' c'. set_value varname val (Some entity) None dt = Inr dt'
           \<and> table3 dt' entity = Some df' \<and> df_cols df' varname = Some c'
           \<and> length c' = length c
           \<and> (\<forall>j < length c. j \<notin> set (idxUnit idx) \<longrightarrow> c' ! j = c ! j)
           \<and> (distinct (idxUnit idx) \<longrightarrow>
                (\<forall>k < length (idxUnit idx). c' ! (idxUnit idx ! k) = val ! k))
           \<and> (\<forall>w. w \<noteq> varname \<longrightarrow> df_cols df' w = df_cols edf w)
           \<and> (\<forall>e. e \<noteq> entity \<longrightarrow> table3 dt' e = table3 dt e)
           \<and> table dt' = table dt \<and> index dt' = index dt))"
proof (intro conjI impI)
  assume h: "num_table dt = 1 \<and> df_cols (table dt) varname = Some tab \<and> wf_role (length tab) n idx"
  from h show "get_value dt varname (Some entity) None s
      = get_value dt varname (Some entity) (Some [0]) False"
    using unspecified_role_flat [OF _ assms(2)] by blast
  from h role_zero_flat [OF _ assms(1) _ assms(2,3,4,5), of tab s]
  show "\<exists>r. get_value dt varname (Some entity) None s = Inr (Arr r) \<and> length r = n
              \<and> (\<forall>j < n. j \<notin> set (idxUnit idx) \<longrightarrow> r ! j = col_default col)
              \<and> (distinct (idxUnit idx) \<longrightarrow>
                   (\<forall>k < length (idxUnit idx).
                      r ! (idxUnit idx ! k) = astype (col_dtype col) (tab ! (idxIndi idx ! k))))"
    by blast
next
  assume h: "num_table dt = 3 \<and> col_entity col = ''ind'' \<and> table3 dt ''ind'' = Some df
          \<and> df_cols df varname = Some tab \<and> wf_role (length tab) n idx"
  from h show "get_value dt varname (Some entity) None False
          = get_value dt varname (Some entity) (Some [0]) False"
    using unspecified_role_split [OF _ assms(1) _ assms(2)] by blast
  from h role_zero_split [OF _ assms(1) _ _ _ assms(2,3,4,5), of df tab]
  show "\<exists>r. get_value dt varname (Some entity) None False = Inr (Arr r) \<and> length r = n
              \<and> (\<forall>j < n. j \<notin> set (idxUnit idx) \<longrightarrow> r ! j = col_default col)
              \<and> (distinct (idxUnit idx) \<longrightarrow>
                   (\<forall>k < length (idxUnit idx).
                      r ! (idxUnit idx ! k) = astype (col_dtype col) (tab ! (idxIndi idx ! k))))"
    by blast
next
  show "set_value varname val (Some entity) None dt = set_value varname val (Some entity) (Some 0) dt"
    by (rule set_value_unspecified)
next
  assume h: "num_table dt = 1 \<and> df_cols (table dt) varname = Some c
          \<and> wf_role (length c) (length val) idx"
  from h set_value_flat_spec [OF _ assms(1) _ assms(3,5), of c val]
  show "\<exists>dt' c'. set_value varname val (Some entity) None dt = Inr dt'
           \<and> df_cols (table dt') varname = Some c' \<and> length c' = length c
           \<and> (\<forall>i < length c. i \<notin> set (idxIndi idx) \<longrightarrow> c' ! i = c ! i)
           \<and> (distinct (idxIndi idx) \<longrightarrow>
                (\<forall>k < length (idxIndi idx).
                   c' ! (idxIndi idx ! k) = astype (col_dtype col) (val ! (idxUnit idx ! k))))
           \<and> (\<forall>w. w \<noteq> varname \<longrightarrow> df_cols (table dt') w = df_cols (table dt) w)
           \<and> df_len (table dt') = df_len (table dt) \<and> table3 dt' = table3 dt
           \<and> index dt' = index dt"
    by blast
next
  assume h: "num_table dt = 3 \<and> table3 dt entity = Some edf \<and> df_cols edf varname = Some c
          \<and> length val = length (idxUnit idx) \<and> list_all (\<lambda>j. j < length c) (idxUnit idx)"
  from h set_value_split_spec [OF _ assms(1,2) _ _ assms(3,5), of edf c val]
  show "\<exists>dt' df' c'. set_value varname val (Some entity) None dt = Inr dt'
           \<and> table3 dt' entity = Some df' \<and> df_cols df' varname = Some c'
           \<and> length c' = length c
           \<and> (\<forall>j < length c. j \<notin> set (idxUnit idx) \<longrightarrow> c' ! j = c ! j)
           \<and> (distinct (idxUnit idx) \<longrightarrow>
                (\<forall>k < length (idxUnit idx). c' ! (idxUnit idx ! k) = val ! k))
           \<and> (\<forall>w. w \<noteq> varname \<longrightarrow> df_cols df' w = df_cols edf w)
           \<and> (\<forall>e. e \<noteq> entity \<longrightarrow> table3 dt' e = table3 dt e)
           \<and> table dt' = table dt \<and> index dt' = index dt"
    by blast
qed

theorem unspecified_role_is_role_zero_witness:
  "(\<exists>r. get_value (ex_flat 0) ''X'' (Some ''men'') None False = Inr (Arr r)
        \<and> get_value (ex_flat 0) ''X'' (Some ''men'') (Some [0]) False = Inr (Arr r)
        \<and> length r = 2 \<and> r ! 0 = 10 \<and> r ! 1 = 30)
   \<and> (\<exists>dt' c'. set_value ''X'' [7, 8] (Some ''men'') None (ex_flat 0) = Inr dt'
        \<and> df_cols (table dt') ''X'' = Some c' \<and> c' ! 0 = 7 \<and> c' ! 1 = 20 \<and> c' ! 2 = 8)
   \<and> (\<exists>r. get_value (ex_split 0) ''idmen'' (Some ''men'') None False = Inr (Arr r)
        \<and> get_value (ex_split 0) ''idmen'' (Some ''men'') (Some [0]) False = Inr (Arr r)
        \<and> length r = 2 \<and> r ! 0 = 1 \<and> r ! 1 = 2)
   \<and> (\<exists>dt' df' c'. set_value ''idmen'' [5, 6] (Some ''men'') None (ex_split 0) = Inr dt'
        \<and> table3 dt' ''men'' = Some df' \<and> df_cols df' ''idmen'' = Some c'
        \<and> c' ! 0 = 5 \<and> c' ! 1 = 6)"
proof -
  let ?X = "\<lparr>col_name = ''X'', col_default = 0, col_dtype = IntT, col_entity = ''ind'',
             col_enum = None\<rparr>"
  let ?I = "\<lparr>col_name = ''idmen'', col_default = 0, col_dtype = IntT, col_entity = ''ind'',
             col_enum = None\<rparr>"
  let ?idx = "\<lparr>idxIndi = [0, 2], idxUnit = [0, 1::nat]\<rparr>"
  let ?ei3 = "\<lparr>nb = Some 2,
               roles = [0 \<mapsto> \<lparr>idxIndi = [0, 2], idxUnit = [0, 1]\<rparr>,
                        1 \<mapsto> \<lparr>idxIndi = [1], idxUnit = [0]\<rparr>],
               cross = [''foy'' \<mapsto> [0, 2]]\<rparr>"
  have f: "map_of (column_by_name (ex_flat 0)) ''X'' = Some ?X" "''men'' \<noteq> ''ind''"
    "index (ex_flat 0) ''men'' = Some ex_men_index" "nb ex_men_index = Some 2"
    "roles ex_men_index 0 = Some ?idx"
    by (simp_all add: ex_defs)
  have fh: "num_table (ex_flat 0) = 1" "df_cols (table (ex_flat 0)) ''X'' = Some [10, 20, 30]"
    "wf_role (length [10, 20, 30::int]) 2 ?idx" "wf_role (length [10, 20, 30::int]) (length [7, 8::int]) ?idx"
    by (simp_all add: ex_defs wf_role_def)
  have fa1: "num_table (ex_flat 0) = 1 \<and> df_cols (table (ex_flat 0)) ''X'' = Some [10, 20, 30]
      \<and> wf_role (length [10, 20, 30::int]) 2 ?idx"
    using fh by simp
  have fa4: "num_table (ex_flat 0) = 1 \<and> df_cols (table (ex_flat 0)) ''X'' = Some [10, 20, 30]
      \<and> wf_role (length [10, 20, 30::int]) (length [7, 8::int]) ?idx"
    using fh by simp
  note flat = unspecified_role_is_role_zero [OF f, where tab = "[10, 20, 30]" and s = False
      and val = "[7, 8]" and c = "[10, 20, 30]"]
  note flat1 = flat [THEN conjunct1, THEN mp, OF fa1]
  note flat4 = flat [THEN conjunct2, THEN conjunct2, THEN conjunct2, THEN conjunct1, THEN mp, OF fa4]
  from flat1 obtain r where r:
    "get_value (ex_flat 0) ''X'' (Some ''men'') None False
       = get_value (ex_flat 0) ''X'' (Some ''men'') (Some [0]) False"
    "get_value (ex_flat 0) ''X'' (Some ''men'') None False = Inr (Arr r)" "length r = 2"
    "distinct (idxUnit ?idx) \<longrightarrow> (\<forall>k < length (idxUnit ?idx).
        r ! (idxUnit ?idx ! k) = astype (col_dtype ?X) ([10, 20, 30] ! (idxIndi ?idx ! k)))"
    by (elim conjE exE) (rule that)
  from r(4) have rv: "r ! 0 = 10" "r ! 1 = 30"
    by (simp_all add: All_less_Suc)
  from flat4 obtain dt' c' where w:
    "set_value ''X'' [7, 8] (Some ''men'') None (ex_flat 0) = Inr dt'"
    "df_cols (table dt') ''X'' = Some c'"
    "\<forall>i < length [10, 20, 30::int]. i \<notin> set (idxIndi ?idx) \<longrightarrow> c' ! i = [10, 20, 30] ! i"
    "distinct (idxIndi ?idx) \<longrightarrow> (\<forall>k < length (idxIndi ?idx).
        c' ! (idxIndi ?idx ! k) = astype (col_dtype ?X) ([7, 8] ! (idxUnit ?idx ! k)))"
    by (elim conjE exE) (rule that)
  from r(1,2) have r': "get_value (ex_flat 0) ''X'' (Some ''men'') (Some [0]) False = Inr (Arr r)"
    by simp
  have A1: "\<exists>r. get_value (ex_flat 0) ''X'' (Some ''men'') None False = Inr (Arr r)
        \<and> get_value (ex_flat 0) ''X'' (Some ''men'') (Some [0]) False = Inr (Arr r)
        \<and> length r = 2 \<and> r ! 0 = 10 \<and> r ! 1 = 30"
    using r(2) r' r(3) rv by blast
  from w(3) have cv1: "c' ! 1 = 20"
    by simp
  from w(4) have cv: "c' ! 0 = 7" "c' ! 2 = 8"
    by (simp_all add: All_less_Suc)
  have A2: "\<exists>dt' c'. set_value ''X'' [7, 8] (Some ''men'') None (ex_flat 0) = Inr dt'
        \<and> df_cols (table dt') ''X'' = Some c' \<and> c' ! 0 = 7 \<and> c' ! 1 = 20 \<and> c' ! 2 = 8"
    using w(1,2) cv cv1 by blast
  have g: "map_of (column_by_name (ex_split 0)) ''idmen'' = Some ?I" "''men'' \<noteq> ''ind''"
    "index (ex_split 0) ''men'' = Some ?ei3" "nb ?ei3 = Some 2"
    "roles ?ei3 0 = Some ?idx"
    by (simp_all add: ex_defs)
  have gh: "num_table (ex_split 0) = 3" "col_entity ?I = ''ind''"
    "table3 (ex_split 0) ''ind'' = Some ex_ind_frame" "df_cols ex_ind_frame ''idmen'' = Some [1, 1, 2]"
    "wf_role (length [1, 1, 2::int]) 2 ?idx"
    "table3 (ex_split 0) ''men'' = Some ex_men_frame" "df_cols ex_men_frame ''idmen'' = Some [1, 2]"
    "length [5, 6::int] = length (idxUnit ?idx)"
    "list_all (\<lambda>j. j < length [1, 2::int]) (idxUnit ?idx)"
    by (simp_all add: ex_defs wf_role_def)
  have ga2: "num_table (ex_split 0) = 3 \<and> col_entity ?I = ''ind''
      \<and> table3 (ex_split 0) ''ind'' = Some ex_ind_frame
      \<and> df_cols ex_ind_frame ''idmen'' = Some [1, 1, 2] \<and> wf_role (length [1, 1, 2::int]) 2 ?idx"
    using gh by simp
  have ga5: "num_table (ex_split 0) = 3 \<and> table3 (ex_split 0) ''men'' = Some ex_men_frame
      \<and> df_cols ex_men_frame ''idmen'' = Some [1, 2]
      \<and> length [5, 6::int] = length (idxUnit ?idx)
      \<and> list_all (\<lambda>j. j < length [1, 2::int]) (idxUnit ?idx)"
    using gh by simp
  note split = unspecified_role_is_role_zero [OF g, where df = ex_ind_frame and tab = "[1, 1, 2]"
      and val = "[5, 6]" and edf = ex_men_frame and c = "[1, 2]"]
  note split2 = split [THEN conjunct2, THEN conjunct1, THEN mp, OF ga2]
  note split5 = split [THEN conjunct2, THEN conjunct2, THEN conjunct2, THEN conjunct2, THEN mp, OF ga5]
  from split2 obtain r3 where r3:
    "get_value (ex_split 0) ''idmen'' (Some ''men'') None False
       = get_value (ex_split 0) ''idmen'' (Some ''men'') (Some [0]) False"
    "get_value (ex_split 0) ''idmen'' (Some ''men'') None False = Inr (Arr r3)" "length r3 = 2"
    "distinct (idxUnit ?idx) \<longrightarrow> (\<forall>k < length (idxUnit ?idx).
        r3 ! (idxUnit ?idx ! k) = astype (col_dtype ?I) ([1, 1, 2] ! (idxIndi ?idx ! k)))"
    by (elim conjE exE) (rule that)
  from r3(4) have r3v: "r3 ! 0 = 1" "r3 ! 1 = 2"
    by (simp_all add: All_less_Suc)
  from split5 obtain dt3 df3 c3 where w3:
    "set_value ''idmen'' [5, 6] (Some ''men'') None (ex_split 0) = Inr dt3"
    "table3 dt3 ''men'' = Some df3" "df_cols df3 ''idmen'' = Some c3"
    "distinct (idxUnit ?idx) \<longrightarrow> (\<forall>k < length (idxUnit ?idx). c3 ! (idxUnit ?idx ! k) = [5, 6] ! k)"
    by (elim conjE exE) (rule that)
  from r3(1,2) have r3': "get_value (ex_split 0) ''idmen'' (Some ''men'') (Some [0]) False = Inr (Arr r3)"
    by simp
  have A3: "\<exists>r. get_value (ex_split 0) ''idmen'' (Some ''men'') None False = Inr (Arr r)
        \<and> get_value (ex_split 0) ''idmen'' (Some ''men'') (Some [0]) False = Inr (Arr r)
        \<and> length r = 2 \<and> r ! 0 = 1 \<and> r ! 1 = 2"
    using r3(2) r3' r3(3) r3v by blast
  from w3(4) have c3v: "c3 ! 0 = 5" "c3 ! 1 = 6"
    by (simp_all add: All_less_Suc)
  have A4: "\<exists>dt' df' c'. set_value ''idmen'' [5, 6] (Some ''men'') None (ex_split 0) = Inr dt'
        \<and> table3 dt' ''men'' = Some df' \<and> df_cols df' ''idmen'' = Some c'
        \<and> c' ! 0 = 5 \<and> c' ! 1 = 6"
    using w3(1,2,3) c3v by blast
  from A1 A2 A3 A4 show ?thesis
    by (intro conjI)
qed

subsection \<open>The index of the split layout when the row counts disagree\<close>

lemma argwhere_from_bound:
  "i \<in> set (argwhere_from k qui person) \<Longrightarrow> k \<le> i \<and> i < k + length qui"
proof (induction qui arbitrary: k)
  case Nil
  then show ?case by simp
next
  case (Cons q qui)
  then show ?case
    by (fastforce split: if_splits)
qed

lemma argwhere_bound: "list_all (\<lambda>i. i < length qui) (argwhere qui person)"
  using argwhere_from_bound [of _ 0 qui person]
  by (auto simp add: argwhere_def list_all_iff)

lemma take_idx_argwhere:
  assumes "length qui \<le> length idx"
  shows "take_idx idx (argwhere qui person) = Inr (map (\<lambda>i. idx ! i) (argwhere qui person))"
proof -
  have "list_all (\<lambda>i. i < length idx) (argwhere qui person)"
    using argwhere_bound [of qui person] assms by (auto simp add: list_all_iff)
  then show ?thesis
    by (simp add: take_idx_def)
qed

lemma enum_loop_spec:
  assumes "ix entity = Some e0" and "length qui \<le> length idx"
  shows "\<exists>ix' e'. enum_loop idxlist idx qui entity enum ix = Inr ix' \<and> ix' entity = Some e'
           \<and> nb e' = nb e0 \<and> cross e' = cross e0
           \<and> (\<forall>p. roles e' p = (if p \<in> snd ` set enum
                                  then Some (join_pair idxlist idx qui p) else roles e0 p))
           \<and> (\<forall>k. k \<noteq> entity \<longrightarrow> ix' k = ix k)"
  using assms(1)
proof (induction enum arbitrary: ix e0)
  case Nil
  then show ?case by simp
next
  case (Cons member enum)
  let ?p = "snd member"
  let ?e1 = "e0\<lparr>roles := (roles e0)(?p \<mapsto> join_pair idxlist idx qui ?p)\<rparr>"
  let ?ix1 = "ix(entity \<mapsto> ?e1)"
  have step: "enum_loop idxlist idx qui entity (member # enum) ix
                = enum_loop idxlist idx qui entity enum ?ix1"
    using Cons.prems take_idx_argwhere [OF assms(2), of ?p]
    by (simp add: Let_def upd_index_def join_pair_def)
  have "?ix1 entity = Some ?e1"
    by simp
  from Cons.IH [of ?ix1 ?e1, OF this] obtain ix' e' where r:
    "enum_loop idxlist idx qui entity enum ?ix1 = Inr ix'" "ix' entity = Some e'"
    "nb e' = nb ?e1" "cross e' = cross ?e1"
    "\<forall>p. roles e' p = (if p \<in> snd ` set enum
                         then Some (join_pair idxlist idx qui p) else roles ?e1 p)"
    "\<forall>k. k \<noteq> entity \<longrightarrow> ix' k = ?ix1 k"
    by blast
  have "\<forall>p. roles e' p = (if p \<in> snd ` set (member # enum)
                         then Some (join_pair idxlist idx qui p) else roles e0 p)"
    using r(5) by auto
  moreover have "\<forall>k. k \<noteq> entity \<longrightarrow> ix' k = ix k"
    using r(6) by simp
  ultimately show ?case
    using step r(1,2,3,4) by simp
qed

lemma split_entity_okD:
  assumes "split_entity_ok dt F"
  obtains qcol enum idf idx qui edf where
    "map_of (column_by_name dt) (''qui'' @ F) = Some qcol" and "col_enum qcol = Some enum"
    and "table3 dt ''ind'' = Some idf"
    and "df_cols idf (''id'' @ F) = Some idx" and "length idx = df_len idf"
    and "df_cols idf (''qui'' @ F) = Some qui" and "length qui = df_len idf"
    and "table3 dt F = Some edf"
    and "length (np_unique idx) = df_len edf \<or> df_cols edf (''id'' @ F) \<noteq> None"
proof -
  from assms have "\<exists>qcol enum idf idx qui edf.
      map_of (column_by_name dt) (''qui'' @ F) = Some qcol \<and> col_enum qcol = Some enum
      \<and> table3 dt ''ind'' = Some idf
      \<and> df_cols idf (''id'' @ F) = Some idx \<and> length idx = df_len idf
      \<and> df_cols idf (''qui'' @ F) = Some qui \<and> length qui = df_len idf
      \<and> table3 dt F = Some edf
      \<and> (length (np_unique idx) = df_len edf \<or> df_cols edf (''id'' @ F) \<noteq> None)"
    by (auto simp add: split_entity_ok_def link_idx_def split: option.splits)
  then show ?thesis
    using that by blast
qed

lemma gen_index_entity_split:
  assumes "num_table dt = 3" and "split_entity_ok dt F" and "ix ''ind'' = Some li"
      and "F \<noteq> ''ind''"
  shows "\<exists>ix' li'. gen_index_entity dt F ix = Inr ix' \<and> ix' F = Some (built_entry dt F)
           \<and> ix' ''ind'' = Some li' \<and> nb li' = nb li \<and> roles li' = roles li
           \<and> cross li' = (cross li)(F \<mapsto> searchsorted (smaller_ids dt F) (link_idx dt F))
           \<and> (\<forall>k. k \<noteq> F \<and> k \<noteq> ''ind'' \<longrightarrow> ix' k = ix k)"
proof -
  from assms(2) obtain qcol enum idf idx qui edf where d:
    "map_of (column_by_name dt) (''qui'' @ F) = Some qcol" "col_enum qcol = Some enum"
    "table3 dt ''ind'' = Some idf"
    "df_cols idf (''id'' @ F) = Some idx" "length idx = df_len idf"
    "df_cols idf (''qui'' @ F) = Some qui" "length qui = df_len idf"
    "table3 dt F = Some edf"
    "length (np_unique idx) = df_len edf \<or> df_cols edf (''id'' @ F) \<noteq> None"
    by (rule split_entity_okD)
  let ?idxlist = "smaller_ids dt F"
  have li: "link_idx dt F = idx" and lq: "link_qui dt F = qui" and en: "enum_of dt F = enum"
    using d by (simp_all add: link_idx_def link_qui_def enum_of_def)
  have lc: "link_columns dt F = Inr (Some (idx, qui))"
    using assms(1) d(3,4,6) by (simp add: link_columns_def frame_attr_def)
  have rc: "reconcile dt F (np_unique idx) = Inr ?idxlist"
    using d(8,9) li by (auto simp add: reconcile_def smaller_ids_def split: option.splits)
  let ?li' = "li\<lparr>cross := (cross li)(F \<mapsto> searchsorted ?idxlist idx)\<rparr>"
  let ?e0 = "empty_index\<lparr>nb := Some (length ?idxlist)\<rparr>"
  let ?ix3 = "ix(F \<mapsto> ?e0, ''ind'' \<mapsto> ?li')"
  have unfold: "gen_index_entity dt F ix = enum_loop ?idxlist idx qui F enum ?ix3"
    using assms(1,3,4) d(1,2) lc rc
    by (simp add: gen_index_entity_def Let_def upd_index_def fun_upd_twist)
  have "?ix3 F = Some ?e0"
    using assms(4) by simp
  moreover have "length qui \<le> length idx"
    using d(5,7) by simp
  ultimately obtain ix' e' where r:
    "enum_loop ?idxlist idx qui F enum ?ix3 = Inr ix'" "ix' F = Some e'"
    "nb e' = nb ?e0" "cross e' = cross ?e0"
    "\<forall>p. roles e' p = (if p \<in> snd ` set enum
                         then Some (join_pair ?idxlist idx qui p) else roles ?e0 p)"
    "\<forall>k. k \<noteq> F \<longrightarrow> ix' k = ?ix3 k"
    using enum_loop_spec [of ?ix3 F ?e0 qui idx ?idxlist enum] by blast
  have "e' = built_entry dt F"
    using r(3,4,5) li lq en
    by (cases e') (auto simp add: built_entry_def empty_index_def fun_eq_iff)
  moreover have "ix' ''ind'' = Some ?li'"
    using r(6) assms(4) by simp
  moreover have "\<forall>k. k \<noteq> F \<and> k \<noteq> ''ind'' \<longrightarrow> ix' k = ix k"
    using r(6) by simp
  ultimately show ?thesis
    using unfold r(1,2) li by simp
qed

lemma entity_loop_split:
  assumes "num_table dt = 3" and "\<forall>F \<in> set ents. split_entity_ok dt F" and "''ind'' \<notin> set ents"
      and "ix ''ind'' = Some li"
  shows "\<exists>ix' li'. entity_loop dt ents ix = Inr ix'
           \<and> (\<forall>F \<in> set ents. ix' F = Some (built_entry dt F))
           \<and> ix' ''ind'' = Some li' \<and> nb li' = nb li \<and> roles li' = roles li
           \<and> (\<forall>F \<in> set ents. cross li' F
                  = Some (searchsorted (smaller_ids dt F) (link_idx dt F)))
           \<and> (\<forall>k. k \<notin> set ents \<longrightarrow> cross li' k = cross li k)
           \<and> (\<forall>k. k \<notin> set ents \<and> k \<noteq> ''ind'' \<longrightarrow> ix' k = ix k)"
  using assms(2,3,4)
proof (induction ents arbitrary: ix li)
  case Nil
  then show ?case by simp
next
  case (Cons F rest)
  from Cons.prems have ok: "split_entity_ok dt F" and ne: "F \<noteq> ''ind''"
    by auto
  from gen_index_entity_split [where dt = dt and F = F and ix = ix and li = li,
      OF assms(1) ok Cons.prems(3) ne]
  obtain ix1 li1 where s: "gen_index_entity dt F ix = Inr ix1" "ix1 F = Some (built_entry dt F)"
    "ix1 ''ind'' = Some li1" "nb li1 = nb li" "roles li1 = roles li"
    "cross li1 = (cross li)(F \<mapsto> searchsorted (smaller_ids dt F) (link_idx dt F))"
    "\<forall>k. k \<noteq> F \<and> k \<noteq> ''ind'' \<longrightarrow> ix1 k = ix k"
    by blast
  from Cons.prems have r1: "\<forall>G \<in> set rest. split_entity_ok dt G" and r2: "''ind'' \<notin> set rest"
    by auto
  from Cons.IH [of ix1 li1, OF r1 r2 s(3)]
  obtain ix' li' where r: "entity_loop dt rest ix1 = Inr ix'"
    "\<forall>G \<in> set rest. ix' G = Some (built_entry dt G)"
    "ix' ''ind'' = Some li'" "nb li' = nb li1" "roles li' = roles li1"
    "\<forall>G \<in> set rest. cross li' G = Some (searchsorted (smaller_ids dt G) (link_idx dt G))"
    "\<forall>k. k \<notin> set rest \<longrightarrow> cross li' k = cross li1 k"
    "\<forall>k. k \<notin> set rest \<and> k \<noteq> ''ind'' \<longrightarrow> ix' k = ix1 k"
    by blast
  have a: "entity_loop dt (F # rest) ix = Inr ix'"
    using s(1) r(1) by simp
  have b: "\<forall>G \<in> set (F # rest). ix' G = Some (built_entry dt G)"
    using r(2,8) s(2) ne by auto
  have c: "\<forall>G \<in> set (F # rest). cross li' G
              = Some (searchsorted (smaller_ids dt G) (link_idx dt G))"
    using r(6,7) s(6) by auto
  have d: "\<forall>k. k \<notin> set (F # rest) \<longrightarrow> cross li' k = cross li k"
    using r(7) s(6) by simp
  have e: "\<forall>k. k \<notin> set (F # rest) \<and> k \<noteq> ''ind'' \<longrightarrow> ix' k = ix k"
    using r(8) s(7) by simp
  from a b c d e r(3,4,5) s(4,5) show ?case
    by simp
qed

lemma super_loop_spec:
  assumes "ix entity = Some ei" and "roles ei 0 = Some head" and "ix ''ind'' = Some li"
      and "entity \<noteq> ''ind''"
      and "\<forall>S \<in> set supers. \<exists>a. cross li S = Some a \<and> list_all (\<lambda>i. i < length a) (idxIndi head)"
  shows "\<exists>ix' ei'. super_loop entity supers ix = Inr ix' \<and> ix' entity = Some ei'
           \<and> nb ei' = nb ei \<and> roles ei' = roles ei
           \<and> (\<forall>k. k \<noteq> entity \<longrightarrow> ix' k = ix k)"
  using assms(1,2,3,5)
proof (induction supers arbitrary: ix ei)
  case Nil
  then show ?case by simp
next
  case (Cons S rest)
  show ?case
  proof (cases "S = entity")
    case True
    with Cons.IH [of ix ei, OF Cons.prems(1,2,3)] Cons.prems(4) show ?thesis
      by simp
  next
    case False
    from Cons.prems(4) obtain a where a: "cross li S = Some a"
        "list_all (\<lambda>i. i < length a) (idxIndi head)"
      by auto
    let ?v = "map (\<lambda>i. a ! i) (idxIndi head)"
    let ?ei1 = "ei\<lparr>cross := (cross ei)(S \<mapsto> ?v)\<rparr>"
    let ?ix1 = "ix(entity \<mapsto> ?ei1)"
    have step: "super_loop entity (S # rest) ix = super_loop entity rest ?ix1"
      using False Cons.prems(1,2,3) a by (simp add: take_idx_def upd_index_def)
    have p1: "?ix1 entity = Some ?ei1" and p2: "roles ?ei1 0 = Some head"
      and p3: "?ix1 ''ind'' = Some li"
      using Cons.prems(2,3) assms(4) by simp_all
    have p4: "\<forall>S \<in> set rest. \<exists>a. cross li S = Some a
                \<and> list_all (\<lambda>i. i < length a) (idxIndi head)"
      using Cons.prems(4) by simp
    from Cons.IH [of ?ix1 ?ei1, OF p1 p2 p3 p4] obtain ix' ei' where r:
      "super_loop entity rest ?ix1 = Inr ix'" "ix' entity = Some ei'"
      "nb ei' = nb ?ei1" "roles ei' = roles ?ei1" "\<forall>k. k \<noteq> entity \<longrightarrow> ix' k = ?ix1 k"
      by blast
    with step show ?thesis
      by simp
  qed
qed

lemma super_loop_same:
  "\<forall>S \<in> set supers. S = entity \<Longrightarrow> super_loop entity supers ix = Inr ix"
  by (induction supers) simp_all

lemma cross_loop_spec:
  assumes "ix ''ind'' = Some li" and "''ind'' \<notin> set rest"
      and "\<forall>F \<in> set rest. \<exists>ei. ix F = Some ei
              \<and> ((\<forall>S \<in> set ents. S = F)
                 \<or> (\<exists>head. roles ei 0 = Some head
                       \<and> (\<forall>S \<in> set ents. \<exists>a. cross li S = Some a
                             \<and> list_all (\<lambda>i. i < length a) (idxIndi head))))"
  shows "\<exists>ix'. cross_loop ents rest ix = Inr ix'
           \<and> (\<forall>k ei. ix k = Some ei \<longrightarrow>
                 (\<exists>ei'. ix' k = Some ei' \<and> nb ei' = nb ei \<and> roles ei' = roles ei))"
  using assms
proof (induction rest arbitrary: ix)
  case Nil
  then show ?case by simp
next
  case (Cons F rest)
  from Cons.prems(2) have ne: "F \<noteq> ''ind''"
    by auto
  from Cons.prems(3) obtain ei where f: "ix F = Some ei"
      "(\<forall>S \<in> set ents. S = F)
       \<or> (\<exists>head. roles ei 0 = Some head
             \<and> (\<forall>S \<in> set ents. \<exists>a. cross li S = Some a
                   \<and> list_all (\<lambda>i. i < length a) (idxIndi head)))"
    by auto
  have "\<exists>ix1 ei1. super_loop F ents ix = Inr ix1 \<and> ix1 F = Some ei1 \<and> nb ei1 = nb ei
          \<and> roles ei1 = roles ei \<and> (\<forall>k. k \<noteq> F \<longrightarrow> ix1 k = ix k)"
    using f(2)
  proof
    assume "\<forall>S \<in> set ents. S = F"
    then have "super_loop F ents ix = Inr ix"
      by (rule super_loop_same)
    with f(1) show ?thesis
      by simp
  next
    assume "\<exists>head. roles ei 0 = Some head
             \<and> (\<forall>S \<in> set ents. \<exists>a. cross li S = Some a
                   \<and> list_all (\<lambda>i. i < length a) (idxIndi head))"
    then obtain head where h: "roles ei 0 = Some head"
        "\<forall>S \<in> set ents. \<exists>a. cross li S = Some a \<and> list_all (\<lambda>i. i < length a) (idxIndi head)"
      by blast
    from super_loop_spec [where ix = ix and entity = F and ei = ei and head = head and li = li
        and supers = ents, OF f(1) h(1) Cons.prems(1) ne h(2)]
    show ?thesis
      by blast
  qed
  then obtain ix1 ei1 where s:
    "super_loop F ents ix = Inr ix1" "ix1 F = Some ei1" "nb ei1 = nb ei" "roles ei1 = roles ei"
    "\<forall>k. k \<noteq> F \<longrightarrow> ix1 k = ix k"
    by blast
  have q1: "ix1 ''ind'' = Some li"
    using s(5) ne Cons.prems(1) by simp
  have q2: "''ind'' \<notin> set rest"
    using Cons.prems(2) by simp
  have q3: "\<forall>G \<in> set rest. \<exists>ei. ix1 G = Some ei
              \<and> ((\<forall>S \<in> set ents. S = G)
                 \<or> (\<exists>head. roles ei 0 = Some head
                       \<and> (\<forall>S \<in> set ents. \<exists>a. cross li S = Some a
                             \<and> list_all (\<lambda>i. i < length a) (idxIndi head))))"
  proof
    fix G
    assume G: "G \<in> set rest"
    show "\<exists>ei. ix1 G = Some ei
              \<and> ((\<forall>S \<in> set ents. S = G)
                 \<or> (\<exists>head. roles ei 0 = Some head
                       \<and> (\<forall>S \<in> set ents. \<exists>a. cross li S = Some a
                             \<and> list_all (\<lambda>i. i < length a) (idxIndi head))))"
    proof (cases "G = F")
      case True
      with s(2,4) f(2) show ?thesis
        by simp
    next
      case False
      with s(5) Cons.prems(3) G show ?thesis
        by simp
    qed
  qed
  from Cons.IH [of ix1, OF q1 q2 q3] obtain ix' where r: "cross_loop ents rest ix1 = Inr ix'"
    "\<forall>k ei. ix1 k = Some ei \<longrightarrow>
        (\<exists>ei'. ix' k = Some ei' \<and> nb ei' = nb ei \<and> roles ei' = roles ei)"
    by blast
  have "\<forall>k e. ix k = Some e \<longrightarrow> (\<exists>ei'. ix' k = Some ei' \<and> nb ei' = nb e \<and> roles ei' = roles e)"
  proof (intro allI impI)
    fix k e
    assume k: "ix k = Some e"
    show "\<exists>ei'. ix' k = Some ei' \<and> nb ei' = nb e \<and> roles ei' = roles e"
    proof (cases "k = F")
      case True
      with k f(1) have e: "e = ei" by simp
      from r(2) s(2) obtain ei' where "ix' F = Some ei'" "nb ei' = nb ei1" "roles ei' = roles ei1"
        by blast
      with s(3,4) e True show ?thesis
        by simp
    next
      case False
      with s(5) k have "ix1 k = Some e" by simp
      with r(2) show ?thesis
        by blast
    qed
  qed
  with s(1) r(1) show ?case
    by simp
qed

lemma split_entity_ok_facts:
  assumes "split_entity_ok dt F" and "table3 dt ''ind'' = Some idf"
  shows "length (link_idx dt F) = df_len idf \<and> length (link_qui dt F) = df_len idf"
proof -
  from assms(1) obtain qcol enum idf' idx qui where d:
    "map_of (column_by_name dt) (''qui'' @ F) = Some qcol" "col_enum qcol = Some enum"
    "table3 dt ''ind'' = Some idf'"
    "df_cols idf' (''id'' @ F) = Some idx" "length idx = df_len idf'"
    "df_cols idf' (''qui'' @ F) = Some qui" "length qui = df_len idf'"
    by (rule split_entity_okD)
  with assms(2) show ?thesis
    by (simp add: link_idx_def link_qui_def)
qed

lemma gen_index_map_split:
  assumes "num_table dt = 3" and "''ind'' \<notin> set entities"
      and "\<forall>F \<in> set entities. split_entity_ok dt F"
      and "\<forall>F \<in> set entities. (\<forall>S \<in> set entities. S = F) \<or> 0 \<in> snd ` set (enum_of dt F)"
      and "E \<in> set entities"
  shows "\<exists>ix ei. gen_index_map dt entities = Inr ix \<and> ix E = Some ei
           \<and> nb ei = nb (built_entry dt E) \<and> roles ei = roles (built_entry dt E)"
proof -
  from assms(3,5) have "split_entity_ok dt E"
    by blast
  then obtain idf where idf: "table3 dt ''ind'' = Some idf"
    by (rule split_entity_okD)
  let ?ix0 = "[''ind'' \<mapsto> leaf_index (nrows dt)]"
  have i0: "?ix0 ''ind'' = Some (leaf_index (nrows dt))"
    by simp
  from entity_loop_split [where ix = ?ix0 and li = "leaf_index (nrows dt)", OF assms(1,3,2) i0]
  obtain ix1 li1 where l: "entity_loop dt entities ?ix0 = Inr ix1"
    "\<forall>F \<in> set entities. ix1 F = Some (built_entry dt F)"
    "ix1 ''ind'' = Some li1"
    "\<forall>F \<in> set entities. cross li1 F = Some (searchsorted (smaller_ids dt F) (link_idx dt F))"
    by blast
  have h: "\<forall>F \<in> set entities. \<exists>ei. ix1 F = Some ei
              \<and> ((\<forall>S \<in> set entities. S = F)
                 \<or> (\<exists>head. roles ei 0 = Some head
                       \<and> (\<forall>S \<in> set entities. \<exists>a. cross li1 S = Some a
                             \<and> list_all (\<lambda>i. i < length a) (idxIndi head))))"
  proof
    fix F
    assume F: "F \<in> set entities"
    let ?head = "join_pair (smaller_ids dt F) (link_idx dt F) (link_qui dt F) 0"
    from F assms(3) split_entity_ok_facts [OF _ idf, of F]
    have fF: "length (link_qui dt F) = df_len idf"
      by auto
    have rng: "\<forall>S \<in> set entities. \<exists>a. cross li1 S = Some a
                     \<and> list_all (\<lambda>i. i < length a) (idxIndi ?head)"
    proof
      fix S
      assume S: "S \<in> set entities"
      from S assms(3) split_entity_ok_facts [OF _ idf, of S]
      have "length (link_idx dt S) = df_len idf"
        by auto
      with fF argwhere_bound [of "link_qui dt F" 0]
      have "list_all (\<lambda>i. i < length (searchsorted (smaller_ids dt S) (link_idx dt S)))
              (idxIndi ?head)"
        by (simp add: searchsorted_def join_pair_def)
      with l(4) S show "\<exists>a. cross li1 S = Some a \<and> list_all (\<lambda>i. i < length a) (idxIndi ?head)"
        by simp
    qed
    from assms(4) F have "(\<forall>S \<in> set entities. S = F) \<or> 0 \<in> snd ` set (enum_of dt F)"
      by blast
    then have "(\<forall>S \<in> set entities. S = F)
        \<or> (\<exists>head. roles (built_entry dt F) 0 = Some head
              \<and> (\<forall>S \<in> set entities. \<exists>a. cross li1 S = Some a
                    \<and> list_all (\<lambda>i. i < length a) (idxIndi head)))"
    proof
      assume "\<forall>S \<in> set entities. S = F"
      then show ?thesis ..
    next
      assume "0 \<in> snd ` set (enum_of dt F)"
      then have "roles (built_entry dt F) 0 = Some ?head"
        by (simp add: built_entry_def)
      with rng show ?thesis
        by blast
    qed
    with l(2) F show "\<exists>ei. ix1 F = Some ei
              \<and> ((\<forall>S \<in> set entities. S = F)
                 \<or> (\<exists>head. roles ei 0 = Some head
                       \<and> (\<forall>S \<in> set entities. \<exists>a. cross li1 S = Some a
                             \<and> list_all (\<lambda>i. i < length a) (idxIndi head))))"
      by blast
  qed
  from cross_loop_spec [where ix = ix1 and li = li1 and rest = entities and ents = entities,
      OF l(3) assms(2) h]
  obtain ix' where c: "cross_loop entities entities ix1 = Inr ix'"
    "\<forall>k ei. ix1 k = Some ei \<longrightarrow>
        (\<exists>ei'. ix' k = Some ei' \<and> nb ei' = nb ei \<and> roles ei' = roles ei)"
    by blast
  from l(2) assms(5) have "ix1 E = Some (built_entry dt E)"
    by blast
  with c(2) obtain ei where "ix' E = Some ei" "nb ei = nb (built_entry dt E)"
    "roles ei = roles (built_entry dt E)"
    by blast
  moreover have "gen_index_map dt entities = Inr ix'"
    using l(1) c(1) assms(1) by (simp add: gen_index_map_def)
  ultimately show ?thesis
    by blast
qed

text \<open>
  A mismatch can be fatal. The branch that handles it reads the column \<open>id<entity>\<close> of
  the table of the entity before it compares the sizes. With a table of households that
  has no column \<open>idmen\<close>, the construction raises \<open>KeyError\<close> when that table has one row
  for two identifiers, and succeeds when it has two rows.
\<close>

theorem split_mismatch_counterexample:
  "(case populate_from_survey_data [''men'', ''foy'']
          (Frames (ex_frames_men \<lparr>df_len = 1, df_cols = Map.empty\<rparr>))
          (DataTable (ex_registry3 0) 3) of
      Inl p \<Rightarrow> Some (fst p)
    | Inr dt \<Rightarrow> None) = Some (KeyError ''idmen'')
   \<and>
   (case populate_from_survey_data [''men'', ''foy'']
          (Frames (ex_frames_men \<lparr>df_len = 2, df_cols = Map.empty\<rparr>))
          (DataTable (ex_registry3 0) 3) of
      Inl p \<Rightarrow> Some (fst p)
    | Inr dt \<Rightarrow> None) = None"
  by (simp add: eval_defs ex_defs Let_def eval_nat_numeral)

text \<open>
  Claim C4, amended. In the split layout, let every entity be ready: its role column is
  registered with an enumeration (which has role 0 when there is another entity, whose
  rows the last loop reads through the heads), both linking columns are in the table of
  individuals, and its own table carries the column \<open>id<entity>\<close> when the row count of
  that table is not the number of distinct identifiers (the counterexample above is the
  case left out). Then \<open>gen_index\<close> returns without raising, whether or not the counts
  agree, and the entry of each entity \<open>E\<close> is built from the smaller identifier list: the
  column \<open>id<E>\<close> of the table of \<open>E\<close> when that table has fewer rows than there are distinct
  identifiers, the distinct identifiers of the individual rows otherwise. \<open>nb\<close> is the
  length of that list and every role of the enumeration has its join pair against that
  list, the positions being those the bisection of \<open>np.searchsorted\<close> finds in it.
\<close>

theorem split_mismatch_not_fatal:
  assumes "num_table dt = 3" and "''ind'' \<notin> set entities"
      and "\<forall>F \<in> set entities. split_entity_ok dt F"
      and "\<forall>F \<in> set entities. (\<forall>S \<in> set entities. S = F) \<or> 0 \<in> snd ` set (enum_of dt F)"
      and "E \<in> set entities"
  shows "\<exists>dt' ei edf. gen_index entities dt = Inr dt' \<and> index dt' E = Some ei
           \<and> nb ei = Some (length (smaller_ids dt E))
           \<and> (\<forall>person \<in> snd ` set (enum_of dt E).
                 roles ei person = Some (join_pair (smaller_ids dt E) (link_idx dt E)
                                           (link_qui dt E) person))
           \<and> table3 dt E = Some edf
           \<and> (df_len edf < length (np_unique (link_idx dt E)) \<longrightarrow>
                 df_cols edf (''id'' @ E) = Some (smaller_ids dt E))
           \<and> (\<not> df_len edf < length (np_unique (link_idx dt E)) \<longrightarrow>
                 smaller_ids dt E = np_unique (link_idx dt E))"
proof -
  from gen_index_map_split [OF assms] obtain ix ei where g:
    "gen_index_map dt entities = Inr ix" "ix E = Some ei"
    "nb ei = nb (built_entry dt E)" "roles ei = roles (built_entry dt E)"
    by blast
  have a: "gen_index entities dt = Inr (dt\<lparr>index := ix\<rparr>)"
    using g(1) by (simp add: gen_index_def)
  have b: "index (dt\<lparr>index := ix\<rparr>) E = Some ei"
    using g(2) by simp
  have c: "nb ei = Some (length (smaller_ids dt E))"
    using g(3) by (simp add: built_entry_def)
  have d: "\<forall>person \<in> snd ` set (enum_of dt E).
             roles ei person = Some (join_pair (smaller_ids dt E) (link_idx dt E)
                                       (link_qui dt E) person)"
    using g(4) by (simp add: built_entry_def)
  from assms(3,5) have "split_entity_ok dt E"
    by blast
  then obtain idf idx edf where t: "table3 dt ''ind'' = Some idf"
      "df_cols idf (''id'' @ E) = Some idx" "table3 dt E = Some edf"
      "length (np_unique idx) = df_len edf \<or> df_cols edf (''id'' @ E) \<noteq> None"
    by (rule split_entity_okD)
  from t(1,2) have li: "link_idx dt E = idx"
    by (simp add: link_idx_def)
  have e: "df_len edf < length (np_unique (link_idx dt E)) \<longrightarrow>
             df_cols edf (''id'' @ E) = Some (smaller_ids dt E)"
    using t(3,4) li by (auto simp add: smaller_ids_def)
  have f: "\<not> df_len edf < length (np_unique (link_idx dt E)) \<longrightarrow>
             smaller_ids dt E = np_unique (link_idx dt E)"
    using t(3) by (simp add: smaller_ids_def split: option.splits)
  from a b c d t(3) e f show ?thesis
    by blast
qed

theorem split_mismatch_not_fatal_witness:
  "split_entity_ok (ex_loaded_foy \<lparr>df_len = 1, df_cols = [''idmen'' \<mapsto> [1]]\<rparr>
                                  \<lparr>df_len = 3, df_cols = [''R'' \<mapsto> [5, 7, 9]]\<rparr>) ''men''
   \<and> split_entity_ok (ex_loaded_foy \<lparr>df_len = 1, df_cols = [''idmen'' \<mapsto> [1]]\<rparr>
                                    \<lparr>df_len = 3, df_cols = [''R'' \<mapsto> [5, 7, 9]]\<rparr>) ''foy''
   \<and> (\<exists>dt' ei. gen_index [''men'', ''foy'']
                   (ex_loaded_foy \<lparr>df_len = 1, df_cols = [''idmen'' \<mapsto> [1]]\<rparr>
                                  \<lparr>df_len = 3, df_cols = [''R'' \<mapsto> [5, 7, 9]]\<rparr>) = Inr dt'
          \<and> index dt' ''men'' = Some ei \<and> nb ei = Some 1
          \<and> roles ei 0 = Some \<lparr>idxIndi = [0, 2], idxUnit = [0, 1]\<rparr>)
   \<and> split_entity_ok (ex_loaded_foy \<lparr>df_len = 3, df_cols = [''idmen'' \<mapsto> [1, 2, 3]]\<rparr>
                                    \<lparr>df_len = 2, df_cols = [''idfoy'' \<mapsto> [2, 1]]\<rparr>) ''men''
   \<and> split_entity_ok (ex_loaded_foy \<lparr>df_len = 3, df_cols = [''idmen'' \<mapsto> [1, 2, 3]]\<rparr>
                                    \<lparr>df_len = 2, df_cols = [''idfoy'' \<mapsto> [2, 1]]\<rparr>) ''foy''
   \<and> (\<exists>dt' ei. gen_index [''men'', ''foy'']
                   (ex_loaded_foy \<lparr>df_len = 3, df_cols = [''idmen'' \<mapsto> [1, 2, 3]]\<rparr>
                                  \<lparr>df_len = 2, df_cols = [''idfoy'' \<mapsto> [2, 1]]\<rparr>) = Inr dt'
          \<and> index dt' ''men'' = Some ei \<and> nb ei = Some 2)
   \<and> (\<exists>dt' ei. gen_index [''men'', ''foy'']
                   (ex_loaded_foy \<lparr>df_len = 3, df_cols = [''idmen'' \<mapsto> [1, 2, 3]]\<rparr>
                                  \<lparr>df_len = 2, df_cols = [''idfoy'' \<mapsto> [2, 1]]\<rparr>) = Inr dt'
          \<and> index dt' ''foy'' = Some ei \<and> nb ei = Some 2
          \<and> roles ei 0 = Some \<lparr>idxIndi = [0, 1, 2], idxUnit = [0, 2, 2]\<rparr>)"
proof -
  let ?A = "ex_loaded_foy \<lparr>df_len = 1, df_cols = [''idmen'' \<mapsto> [1::int]]\<rparr>
                          \<lparr>df_len = 3, df_cols = [''R'' \<mapsto> [5, 7, 9::int]]\<rparr>"
  let ?B = "ex_loaded_foy \<lparr>df_len = 3, df_cols = [''idmen'' \<mapsto> [1, 2, 3::int]]\<rparr>
                          \<lparr>df_len = 2, df_cols = [''idfoy'' \<mapsto> [2, 1::int]]\<rparr>"
  note defs = smaller_ids_def link_idx_def link_qui_def enum_of_def np_unique_def
    ex_loaded_foy_def ex_defs
  note jp = join_pair_def argwhere_def searchsorted_def searchsorted1_def
    bisect_left_step bisect_left_stop
  have n: "\<And>mf ff. num_table (ex_loaded_foy mf ff) = 3"
    by (simp add: ex_loaded_foy_def ex_defs)
  have i: "''ind'' \<notin> set [''men'', ''foy'']" and m: "''men'' \<in> set [''men'', ''foy'']"
      and fo: "''foy'' \<in> set [''men'', ''foy'']"
    by simp_all
  have okA: "\<forall>F \<in> set [''men'', ''foy'']. split_entity_ok ?A F"
    by (simp add: split_entity_ok_def defs)
  have okB: "\<forall>F \<in> set [''men'', ''foy'']. split_entity_ok ?B F"
    by (simp add: split_entity_ok_def defs)
  have r0: "0 \<in> snd ` set (enum_of ?A ''men'')" "0 \<in> snd ` set (enum_of ?B ''foy'')"
    by (simp_all add: defs)
  have r1: "0 \<in> snd ` set (enum_of ?A ''foy'')" "0 \<in> snd ` set (enum_of ?B ''men'')"
    by (simp_all add: defs)
  have hA: "\<forall>F \<in> set [''men'', ''foy''].
      (\<forall>S \<in> set [''men'', ''foy'']. S = F) \<or> 0 \<in> snd ` set (enum_of ?A F)"
    using r0(1) r1(1) by simp
  have hB: "\<forall>F \<in> set [''men'', ''foy''].
      (\<forall>S \<in> set [''men'', ''foy'']. S = F) \<or> 0 \<in> snd ` set (enum_of ?B F)"
    using r0(2) r1(2) by simp
  have sA: "length (smaller_ids ?A ''men'') = 1"
    by (simp add: defs)
  have jA: "join_pair (smaller_ids ?A ''men'') (link_idx ?A ''men'') (link_qui ?A ''men'') 0
      = \<lparr>idxIndi = [0, 2], idxUnit = [0, 1]\<rparr>"
    by (simp add: defs jp)
  have sBm: "length (smaller_ids ?B ''men'') = 2"
    by (simp add: defs)
  have sBf: "length (smaller_ids ?B ''foy'') = 2"
    by (simp add: defs)
  have jB: "join_pair (smaller_ids ?B ''foy'') (link_idx ?B ''foy'') (link_qui ?B ''foy'') 0
      = \<lparr>idxIndi = [0, 1, 2], idxUnit = [0, 2, 2]\<rparr>"
    by (simp add: defs jp)
  have a: "\<exists>dt' ei. gen_index [''men'', ''foy''] ?A = Inr dt'
          \<and> index dt' ''men'' = Some ei \<and> nb ei = Some 1
          \<and> roles ei 0 = Some \<lparr>idxIndi = [0, 2], idxUnit = [0, 1]\<rparr>"
  proof -
    from split_mismatch_not_fatal [OF n i okA hA m] obtain dt' ei where g:
      "gen_index [''men'', ''foy''] ?A = Inr dt'" "index dt' ''men'' = Some ei"
      "nb ei = Some (length (smaller_ids ?A ''men''))"
      "\<forall>person \<in> snd ` set (enum_of ?A ''men'').
         roles ei person = Some (join_pair (smaller_ids ?A ''men'') (link_idx ?A ''men'')
                                   (link_qui ?A ''men'') person)"
      by blast
    from g(4) r0(1) have "roles ei 0 = Some (join_pair (smaller_ids ?A ''men'')
        (link_idx ?A ''men'') (link_qui ?A ''men'') 0)"
      by (rule bspec)
    with g(1,2,3) sA jA show ?thesis
      by simp
  qed
  have b: "\<exists>dt' ei. gen_index [''men'', ''foy''] ?B = Inr dt'
          \<and> index dt' ''men'' = Some ei \<and> nb ei = Some 2"
  proof -
    from split_mismatch_not_fatal [OF n i okB hB m] obtain dt' ei where g:
      "gen_index [''men'', ''foy''] ?B = Inr dt'" "index dt' ''men'' = Some ei"
      "nb ei = Some (length (smaller_ids ?B ''men''))"
      by blast
    with sBm show ?thesis
      by simp
  qed
  have c: "\<exists>dt' ei. gen_index [''men'', ''foy''] ?B = Inr dt'
          \<and> index dt' ''foy'' = Some ei \<and> nb ei = Some 2
          \<and> roles ei 0 = Some \<lparr>idxIndi = [0, 1, 2], idxUnit = [0, 2, 2]\<rparr>"
  proof -
    from split_mismatch_not_fatal [OF n i okB hB fo] obtain dt' ei where g:
      "gen_index [''men'', ''foy''] ?B = Inr dt'" "index dt' ''foy'' = Some ei"
      "nb ei = Some (length (smaller_ids ?B ''foy''))"
      "\<forall>person \<in> snd ` set (enum_of ?B ''foy'').
         roles ei person = Some (join_pair (smaller_ids ?B ''foy'') (link_idx ?B ''foy'')
                                   (link_qui ?B ''foy'') person)"
      by blast
    from g(4) r0(2) have "roles ei 0 = Some (join_pair (smaller_ids ?B ''foy'')
        (link_idx ?B ''foy'') (link_qui ?B ''foy'') 0)"
      by (rule bspec)
    with g(1,2,3) sBf jB show ?thesis
      by simp
  qed
  from okA have "split_entity_ok ?A ''men''" and "split_entity_ok ?A ''foy''"
    by simp_all
  moreover from okB have "split_entity_ok ?B ''men''" and "split_entity_ok ?B ''foy''"
    by simp_all
  ultimately show ?thesis
    using a b c by (intro conjI)
qed

subsection \<open>Missing linking columns\<close>

text \<open>
  Filling the registered columns records exactly the registered names that the table did
  not have, and the table ends with its own columns and the registered ones.
\<close>

lemma fill_column_props:
  assumes "fill_column col (m, df) = (m', df')"
  shows "set m' = set m \<union> {c. c = col_name col \<and> df_cols df c = None}
       \<and> dom (df_cols df') = dom (df_cols df) \<union> {col_name col}"
  using assms by (auto simp add: fill_column_def split: option.splits)

lemma fold_fill_column_props:
  assumes "fold fill_column cols (m, df) = (m', df')"
  shows "set m' = set m \<union> {c \<in> col_name ` set cols. df_cols df c = None}
       \<and> dom (df_cols df') = dom (df_cols df) \<union> col_name ` set cols"
  using assms
proof (induction cols arbitrary: m df)
  case Nil
  then show ?case by simp
next
  case (Cons col cols)
  obtain m1 df1 where s: "fill_column col (m, df) = (m1, df1)"
    by (cases "fill_column col (m, df)") auto
  from fill_column_props [OF s] have p: "set m1 = set m \<union> {c. c = col_name col \<and> df_cols df c = None}"
      "dom (df_cols df1) = dom (df_cols df) \<union> {col_name col}"
    by simp_all
  from Cons.prems s have "fold fill_column cols (m1, df1) = (m', df')"
    by simp
  from Cons.IH [OF this] have q: "set m' = set m1 \<union> {c \<in> col_name ` set cols. df_cols df1 c = None}"
      "dom (df_cols df') = dom (df_cols df1) \<union> col_name ` set cols"
    by simp_all
  have d: "df_cols df1 c = None \<longleftrightarrow> df_cols df c = None \<and> c \<noteq> col_name col" for c
  proof -
    have "c \<in> dom (df_cols df1) \<longleftrightarrow> c \<in> dom (df_cols df) \<or> c = col_name col"
      using p(2) by auto
    then show ?thesis
      by (auto simp add: domIff)
  qed
  from p q d show ?case
    by auto
qed

lemma check_linking_Some:
  assumes "E \<in> set ents" and "''id'' @ E \<in> set m \<or> ''qui'' @ E \<in> set m"
  shows "\<exists>c' F. check_linking ents m = Some (SurveyDataNeedsVariable c') \<and> F \<in> set ents
           \<and> (c' = ''id'' @ F \<or> c' = ''qui'' @ F) \<and> c' \<in> set m"
  using assms
proof (induction ents)
  case Nil
  then show ?case by simp
next
  case (Cons var ents)
  show ?case
  proof (cases "''id'' @ var \<in> set m \<or> ''qui'' @ var \<in> set m")
    case True
    then show ?thesis
      by auto
  next
    case False
    with Cons.prems have "E \<in> set ents"
      by auto
    from Cons.IH [OF this Cons.prems(2)] False show ?thesis
      by auto
  qed
qed

lemma check_linking_None:
  assumes "check_linking ents m = None" and "E \<in> set ents"
  shows "''id'' @ E \<notin> set m \<and> ''qui'' @ E \<notin> set m"
  using check_linking_Some [OF assms(2), of m] assms(1) by auto

text \<open>
  The body of the loop of \<open>gen_index\<close> touches the entries of its entity and of \<open>'ind'\<close>
  only, and it raises before it writes anything when a linking column cannot be read.
\<close>

lemma enum_loop_other:
  "k \<noteq> entity \<Longrightarrow> outcome_state (enum_loop idxlist idx qui entity enum ix) k = ix k"
proof (induction enum arbitrary: ix)
  case Nil
  then show ?case by simp
next
  case (Cons member enum)
  show ?case
  proof (cases "take_idx idx (argwhere qui (snd member))")
    case (Inl e)
    then show ?thesis
      by (simp add: Let_def)
  next
    case (Inr ids)
    with Cons.prems Cons.IH show ?thesis
      by (simp add: Let_def upd_index_def split: option.splits)
  qed
qed

lemma gen_index_entity_other:
  assumes "k \<noteq> F" and "k \<noteq> ''ind''"
  shows "outcome_state (gen_index_entity dt F ix) k = ix k"
proof (cases "map_of (column_by_name dt) (''qui'' @ F)")
  case None
  then show ?thesis
    by (simp add: gen_index_entity_def)
next
  case (Some qcol)
  note qcol = this
  show ?thesis
  proof (cases "link_columns dt F")
    case (Inl e)
    with qcol show ?thesis
      by (simp add: gen_index_entity_def)
  next
    case (Inr cols)
    note cols = this
    let ?ix1 = "ix(F \<mapsto> empty_index)"
    show ?thesis
    proof (cases cols)
      case None
      with qcol cols assms show ?thesis
        by (simp add: gen_index_entity_def Let_def)
    next
      case (Some c)
      then obtain idx qui where c: "cols = Some (idx, qui)"
        by (cases c) auto
      let ?step = "(if num_table dt = 3 then
                      (case reconcile dt F (np_unique idx) of
                         Inl e \<Rightarrow> Inl (e, ?ix1)
                       | Inr idxlist \<Rightarrow>
                           (case ?ix1 ''ind'' of
                              None \<Rightarrow> Inl (KeyError ''ind'', ?ix1)
                            | Some li \<Rightarrow>
                                Inr (idxlist, ?ix1(''ind'' \<mapsto> li\<lparr>cross := (cross li)
                                       (F \<mapsto> searchsorted idxlist idx)\<rparr>))))
                    else Inr (np_unique idx, ?ix1))"
      have unfold: "gen_index_entity dt F ix =
          (case ?step of
             Inl p \<Rightarrow> Inl p
           | Inr (idxlist, ix2) \<Rightarrow>
               (let ix3 = upd_index ix2 F (\<lambda>dct. dct\<lparr>nb := Some (length idxlist)\<rparr>) in
                case col_enum qcol of
                  None \<Rightarrow> Inl (TypeError, ix3)
                | Some enum \<Rightarrow> enum_loop idxlist idx qui F enum ix3))"
        using qcol cols c by (simp add: gen_index_entity_def Let_def)
      show ?thesis
      proof (cases ?step)
        case (Inl p)
        then have "snd p = ?ix1"
          by (auto split: if_splits sum.splits option.splits)
        with Inl assms show ?thesis
          unfolding unfold by simp
      next
        case (Inr r)
        then obtain idxlist ix2 where r: "r = (idxlist, ix2)"
          by (cases r) auto
        have k2: "ix2 k = ix k"
          using Inr r assms
          by (auto split: if_splits sum.splits option.splits)
        let ?ix3 = "upd_index ix2 F (\<lambda>dct. dct\<lparr>nb := Some (length idxlist)\<rparr>)"
        have k3: "?ix3 k = ix k"
          using k2 assms(1) by (simp add: upd_index_def split: option.splits)
        show ?thesis
        proof (cases "col_enum qcol")
          case None
          with Inr r k3 show ?thesis
            unfolding unfold by (simp add: Let_def)
        next
          case (Some enum)
          with Inr r k3 enum_loop_other [OF assms(1), of idxlist idx qui enum ?ix3] show ?thesis
            unfolding unfold by (simp add: Let_def)
        qed
      qed
    qed
  qed
qed

lemma entity_fails:
  assumes "(num_table dt = 1 \<and> (df_cols (table dt) (''id'' @ E) = None
                                 \<or> df_cols (table dt) (''qui'' @ E) = None))
         \<or> (num_table dt = 3 \<and> (\<exists>idf. table3 dt ''ind'' = Some idf
                \<and> (df_cols idf (''id'' @ E) = None \<or> df_cols idf (''qui'' @ E) = None)))"
  shows "\<exists>e. gen_index_entity dt E ix = Inl (e, ix)"
proof (cases "map_of (column_by_name dt) (''qui'' @ E)")
  case None
  then show ?thesis
    by (simp add: gen_index_entity_def)
next
  case (Some qcol)
  from assms have "\<exists>e. link_columns dt E = Inl e"
    by (auto simp add: link_columns_def frame_attr_def split: option.splits)
  with Some show ?thesis
    by (auto simp add: gen_index_entity_def)
qed

lemma entity_loop_fails:
  assumes "\<And>ix. \<exists>e. gen_index_entity dt E ix = Inl (e, ix)" and "E \<noteq> ''ind''"
  shows "E \<in> set ents \<Longrightarrow> ix E = None
           \<Longrightarrow> \<exists>e ix'. entity_loop dt ents ix = Inl (e, ix') \<and> ix' E = None"
proof (induction ents arbitrary: ix)
  case Nil
  then show ?case by simp
next
  case (Cons F rest)
  show ?case
  proof (cases "F = E")
    case True
    with assms(1) [of ix] Cons.prems(2) show ?thesis
      by auto
  next
    case False
    then have o: "outcome_state (gen_index_entity dt F ix) E = ix E"
      using gen_index_entity_other [of E F dt ix] assms(2) by simp
    show ?thesis
    proof (cases "gen_index_entity dt F ix")
      case (Inl p)
      with o Cons.prems(2) show ?thesis
        by (cases p) auto
    next
      case (Inr ix1)
      with o Cons.prems(2) have "ix1 E = None"
        by simp
      moreover from False Cons.prems(1) have "E \<in> set rest"
        by simp
      ultimately show ?thesis
        using Cons.IH [of ix1] Inr by simp
    qed
  qed
qed

lemma gen_index_fails:
  assumes "(num_table dt = 1 \<and> (df_cols (table dt) (''id'' @ E) = None
                                 \<or> df_cols (table dt) (''qui'' @ E) = None))
         \<or> (num_table dt = 3 \<and> (\<exists>idf. table3 dt ''ind'' = Some idf
                \<and> (df_cols idf (''id'' @ E) = None \<or> df_cols idf (''qui'' @ E) = None)))"
      and "E \<in> set ents" and "E \<noteq> ''ind''"
  shows "\<exists>e dt'. gen_index ents dt = Inl (e, dt') \<and> index dt' E = None"
proof -
  have none: "[''ind'' \<mapsto> leaf_index (nrows dt)] E = None"
    using assms(3) by simp
  have fails: "\<And>ix. \<exists>e. gen_index_entity dt E ix = Inl (e, ix)"
    by (rule entity_fails [OF assms(1)])
  have "\<exists>e ix'. entity_loop dt ents [''ind'' \<mapsto> leaf_index (nrows dt)] = Inl (e, ix')
          \<and> ix' E = None"
    by (rule entity_loop_fails
          [where dt = dt and E = E and ents = ents and ix = "[''ind'' \<mapsto> leaf_index (nrows dt)]",
           OF fails assms(3,2) none])
  then obtain e ix' where "entity_loop dt ents [''ind'' \<mapsto> leaf_index (nrows dt)] = Inl (e, ix')"
      "ix' E = None"
    by blast
  then show ?thesis
    by (simp add: gen_index_def gen_index_map_def)
qed

text \<open>The check of the linking columns, and the loops that load and fill the split tables.\<close>

lemma check_linking_SomeD:
  "check_linking ents m = Some e
     \<Longrightarrow> \<exists>c'. e = SurveyDataNeedsVariable c' \<and> c' \<in> set (linking_columns ents) \<and> c' \<in> set m"
  by (induction ents) (auto simp add: linking_columns_def split: if_splits)

lemma linking_columns_mem:
  "E \<in> set ents \<Longrightarrow> c = ''id'' @ E \<or> c = ''qui'' @ E \<Longrightarrow> c \<in> set (linking_columns ents)"
  by (auto simp add: linking_columns_def)

lemma load_tables_total:
  "list_all (\<lambda>k. d k \<noteq> None) es \<Longrightarrow> \<exists>t3'. load_tables (Frames d) es t3 = Inr t3'"
  by (induction es arbitrary: t3) auto

lemma fill_tables_total:
  "\<forall>k \<in> set es. tabs k \<noteq> None \<Longrightarrow> \<exists>m' tabs'. fill_tables cbn es (m, tabs) = Inr (m', tabs')"
proof (induction es arbitrary: m tabs)
  case Nil
  then show ?case by simp
next
  case (Cons ent es)
  then obtain df where df: "tabs ent = Some df"
    by auto
  obtain m1 df1 where f: "fold fill_column (filter (\<lambda>c. col_entity c = ent) (map snd cbn)) (m, df)
      = (m1, df1)"
    by (cases "fold fill_column (filter (\<lambda>c. col_entity c = ent) (map snd cbn)) (m, df)") auto
  have "\<forall>k \<in> set es. (tabs(ent \<mapsto> df1)) k \<noteq> None"
    using Cons.prems by simp
  then have "\<exists>m' tabs'. fill_tables cbn es (m1, tabs(ent \<mapsto> df1)) = Inr (m', tabs')"
    by (rule Cons.IH [where tabs = "tabs(ent \<mapsto> df1)" and m = m1])
  with df f show ?case
    by simp
qed

lemma fill_tables_props:
  "fill_tables cbn es (m, tabs) = Inr (m', tabs') \<Longrightarrow>
     set m \<subseteq> set m'
     \<and> (\<forall>k df. tabs k = Some df \<longrightarrow>
           (\<exists>df'. tabs' k = Some df' \<and> dom (df_cols df') \<subseteq> dom (df_cols df) \<union> set m'))
     \<and> (\<forall>x \<in> set m'. x \<in> set m
           \<or> (\<exists>col \<in> set (map snd cbn). col_name col = x \<and> col_entity col \<in> set es
                 \<and> (\<exists>df. tabs (col_entity col) = Some df \<and> df_cols df x = None)))"
proof (induction es arbitrary: m tabs)
  case Nil
  then show ?case by auto
next
  case (Cons ent es)
  from Cons.prems obtain df where df: "tabs ent = Some df"
    by (auto split: option.splits)
  let ?cols = "filter (\<lambda>c. col_entity c = ent) (map snd cbn)"
  obtain m1 df1 where f: "fold fill_column ?cols (m, df) = (m1, df1)"
    by (cases "fold fill_column ?cols (m, df)") auto
  from fold_fill_column_props [OF f]
  have m1: "set m1 = set m \<union> {c \<in> col_name ` set ?cols. df_cols df c = None}"
    and d1: "dom (df_cols df1) = dom (df_cols df) \<union> col_name ` set ?cols"
    by simp_all
  from Cons.prems df f have rest: "fill_tables cbn es (m1, tabs(ent \<mapsto> df1)) = Inr (m', tabs')"
    by simp
  note ih = Cons.IH [where tabs = "tabs(ent \<mapsto> df1)" and m = m1, OF rest]
  from ih have sub: "set m1 \<subseteq> set m'"
    by simp
  have a: "set m \<subseteq> set m'"
    using m1 sub by auto
  have d1': "dom (df_cols df1) \<subseteq> dom (df_cols df) \<union> set m1"
    using m1 d1 by (auto simp add: domIff)
  have b: "\<exists>df'. tabs' k = Some df' \<and> dom (df_cols df') \<subseteq> dom (df_cols dfk) \<union> set m'"
    if k: "tabs k = Some dfk" for k dfk
  proof (cases "k = ent")
    case True
    with ih obtain df' where "tabs' k = Some df'" "dom (df_cols df') \<subseteq> dom (df_cols df1) \<union> set m'"
      by (auto simp del: fun_upd_apply) (metis fun_upd_same)
    moreover from True k df have "dfk = df"
      by simp
    ultimately show ?thesis
      using d1' sub by blast
  next
    case False
    with k have "(tabs(ent \<mapsto> df1)) k = Some dfk"
      by simp
    with ih show ?thesis
      by blast
  qed
  have c: "x \<in> set m \<or> (\<exists>col \<in> set (map snd cbn). col_name col = x
                 \<and> col_entity col \<in> set (ent # es)
                 \<and> (\<exists>df. tabs (col_entity col) = Some df \<and> df_cols df x = None))"
    if x: "x \<in> set m'" for x
  proof -
    from ih x have "x \<in> set m1
           \<or> (\<exists>col \<in> set (map snd cbn). col_name col = x \<and> col_entity col \<in> set es
                 \<and> (\<exists>df. (tabs(ent \<mapsto> df1)) (col_entity col) = Some df \<and> df_cols df x = None))"
      by blast
    then show ?thesis
    proof
      assume "x \<in> set m1"
      with m1 have "x \<in> set m \<or> (x \<in> col_name ` set ?cols \<and> df_cols df x = None)"
        by auto
      then show ?thesis
      proof
        assume "x \<in> set m"
        then show ?thesis by simp
      next
        assume "x \<in> col_name ` set ?cols \<and> df_cols df x = None"
        then obtain col where "col \<in> set (map snd cbn)" "col_entity col = ent" "col_name col = x"
            "df_cols df x = None"
          by auto
        with df show ?thesis
          by auto
      qed
    next
      assume "\<exists>col \<in> set (map snd cbn). col_name col = x \<and> col_entity col \<in> set es
                 \<and> (\<exists>df. (tabs(ent \<mapsto> df1)) (col_entity col) = Some df \<and> df_cols df x = None)"
      then obtain col df2 where col: "col \<in> set (map snd cbn)" "col_name col = x"
          "col_entity col \<in> set es"
          "(tabs(ent \<mapsto> df1)) (col_entity col) = Some df2" "df_cols df2 x = None"
        by blast
      show ?thesis
      proof (cases "col_entity col = ent")
        case True
        with col have "df2 = df1"
          by simp
        with col(5) d1 have "df_cols df x = None"
          by (auto simp add: domIff)
        with True df col(1,2) show ?thesis
          by auto
      next
        case False
        with col show ?thesis
          by auto
      qed
    qed
  qed
  from a b c show ?case
    by blast
qed

lemma fill_tables_recorded:
  assumes "col \<in> set (map snd cbn)" and "df_cols df (col_name col) = None"
  shows "fill_tables cbn es (m, tabs) = Inr (m', tabs') \<Longrightarrow> col_entity col \<in> set es
           \<Longrightarrow> tabs (col_entity col) = Some df \<Longrightarrow> col_name col \<in> set m'"
proof (induction es arbitrary: m tabs)
  case Nil
  then show ?case by simp
next
  case (Cons ent es)
  from Cons.prems(1) obtain dfe where dfe: "tabs ent = Some dfe"
    by (auto split: option.splits)
  let ?cols = "filter (\<lambda>c. col_entity c = ent) (map snd cbn)"
  obtain m1 df1 where f: "fold fill_column ?cols (m, dfe) = (m1, df1)"
    by (cases "fold fill_column ?cols (m, dfe)") auto
  from Cons.prems(1) dfe f have rest: "fill_tables cbn es (m1, tabs(ent \<mapsto> df1)) = Inr (m', tabs')"
    by simp
  show ?case
  proof (cases "col_entity col = ent")
    case True
    with Cons.prems(3) dfe have "dfe = df"
      by simp
    with fold_fill_column_props [OF f] assms True have "col_name col \<in> set m1"
      by auto
    moreover from fill_tables_props [OF rest] have "set m1 \<subseteq> set m'"
      by simp
    ultimately show ?thesis
      by blast
  next
    case False
    with Cons.prems(2) have "col_entity col \<in> set es"
      by simp
    moreover from False Cons.prems(3) have "(tabs(ent \<mapsto> df1)) (col_entity col) = Some df"
      by simp
    ultimately show ?thesis
      using Cons.IH [where tabs = "tabs(ent \<mapsto> df1)" and m = m1, OF rest] by blast
  qed
qed

text \<open>The two layouts, from the empty table that the constructor gives.\<close>

lemma populate_flat_lacks:
  assumes E: "E \<in> set ents" "E \<noteq> ''ind''" and c: "c = ''id'' @ E \<or> c = ''qui'' @ E"
    and lack: "df_cols df c = None"
  shows "\<exists>e dt'. populate_from_survey_data ents (Frame df) (DataTable cbn 1) = Inl (e, dt')
       \<and> index dt' E = None
       \<and> (registered_missing cbn 1 ents (Frame df) c \<longrightarrow>
            index dt' = Map.empty
            \<and> (\<exists>c'. e = SurveyDataNeedsVariable c' \<and> c' \<in> set (linking_columns ents)
                    \<and> registered_missing cbn 1 ents (Frame df) c'))"
proof -
  let ?dt1 = "(DataTable cbn 1)\<lparr>table := df\<rparr>"
  have load: "load_survey ents (Frame df) (DataTable cbn 1) = Inr ?dt1"
    by (simp add: load_survey_def DataTable_def)
  obtain m' df' where f: "fold fill_column (map snd cbn) ([], df) = (m', df')"
    by (cases "fold fill_column (map snd cbn) ([], df)") auto
  let ?dt2 = "?dt1\<lparr>nrows := df_len df,
                   table := df'\<lparr>df_cols := df_cols df' |` set (map fst cbn)\<rparr>\<rparr>"
  have fill: "fill_missing ents ?dt1 = Inr (m', ?dt2)"
    using f by (simp add: fill_missing_def DataTable_def)
  from fold_fill_column_props [OF f]
  have m': "set m' = {x \<in> col_name ` set (map snd cbn). df_cols df x = None}"
    and d': "dom (df_cols df') = dom (df_cols df) \<union> col_name ` set (map snd cbn)"
    by simp_all
  have rm: "registered_missing cbn 1 ents (Frame df) x = (x \<in> set m')" for x
    using m' by (auto simp add: registered_missing_def list_ex_iff)
  have pop: "populate_from_survey_data ents (Frame df) (DataTable cbn 1) =
      (case check_linking ents m' of Some e \<Rightarrow> Inl (e, ?dt2) | None \<Rightarrow> gen_index ents ?dt2)"
    using load fill
    by (cases "check_linking ents m'") (simp_all add: populate_from_survey_data_def)
  have empty: "index ?dt2 = Map.empty"
    by (simp add: DataTable_def)
  show ?thesis
  proof (cases "check_linking ents m'")
    case None
    from check_linking_None [OF None E(1)] c have cm: "c \<notin> set m'"
      by auto
    with rm have nd: "\<not> registered_missing cbn 1 ents (Frame df) c"
      by simp
    from cm m' lack have notdecl: "c \<notin> col_name ` set (map snd cbn)"
      by simp
    from notdecl lack d' have "c \<notin> dom (df_cols df')"
      by (auto simp add: domIff)
    then have "df_cols (table ?dt2) c = None"
      by (simp add: restrict_map_def domIff)
    with c have "num_table ?dt2 = 1 \<and> (df_cols (table ?dt2) (''id'' @ E) = None
                                 \<or> df_cols (table ?dt2) (''qui'' @ E) = None)"
      by (auto simp add: DataTable_def)
    then have "(num_table ?dt2 = 1 \<and> (df_cols (table ?dt2) (''id'' @ E) = None
                                 \<or> df_cols (table ?dt2) (''qui'' @ E) = None))
         \<or> (num_table ?dt2 = 3 \<and> (\<exists>idf. table3 ?dt2 ''ind'' = Some idf
                \<and> (df_cols idf (''id'' @ E) = None \<or> df_cols idf (''qui'' @ E) = None)))"
      by (rule disjI1)
    from gen_index_fails [OF this E]
    obtain e dt' where "gen_index ents ?dt2 = Inl (e, dt')" "index dt' E = None"
      by blast
    with pop None nd show ?thesis
      by simp
  next
    case (Some e)
    from check_linking_SomeD [OF Some] obtain c' where c':
        "e = SurveyDataNeedsVariable c'" "c' \<in> set (linking_columns ents)" "c' \<in> set m'"
      by blast
    from c'(3) rm have "registered_missing cbn 1 ents (Frame df) c'"
      by simp
    with pop Some empty c' show ?thesis
      by simp
  qed
qed

lemma populate_split_lacks:
  assumes E: "E \<in> set ents" "E \<noteq> ''ind''" and c: "c = ''id'' @ E \<or> c = ''qui'' @ E"
    and present: "list_all (\<lambda>k. d k \<noteq> None) (list_entities ents)"
    and idf: "d ''ind'' = Some idf" and lack: "df_cols idf c = None"
  shows "\<exists>e dt'. populate_from_survey_data ents (Frames d) (DataTable cbn 3) = Inl (e, dt')
       \<and> index dt' E = None
       \<and> (registered_missing cbn 3 ents (Frames d) c \<longrightarrow>
            index dt' = Map.empty
            \<and> (\<exists>c'. e = SurveyDataNeedsVariable c' \<and> c' \<in> set (linking_columns ents)
                    \<and> registered_missing cbn 3 ents (Frames d) c'))"
proof -
  let ?dt0 = "DataTable cbn 3"
  from load_tables_total [OF present, of "table3 ?dt0"]
  obtain tabs where lt: "load_tables (Frames d) (list_entities ents) (table3 ?dt0) = Inr tabs"
    by blast
  have tabs: "tabs k = d k" if "k \<in> set (list_entities ents)" for k
    using load_tables_Frames [OF lt that] .
  have tind: "tabs ''ind'' = Some idf"
    using tabs [of "''ind''"] idf by (simp add: list_entities_def)
  let ?dt1 = "?dt0\<lparr>table3 := tabs\<rparr>"
  have load: "load_survey ents (Frames d) ?dt0 = Inr ?dt1"
    using lt by (simp add: load_survey_def DataTable_def)
  have "\<forall>k \<in> set (list_entities ents). tabs k \<noteq> None"
    using tabs present by (simp add: list_all_iff)
  from fill_tables_total [OF this, of cbn "[]"]
  obtain m' tabs' where ft: "fill_tables cbn (list_entities ents) ([], tabs) = Inr (m', tabs')"
    by blast
  let ?dt2 = "?dt1\<lparr>nrows := df_len idf, table3 := tabs'\<rparr>"
  have fill: "fill_missing ents ?dt1 = Inr (m', ?dt2)"
    using ft tind by (simp add: fill_missing_def DataTable_def)
  have pop: "populate_from_survey_data ents (Frames d) ?dt0 =
      (case check_linking ents m' of Some e \<Rightarrow> Inl (e, ?dt2) | None \<Rightarrow> gen_index ents ?dt2)"
    using load fill
    by (cases "check_linking ents m'") (simp_all add: populate_from_survey_data_def)
  have empty: "index ?dt2 = Map.empty"
    by (simp add: DataTable_def)
  note props = fill_tables_props [OF ft]
  from props tind obtain idf' where idf': "tabs' ''ind'' = Some idf'"
      "dom (df_cols idf') \<subseteq> dom (df_cols idf) \<union> set m'"
    by blast
  have rm1: "registered_missing cbn 3 ents (Frames d) x" if x: "x \<in> set m'" for x
  proof -
    from props x have "\<exists>col \<in> set (map snd cbn). col_name col = x
        \<and> col_entity col \<in> set (list_entities ents)
        \<and> (\<exists>df. tabs (col_entity col) = Some df \<and> df_cols df x = None)"
      by simp
    then obtain col df where col: "col \<in> set (map snd cbn)" "col_name col = x"
        "col_entity col \<in> set (list_entities ents)"
        "tabs (col_entity col) = Some df" "df_cols df x = None"
      by blast
    from col(3,4) tabs have "d (col_entity col) = Some df"
      by simp
    with col(1,2,3,5) show ?thesis
      by (auto simp add: registered_missing_def list_ex_iff)
  qed
  have rm2: "x \<in> set m'" if x: "registered_missing cbn 3 ents (Frames d) x" for x
  proof -
    from x have "\<exists>col \<in> set (map snd cbn). col_name col = x
        \<and> col_entity col \<in> set (list_entities ents)
        \<and> (\<exists>t. d (col_entity col) = Some t \<and> df_cols t x = None)"
      by (fastforce simp add: registered_missing_def list_ex_iff split: option.splits)
    then obtain col t where col: "col \<in> set (map snd cbn)" "col_name col = x"
        "col_entity col \<in> set (list_entities ents)"
        "d (col_entity col) = Some t" "df_cols t x = None"
      by blast
    from col(3,4) tabs have t: "tabs (col_entity col) = Some t"
      by simp
    from col(2,5) have l: "df_cols t (col_name col) = None"
      by simp
    from fill_tables_recorded [OF col(1) l ft col(3) t] col(2) show ?thesis
      by simp
  qed
  show ?thesis
  proof (cases "check_linking ents m'")
    case None
    from check_linking_None [OF None E(1)] c have cm: "c \<notin> set m'"
      by auto
    with rm2 have nd: "\<not> registered_missing cbn 3 ents (Frames d) c"
      by blast
    from cm lack idf'(2) have "df_cols idf' c = None"
      by (auto simp add: domIff)
    with c idf'(1) have "num_table ?dt2 = 3 \<and> (\<exists>idf. table3 ?dt2 ''ind'' = Some idf
                \<and> (df_cols idf (''id'' @ E) = None \<or> df_cols idf (''qui'' @ E) = None))"
      by (auto simp add: DataTable_def)
    then have "(num_table ?dt2 = 1 \<and> (df_cols (table ?dt2) (''id'' @ E) = None
                                 \<or> df_cols (table ?dt2) (''qui'' @ E) = None))
         \<or> (num_table ?dt2 = 3 \<and> (\<exists>idf. table3 ?dt2 ''ind'' = Some idf
                \<and> (df_cols idf (''id'' @ E) = None \<or> df_cols idf (''qui'' @ E) = None)))"
      by (rule disjI2)
    from gen_index_fails [OF this E]
    obtain e dt' where "gen_index ents ?dt2 = Inl (e, dt')" "index dt' E = None"
      by blast
    with pop None nd show ?thesis
      by simp
  next
    case (Some e)
    from check_linking_SomeD [OF Some] obtain c' where c':
        "e = SurveyDataNeedsVariable c'" "c' \<in> set (linking_columns ents)" "c' \<in> set m'"
      by blast
    from rm1 [OF c'(3)] pop Some empty c'(1,2) show ?thesis
      by auto
  qed
qed

text \<open>
  When the registry does not declare the column, nothing records it as missing and the
  failure comes from \<open>gen_index\<close>, after it has written the entries of \<open>'ind'\<close> and of the
  entities before. With \<open>idfoy\<close> neither declared nor given, the error is the attribute
  error of the table; the entries of \<open>'ind'\<close> and \<open>'men'\<close> are on the object and a read at
  \<open>'men'\<close> answers. With \<open>quimen\<close> neither declared nor given, the error is the attribute
  error of \<open>None.enum\<close>, which names no column.
\<close>

theorem missing_linking_column_counterexample:
  "input_lacks 3 [''men'', ''foy''] (Frames (ex_frames_lacking ''idfoy'')) ''idfoy''
   \<and> (case populate_from_survey_data [''men'', ''foy''] (Frames (ex_frames_lacking ''idfoy''))
            (DataTable (registry_without ''idfoy'' (ex_registry3 0)) 3) of
        Inl p \<Rightarrow> Some (fst p, map (\<lambda>k. index (snd p) k \<noteq> None) [''ind'', ''men'', ''foy''],
                       get_value (snd p) ''X'' (Some ''men'') None False)
      | Inr dt \<Rightarrow> None)
       = Some (AttributeError ''idfoy'', [True, True, False], Inr (Arr [10, 30]))
   \<and> input_lacks 1 [''men'']
         (Frame \<lparr>df_len = 3, df_cols = [''idmen'' \<mapsto> [1, 1, 2], ''X'' \<mapsto> [10, 20, 30]]\<rparr>) ''quimen''
   \<and> (case populate_from_survey_data [''men'']
            (Frame \<lparr>df_len = 3, df_cols = [''idmen'' \<mapsto> [1, 1, 2], ''X'' \<mapsto> [10, 20, 30]]\<rparr>)
            (DataTable (registry_without ''quimen'' (ex_registry 0)) 1) of
        Inl p \<Rightarrow> Some (fst p)
      | Inr dt \<Rightarrow> None) = Some (AttributeError ''enum'')"
  by (simp add: eval_defs ex_defs registry_without_def ex_frames_lacking_def input_lacks_def
      Let_def eval_nat_numeral)

text \<open>
  Claim C3, amended. Let \<open>E\<close> be a composite entity of \<open>ENTITIES_INDEX\<close> and let the survey
  data (a DataFrame for the flat layout, a dictionary with a DataFrame for every entity for
  the split layout) have no column \<open>id<E>\<close> or no column \<open>qui<E>\<close> on the individuals. Then
  \<open>populate_from_survey_data\<close> on a new table raises, and the object it leaves has no index
  entry for \<open>E\<close>. When that column is registered and missing where the registry puts it
  (so when the registry declares it as a column of the individuals), the error is
  \<open>Exception('Survey data needs variable c')\<close> for a linking column \<open>c\<close> that is registered
  and missing in the same way, and it is raised before \<open>gen_index\<close> is called: the index is
  empty.
\<close>

theorem missing_linking_column:
  assumes "E \<in> set ENTITIES_INDEX" and "E \<noteq> ''ind''"
    and "c = ''id'' @ E \<or> c = ''qui'' @ E"
    and "input_lacks nt ENTITIES_INDEX fname c"
  shows "\<exists>e dt'. populate_from_survey_data ENTITIES_INDEX fname (DataTable cbn nt) = Inl (e, dt')
       \<and> index dt' E = None
       \<and> (registered_missing cbn nt ENTITIES_INDEX fname c \<longrightarrow>
            index dt' = Map.empty
            \<and> (\<exists>c'. e = SurveyDataNeedsVariable c'
                    \<and> c' \<in> set (linking_columns ENTITIES_INDEX)
                    \<and> registered_missing cbn nt ENTITIES_INDEX fname c'))"
proof (cases fname)
  case (Frame df)
  with assms(4) have nt: "nt = 1" and lack: "df_cols df c = None"
    by (simp_all add: input_lacks_def)
  from populate_flat_lacks [OF assms(1,2,3) lack, of cbn] Frame nt show ?thesis
    by simp
next
  case (Frames d)
  with assms(4) obtain idf where nt: "nt = 3"
      and present: "list_all (\<lambda>k. d k \<noteq> None) (list_entities ENTITIES_INDEX)"
      and idf: "d ''ind'' = Some idf" and lack: "df_cols idf c = None"
    by (auto simp add: input_lacks_def split: option.splits)
  from populate_split_lacks [OF assms(1,2,3) present idf lack, of cbn] Frames nt show ?thesis
    by simp
qed

theorem missing_linking_column_witness:
  "input_lacks 1 [''men'']
     (Frame \<lparr>df_len = 3, df_cols = [''idmen'' \<mapsto> [1, 1, 2], ''X'' \<mapsto> [10, 20, 30]]\<rparr>) ''quimen''
   \<and> registered_missing (ex_registry 0) 1 [''men'']
        (Frame \<lparr>df_len = 3, df_cols = [''idmen'' \<mapsto> [1, 1, 2], ''X'' \<mapsto> [10, 20, 30]]\<rparr>) ''quimen''
   \<and> (\<exists>dt'. populate_from_survey_data [''men'']
               (Frame \<lparr>df_len = 3, df_cols = [''idmen'' \<mapsto> [1, 1, 2], ''X'' \<mapsto> [10, 20, 30]]\<rparr>)
               (DataTable (ex_registry 0) 1) = Inl (SurveyDataNeedsVariable ''quimen'', dt')
          \<and> index dt' = Map.empty)
   \<and> input_lacks 3 [''men'', ''foy''] (Frames (ex_frames_lacking ''idfoy'')) ''idfoy''
   \<and> registered_missing (ex_registry3 0) 3 [''men'', ''foy'']
        (Frames (ex_frames_lacking ''idfoy'')) ''idfoy''
   \<and> (\<exists>dt'. populate_from_survey_data [''men'', ''foy''] (Frames (ex_frames_lacking ''idfoy''))
               (DataTable (ex_registry3 0) 3) = Inl (SurveyDataNeedsVariable ''idfoy'', dt')
          \<and> index dt' = Map.empty)"
proof -
  let ?f = "Frame \<lparr>df_len = 3, df_cols = [''idmen'' \<mapsto> [1, 1, 2::int], ''X'' \<mapsto> [10, 20, 30]]\<rparr>"
  let ?g = "Frames (ex_frames_lacking ''idfoy'')"
  note rdefs = registered_missing_def list_entities_def ex_frames_lacking_def ex_defs
  have l1: "input_lacks 1 [''men''] ?f ''quimen''"
    by (simp add: input_lacks_def)
  have r1: "registered_missing (ex_registry 0) 1 [''men''] ?f ''quimen''"
    by (simp add: rdefs)
  have p1: "\<not> registered_missing (ex_registry 0) 1 [''men''] ?f ''idmen''"
    by (simp add: rdefs)
  have m1: "''men'' \<in> set [''men'']" "''men'' \<noteq> ''ind''"
      "''quimen'' = ''id'' @ ''men'' \<or> ''quimen'' = ''qui'' @ ''men''"
    by simp_all
  from missing_linking_column [OF m1 l1, of "ex_registry 0"] r1 p1
  have a: "\<exists>dt'. populate_from_survey_data [''men''] ?f (DataTable (ex_registry 0) 1)
              = Inl (SurveyDataNeedsVariable ''quimen'', dt') \<and> index dt' = Map.empty"
    by (auto simp add: linking_columns_def)
  have l3: "input_lacks 3 [''men'', ''foy''] ?g ''idfoy''"
    by (simp add: input_lacks_def list_entities_def ex_frames_lacking_def ex_defs)
  have r3: "registered_missing (ex_registry3 0) 3 [''men'', ''foy''] ?g ''idfoy''"
    by (simp add: rdefs)
  have p3: "\<not> registered_missing (ex_registry3 0) 3 [''men'', ''foy''] ?g ''idmen''"
      "\<not> registered_missing (ex_registry3 0) 3 [''men'', ''foy''] ?g ''quimen''"
      "\<not> registered_missing (ex_registry3 0) 3 [''men'', ''foy''] ?g ''quifoy''"
    by (simp_all add: rdefs)
  have m3: "''foy'' \<in> set [''men'', ''foy'']" "''foy'' \<noteq> ''ind''"
      "''idfoy'' = ''id'' @ ''foy'' \<or> ''idfoy'' = ''qui'' @ ''foy''"
    by simp_all
  from missing_linking_column [OF m3 l3, of "ex_registry3 0"] r3 p3
  have b: "\<exists>dt'. populate_from_survey_data [''men'', ''foy''] ?g (DataTable (ex_registry3 0) 3)
              = Inl (SurveyDataNeedsVariable ''idfoy'', dt') \<and> index dt' = Map.empty"
    by (auto simp add: linking_columns_def)
  from l1 r1 a l3 r3 b show ?thesis
    by (intro conjI)
qed

end
